(* ===== verification/Go_Prelude.thy ===== *)
theory Go_Prelude
  imports Main "HOL-Library.Sublist" "HOL-Library.Char_ord" "HOL-Library.List_Lexorder"
    "HOL-Library.Product_Lexorder"
begin

text \<open>
  Shared ground of the development: what the Go language and its standard library mean for the
  parts of SettleTrace modelled in the other theories.

  \<^item> errors as values: \<open>go_error\<close>, \<open>errors_is\<close> (\<^verbatim>\<open>errors.Is\<close>), \<open>err_text\<close> (\<^verbatim>\<open>err.Error()\<close>);
  \<^item> \<^verbatim>\<open>int64\<close> arithmetic: values are \<open>int\<close>, and \<open>wrap64\<close> writes out the two's complement wrap;
  \<^item> \<^verbatim>\<open>time.Time\<close> as nanoseconds since the Unix epoch and \<^verbatim>\<open>time.Duration\<close> as an \<^verbatim>\<open>int64\<close> of
    nanoseconds, with the saturation of \<^verbatim>\<open>Time.Sub\<close>;
  \<^item> decimal rendering and the list and option lemmas that several components use.
\<close>

section \<open>Collections of facts\<close>

named_theorems keeps_rules \<open>composition of invariants of actions\<close>
named_theorems fails_rules \<open>composition of bounds on the errors of actions\<close>

section \<open>Errors\<close>

text \<open>
  An error is a sentinel value, a plain text (\<^verbatim>\<open>errors.New\<close>, \<^verbatim>\<open>fmt.Errorf\<close> without \<^verbatim>\<open>%w\<close>), a
  driver error with its MySQL number, or a wrapped error: \<open>ErrWrap pre e post\<close> is
  \<^verbatim>\<open>fmt.Errorf(pre + "%w" + post, e)\<close>.
\<close>

datatype go_error =
    ErrText string
  | ErrWrap string go_error string
  | ErrDuplicate
  | ErrAppendOnly
  | ErrExceptionNotFound
  | ErrInvalidSignature
  | ErrPossiblePANDetected
  | ErrUnsupportedSource
  | ErrLockHeld
  | ErrBudgetExceeded
  | ErrCircuitOpen
  | MySQLError nat string

type_synonym 'a result = "go_error + 'a"

text \<open>\<^verbatim>\<open>errors.Is(e, t)\<close>: some error in the unwrapping chain of \<open>e\<close> is \<open>t\<close>.\<close>

fun errors_is :: "go_error \<Rightarrow> go_error \<Rightarrow> bool" where
  "errors_is (ErrWrap p e q) t = (ErrWrap p e q = t \<or> errors_is e t)"
| "errors_is e t = (e = t)"

lemma errors_is_refl [simp]: "errors_is e e"
  by (cases e) auto

section \<open>Decimal and hexadecimal rendering\<close>

definition digit_char :: "nat \<Rightarrow> char" where
  "digit_char d = char_of (48 + d)"

fun dec_nat :: "nat \<Rightarrow> string" where
  "dec_nat n = (if n < 10 then [digit_char n] else dec_nat (n div 10) @ [digit_char (n mod 10)])"

declare dec_nat.simps [simp del]

text \<open>\<^verbatim>\<open>%d\<close>, \<^verbatim>\<open>strconv.Itoa\<close>, \<^verbatim>\<open>strconv.FormatInt(_, 10)\<close>.\<close>

definition itoa :: "int \<Rightarrow> string" where
  "itoa i = (if i < 0 then CHR ''-'' # dec_nat (nat (- i)) else dec_nat (nat i))"

text \<open>\<^verbatim>\<open>%0wd\<close>: zero padding to a minimum width.\<close>

definition pad_left :: "nat \<Rightarrow> string \<Rightarrow> string" where
  "pad_left w s = replicate (w - length s) (CHR ''0'') @ s"

fun dec_value :: "nat \<Rightarrow> string \<Rightarrow> nat" where
  "dec_value acc [] = acc"
| "dec_value acc (c # s) = dec_value (10 * acc + (of_char c - 48)) s"

definition is_digit :: "char \<Rightarrow> bool" where
  "is_digit c \<longleftrightarrow> (48::nat) \<le> of_char c \<and> (of_char c :: nat) \<le> 57"

lemma of_char_digit_char [simp]: "d < 10 \<Longrightarrow> (of_char (digit_char d) :: nat) = 48 + d"
  by (simp add: digit_char_def of_char_of)

lemma is_digit_digit_char [simp]: "d < 10 \<Longrightarrow> is_digit (digit_char d)"
  by (simp add: is_digit_def)

lemma dec_nat_nonempty [simp]: "dec_nat n \<noteq> []"
  by (subst dec_nat.simps) simp

lemma dec_nat_digits: "list_all is_digit (dec_nat n)"
proof (induction n rule: dec_nat.induct)
  case (1 n)
  then show ?case by (subst dec_nat.simps) auto
qed

lemma dec_value_append: "dec_value acc (s @ t) = dec_value (dec_value acc s) t"
  by (induction s arbitrary: acc) auto

lemma dec_value_dec_nat: "dec_value 0 (dec_nat n) = n"
proof (induction n rule: dec_nat.induct)
  case (1 n)
  show ?case
  proof (cases "n < 10")
    case True
    then show ?thesis by (simp add: dec_nat.simps [of n])
  next
    case False
    then have "dec_value 0 (dec_nat n) = 10 * (n div 10) + n mod 10"
      using "1.IH" by (simp add: dec_nat.simps [of n] dec_value_append)
    then show ?thesis by simp
  qed
qed

lemma dec_nat_inj: "dec_nat m = dec_nat n \<longleftrightarrow> m = n"
  by (metis dec_value_dec_nat)

lemma dec_nat_first: "\<exists>d s. dec_nat n = d # s \<and> is_digit d"
  using dec_nat_digits [of n] by (cases "dec_nat n") auto

lemma minus_not_digit [simp]: "\<not> is_digit (CHR ''-'')"
  by (simp add: is_digit_def)

lemma itoa_inj [simp]: "itoa i = itoa j \<longleftrightarrow> i = j"
proof -
  have "dec_nat m \<noteq> CHR ''-'' # s" for m s
    using dec_nat_first [of m] by auto
  then show ?thesis
    by (auto simp: itoa_def dec_nat_inj eq_nat_nat_iff dest: sym)
qed

section \<open>Integers of 64 bits\<close>

text \<open>
  An \<^verbatim>\<open>int64\<close> is an \<open>int\<close> in \<open>- 2 ^ 63 ..< 2 ^ 63\<close>; \<open>wrap64\<close> is what the machine keeps of an
  arithmetic result.
\<close>

definition min_int64 :: int where "min_int64 = - 9223372036854775808"
definition max_int64 :: int where "max_int64 = 9223372036854775807"

definition is_int64 :: "int \<Rightarrow> bool" where
  "is_int64 i \<longleftrightarrow> min_int64 \<le> i \<and> i \<le> max_int64"

definition wrap64 :: "int \<Rightarrow> int" where
  "wrap64 i = (i + 9223372036854775808) mod 18446744073709551616 - 9223372036854775808"

lemmas int64_defs = min_int64_def max_int64_def is_int64_def wrap64_def

lemma wrap64_range [simp]: "is_int64 (wrap64 i)"
  by (simp add: int64_defs)

lemma wrap64_id: "is_int64 i \<Longrightarrow> wrap64 i = i"
  by (simp add: int64_defs)

lemma wrap64_mod: "wrap64 i mod 18446744073709551616 = i mod 18446744073709551616"
  by (simp add: wrap64_def mod_diff_left_eq)

lemma wrap64_cong_iff: "wrap64 i = wrap64 j \<longleftrightarrow> i mod 18446744073709551616 = j mod 18446744073709551616"
proof
  assume "wrap64 i = wrap64 j"
  then show "i mod 18446744073709551616 = j mod 18446744073709551616"
    using wrap64_mod [of i] wrap64_mod [of j] by simp
next
  assume "i mod 18446744073709551616 = j mod 18446744073709551616"
  then have "(i + 9223372036854775808) mod 18446744073709551616 = (j + 9223372036854775808) mod 18446744073709551616"
    by (rule mod_add_cong) simp
  then show "wrap64 i = wrap64 j" by (simp add: wrap64_def)
qed

text \<open>
  \<^verbatim>\<open>strconv.ParseInt(s, 10, 64)\<close>: an optional sign, then decimal digits only, in range.
\<close>

definition parse_int64 :: "string \<Rightarrow> int result" where
  "parse_int64 s =
     (let (neg, ds) = (case s of
                         c # r \<Rightarrow> if c = CHR ''-'' then (True, r) else if c = CHR ''+'' then (False, r) else (False, s)
                       | [] \<Rightarrow> (False, []));
          v = (if neg then - int (dec_value 0 ds) else int (dec_value 0 ds))
      in if ds = [] \<or> \<not> list_all is_digit ds then Inl (ErrText ''strconv.ParseInt: invalid syntax'')
         else if \<not> is_int64 v then Inl (ErrText ''strconv.ParseInt: value out of range'')
         else Inr v)"

lemma parse_int64_itoa: "is_int64 i \<Longrightarrow> parse_int64 (itoa i) = Inr i"
proof -
  assume i: "is_int64 i"
  obtain d s where ds: "dec_nat (nat i) = d # s" "is_digit d" using dec_nat_first by blast
  then have "d \<noteq> CHR ''-''" "d \<noteq> CHR ''+''" by (auto simp: is_digit_def)
  with i ds dec_nat_digits [of "nat i"] dec_nat_digits [of "nat (- i)"] show ?thesis
    using dec_value_dec_nat [of "nat i"]
    by (cases "i < 0") (auto simp: parse_int64_def itoa_def dec_value_dec_nat Let_def)
qed

section \<open>Times and durations\<close>

text \<open>
  \<^verbatim>\<open>time.Time\<close> is nanoseconds since the Unix epoch. Its range in Go (about 292 billion years each
  way) is beyond every value the program handles, so it is an unbounded \<open>int\<close>. A
  \<^verbatim>\<open>time.Duration\<close> is an \<^verbatim>\<open>int64\<close> of nanoseconds: \<^verbatim>\<open>Time.Sub\<close> saturates at its bounds, and
  negation of the least duration wraps back to itself.
\<close>

type_synonym time = int
type_synonym duration = int

definition hour :: duration where "hour = 3600000000000"
definition day :: duration where "day = 24 * hour"

definition time_add :: "time \<Rightarrow> duration \<Rightarrow> time" where
  "time_add t d = t + d"

definition time_sub :: "time \<Rightarrow> time \<Rightarrow> duration" where
  "time_sub a b = (if a - b < min_int64 then min_int64
                   else if a - b > max_int64 then max_int64 else a - b)"

definition dur_neg :: "duration \<Rightarrow> duration" where
  "dur_neg d = wrap64 (- d)"

lemmas time_defs = hour_def day_def time_add_def time_sub_def dur_neg_def

lemma time_sub_exact: "is_int64 (a - b) \<Longrightarrow> time_sub a b = a - b"
  by (simp add: time_sub_def is_int64_def)

lemma time_sub_range [simp]: "is_int64 (time_sub a b)"
  by (simp add: time_sub_def int64_defs)

text \<open>\<^verbatim>\<open>Time.Truncate(time.Microsecond)\<close>: the largest multiple of a microsecond below.\<close>

definition truncate_us :: "time \<Rightarrow> time" where
  "truncate_us t = t - t mod 1000"

lemma truncate_us_idem [simp]: "truncate_us (truncate_us t) = truncate_us t"
  by (simp add: truncate_us_def minus_mod_eq_mult_div)

lemma truncate_us_le: "truncate_us t \<le> t"
  by (simp add: truncate_us_def)

section \<open>Lists and options\<close>

text \<open>The pattern of every matching tier: a filter that must leave exactly one element.\<close>

fun only :: "'a list \<Rightarrow> 'a option" where
  "only [x] = Some x"
| "only _ = None"

lemma only_Some_iff: "only xs = Some x \<longleftrightarrow> xs = [x]"
  by (cases xs rule: only.cases) auto

lemma only_None_iff: "only xs = None \<longleftrightarrow> length xs \<noteq> 1"
  by (cases xs rule: only.cases) auto

lemma filter_singleton_unique:
  assumes "filter P xs = [x]"
  shows "P x" and "x \<in> set xs" and "y \<in> set xs \<Longrightarrow> P y \<Longrightarrow> y = x"
proof -
  have "set (filter P xs) = {x}" using assms by simp
  then show "P x" "x \<in> set xs" "y \<in> set xs \<Longrightarrow> P y \<Longrightarrow> y = x"
    by auto
qed

text \<open>Search for a contiguous sublist, \<^verbatim>\<open>strings.Contains\<close> and \<^verbatim>\<open>bytes.Contains\<close>.\<close>

fun contains :: "string \<Rightarrow> string \<Rightarrow> bool" where
  "contains [] sub = (sub = [])"
| "contains (c # s) sub = (prefix sub (c # s) \<or> contains s sub)"

lemma contains_iff: "contains s sub \<longleftrightarrow> (\<exists>a b. s = a @ sub @ b)"
proof (induction s)
  case Nil
  then show ?case by auto
next
  case (Cons c s)
  have "(\<exists>a b. c # s = a @ sub @ b) \<longleftrightarrow> prefix sub (c # s) \<or> (\<exists>a b. s = a @ sub @ b)"
    (is "?l \<longleftrightarrow> ?r")
  proof
    assume ?l
    then obtain a b where ab: "c # s = a @ sub @ b" by blast
    then show ?r by (cases a) (auto simp: prefix_def)
  next
    assume ?r
    then show ?l
    proof
      assume "prefix sub (c # s)"
      then obtain b where "c # s = [] @ sub @ b" by (auto simp: prefix_def)
      then show ?l by blast
    next
      assume "\<exists>a b. s = a @ sub @ b"
      then obtain a b where "c # s = (c # a) @ sub @ b" by auto
      then show ?l by blast
    qed
  qed
  with Cons show ?case by simp
qed

lemma contains_sublist: "contains s sub \<longleftrightarrow> sublist sub s"
  by (simp add: contains_iff sublist_def)

lemma contains_append: "contains s sub \<Longrightarrow> contains (a @ s @ b) sub"
  by (metis append.assoc contains_iff)

text \<open>\<^verbatim>\<open>strings.HasSuffix\<close> is the library's \<open>suffix\<close>, \<^verbatim>\<open>strings.HasPrefix\<close> its \<open>prefix\<close>.\<close>

lemma map_of_filter_fst: "P k \<Longrightarrow> map_of (filter (P \<circ> fst) xs) k = map_of xs k"
  by (induction xs) auto

section \<open>The text of an error\<close>

fun err_text :: "go_error \<Rightarrow> string" where
  "err_text (ErrText s) = s"
| "err_text (ErrWrap p e q) = p @ err_text e @ q"
| "err_text ErrDuplicate = ''duplicate ingest record''"
| "err_text ErrAppendOnly = ''append-only table cannot be updated or deleted''"
| "err_text ErrExceptionNotFound = ''exception not found''"
| "err_text ErrInvalidSignature = ''invalid webhook signature''"
| "err_text ErrPossiblePANDetected = ''possible card number detected''"
| "err_text ErrUnsupportedSource = ''unsupported source''"
| "err_text ErrLockHeld = ''matching window lock is held by another run''"
| "err_text ErrBudgetExceeded = ''ai: batch budget exceeded, explanation skipped''"
| "err_text ErrCircuitOpen = ''ai: circuit breaker open, explanation skipped''"
| "err_text (MySQLError n s) = ''Error '' @ dec_nat n @ '': '' @ s"

end
