(* ===== verification/Go_Text.thy ===== *)
theory Go_Text
  imports Go_Prelude
begin

text \<open>
  Go strings and byte slices. A string is a list of bytes (\<open>char\<close> is an 8-bit character), a rune is
  a Unicode code point (\<open>nat\<close>). Ranging over a string decodes UTF-8 and yields byte offsets, an
  invalid byte yielding U+FFFD of width one; \<^verbatim>\<open>strings.ToLower\<close> maps the decoded runes with the
  simple lower-case mapping of the Unicode tables. Also here: \<^verbatim>\<open>unicode.IsSpace\<close>,
  \<^verbatim>\<open>strings.TrimSpace\<close>, \<^verbatim>\<open>strings.ReplaceAll\<close> of one byte by nothing, and hexadecimal encoding.
\<close>

type_synonym rune = nat

definition rune_error :: rune where "rune_error = 65533"

abbreviation byte_of :: "char \<Rightarrow> nat" where "byte_of c \<equiv> of_char c"

section \<open>UTF-8\<close>

definition in_range :: "nat \<Rightarrow> nat \<Rightarrow> nat \<Rightarrow> bool" where
  "in_range lo hi b \<longleftrightarrow> lo \<le> b \<and> b \<le> hi"

text \<open>The second byte's accepted range depends on the first (no overlong forms, no surrogates).\<close>

definition second_range :: "nat \<Rightarrow> nat \<times> nat" where
  "second_range b0 =
     (if b0 = 224 then (160, 191) else if b0 = 237 then (128, 159)
      else if b0 = 240 then (144, 191) else if b0 = 244 then (128, 143) else (128, 191))"

text \<open>\<^verbatim>\<open>utf8.DecodeRune\<close>: the rune and its width in bytes.\<close>

definition decode_rune :: "nat list \<Rightarrow> rune \<times> nat" where
  "decode_rune bs =
     (case bs of
        [] \<Rightarrow> (rune_error, 0)
      | b0 # r1 \<Rightarrow>
          if b0 < 128 then (b0, 1)
          else if in_range 194 223 b0 then
            (case r1 of
               b1 # _ \<Rightarrow> if in_range 128 191 b1 then ((b0 - 192) * 64 + (b1 - 128), 2)
                         else (rune_error, 1)
             | [] \<Rightarrow> (rune_error, 1))
          else if in_range 224 239 b0 then
            (case r1 of
               b1 # b2 # _ \<Rightarrow>
                 if in_range (fst (second_range b0)) (snd (second_range b0)) b1 \<and> in_range 128 191 b2
                 then ((b0 - 224) * 4096 + (b1 - 128) * 64 + (b2 - 128), 3)
                 else (rune_error, 1)
             | _ \<Rightarrow> (rune_error, 1))
          else if in_range 240 244 b0 then
            (case r1 of
               b1 # b2 # b3 # _ \<Rightarrow>
                 if in_range (fst (second_range b0)) (snd (second_range b0)) b1
                    \<and> in_range 128 191 b2 \<and> in_range 128 191 b3
                 then ((b0 - 240) * 262144 + (b1 - 128) * 4096 + (b2 - 128) * 64 + (b3 - 128), 4)
                 else (rune_error, 1)
             | _ \<Rightarrow> (rune_error, 1))
          else (rune_error, 1))"

lemma decode_rune_width:
  "bs \<noteq> [] \<Longrightarrow> 1 \<le> snd (decode_rune bs) \<and> snd (decode_rune bs) \<le> length bs"
  by (auto simp: decode_rune_def split: list.splits)

lemma decode_rune_ascii: "b < 128 \<Longrightarrow> decode_rune (b # bs) = (b, 1)"
  by (simp add: decode_rune_def)

text \<open>\<^verbatim>\<open>for i, r := range s\<close>: the byte offset and the rune of every step.\<close>

function range_from :: "nat \<Rightarrow> nat list \<Rightarrow> (nat \<times> rune) list" where
  "range_from off bs =
     (if bs = [] then []
      else (let (r, w) = decode_rune bs in (off, r) # range_from (off + w) (drop w bs)))"
  by pat_completeness auto
termination
proof (relation "measure (\<lambda>(off, bs). length bs)", goal_cases)
  case (2 off bs p r w)
  then show ?case
    using decode_rune_width [of bs] by (metis diff_less in_measure length_drop
        length_greater_0_conv less_le_trans order.strict_trans1 prod.case snd_conv zero_less_one)
qed simp

declare range_from.simps [simp del]

definition go_range :: "string \<Rightarrow> (nat \<times> rune) list" where
  "go_range s = range_from 0 (map of_char s)"

definition is_ascii :: "string \<Rightarrow> bool" where
  "is_ascii s \<longleftrightarrow> list_all (\<lambda>c. byte_of c < 128) s"

lemma range_from_Nil [simp]: "range_from off [] = []"
  by (simp add: range_from.simps)

lemma range_from_ascii_Cons:
  "b < 128 \<Longrightarrow> range_from off (b # bs) = (off, b) # range_from (Suc off) bs"
  by (subst range_from.simps) (simp add: decode_rune_ascii)

lemma range_from_ascii:
  "list_all (\<lambda>b. b < 128) bs \<Longrightarrow> range_from off bs = zip [off ..< off + length bs] bs"
proof (induction bs arbitrary: off)
  case Nil
  then show ?case by simp
next
  case (Cons b bs)
  then show ?case
    by (simp add: range_from_ascii_Cons upt_conv_Cons del: upt_Suc)
qed

lemma go_range_ascii:
  "is_ascii s \<Longrightarrow> go_range s = zip [0 ..< length s] (map of_char s)"
  by (simp add: go_range_def is_ascii_def range_from_ascii list_all_length)

text \<open>\<^verbatim>\<open>utf8.AppendRune\<close>.\<close>

definition encode_rune :: "rune \<Rightarrow> string" where
  "encode_rune r =
     map char_of
      (if r < 128 then [r]
       else if r < 2048 then [192 + r div 64, 128 + r mod 64]
       else if 1114111 < r \<or> in_range 55296 57343 r then [239, 191, 189]
       else if r < 65536 then [224 + r div 4096, 128 + r div 64 mod 64, 128 + r mod 64]
       else [240 + r div 262144, 128 + r div 4096 mod 64, 128 + r div 64 mod 64, 128 + r mod 64])"

text \<open>\<^verbatim>\<open>utf8.DecodeLastRune\<close>: at most four bytes back to the start of a rune.\<close>

definition rune_start :: "nat \<Rightarrow> bool" where
  "rune_start b \<longleftrightarrow> \<not> in_range 128 191 b"

definition decode_last_rune :: "nat list \<Rightarrow> rune \<times> nat" where
  "decode_last_rune bs =
     (let n = length bs in
      if n = 0 then (rune_error, 0)
      else if last bs < 128 then (last bs, 1)
      else (case filter (\<lambda>k. k \<le> n \<and> rune_start (bs ! (n - k))) [2, 3, 4] of
              [] \<Rightarrow> (rune_error, 1)
            | k # _ \<Rightarrow> (let (r, w) = decode_rune (drop (n - k) bs) in
                        if w = k then (r, w) else (rune_error, 1))))"

section \<open>Case and white space\<close>

text \<open>
  The upper-case runes from U+0080 on as ranges \<open>(lo, hi, stride, delta)\<close>: every \<open>stride\<close>-th rune
  of the range has the simple lower-case mapping \<open>rune + delta\<close>.
\<close>

definition lower_ranges :: "(nat \<times> nat \<times> nat \<times> int) list" where
  "lower_ranges =
   [
    (192, 214, 1, 32), (216, 222, 1, 32), (256, 302, 2, 1), (304, 304, 1, - 199),
    (306, 310, 2, 1), (313, 327, 2, 1), (330, 374, 2, 1), (376, 376, 1, - 121),
    (377, 381, 2, 1), (385, 385, 1, 210), (386, 388, 2, 1), (390, 390, 1, 206),
    (391, 391, 1, 1), (393, 394, 1, 205), (395, 395, 1, 1), (398, 398, 1, 79),
    (399, 399, 1, 202), (400, 400, 1, 203), (401, 401, 1, 1), (403, 403, 1, 205),
    (404, 404, 1, 207), (406, 406, 1, 211), (407, 407, 1, 209), (408, 408, 1, 1),
    (412, 412, 1, 211), (413, 413, 1, 213), (415, 415, 1, 214), (416, 420, 2, 1),
    (422, 422, 1, 218), (423, 423, 1, 1), (425, 425, 1, 218), (428, 428, 1, 1),
    (430, 430, 1, 218), (431, 431, 1, 1), (433, 434, 1, 217), (435, 437, 2, 1),
    (439, 439, 1, 219), (440, 440, 1, 1), (444, 444, 1, 1), (452, 452, 1, 2), (453, 453, 1, 1),
    (455, 455, 1, 2), (456, 456, 1, 1), (458, 458, 1, 2), (459, 475, 2, 1), (478, 494, 2, 1),
    (497, 497, 1, 2), (498, 500, 2, 1), (502, 502, 1, - 97), (503, 503, 1, - 56),
    (504, 542, 2, 1), (544, 544, 1, - 130), (546, 562, 2, 1), (570, 570, 1, 10795),
    (571, 571, 1, 1), (573, 573, 1, - 163), (574, 574, 1, 10792), (577, 577, 1, 1),
    (579, 579, 1, - 195), (580, 580, 1, 69), (581, 581, 1, 71), (582, 590, 2, 1),
    (880, 882, 2, 1), (886, 886, 1, 1), (895, 895, 1, 116), (902, 902, 1, 38),
    (904, 906, 1, 37), (908, 908, 1, 64), (910, 911, 1, 63), (913, 929, 1, 32),
    (931, 939, 1, 32), (975, 975, 1, 8), (984, 1006, 2, 1), (1012, 1012, 1, - 60),
    (1015, 1015, 1, 1), (1017, 1017, 1, - 7), (1018, 1018, 1, 1), (1021, 1023, 1, - 130),
    (1024, 1039, 1, 80), (1040, 1071, 1, 32), (1120, 1152, 2, 1), (1162, 1214, 2, 1),
    (1216, 1216, 1, 15), (1217, 1229, 2, 1), (1232, 1326, 2, 1), (1329, 1366, 1, 48),
    (4256, 4293, 1, 7264), (4295, 4295, 1, 7264), (4301, 4301, 1, 7264),
    (5024, 5103, 1, 38864), (5104, 5109, 1, 8), (7312, 7354, 1, - 3008),
    (7357, 7359, 1, - 3008), (7680, 7828, 2, 1), (7838, 7838, 1, - 7615), (7840, 7934, 2, 1),
    (7944, 7951, 1, - 8), (7960, 7965, 1, - 8), (7976, 7983, 1, - 8), (7992, 7999, 1, - 8),
    (8008, 8013, 1, - 8), (8025, 8031, 2, - 8), (8040, 8047, 1, - 8), (8072, 8079, 1, - 8),
    (8088, 8095, 1, - 8), (8104, 8111, 1, - 8), (8120, 8121, 1, - 8), (8122, 8123, 1, - 74),
    (8124, 8124, 1, - 9), (8136, 8139, 1, - 86), (8140, 8140, 1, - 9), (8152, 8153, 1, - 8),
    (8154, 8155, 1, - 100), (8168, 8169, 1, - 8), (8170, 8171, 1, - 112), (8172, 8172, 1, - 7),
    (8184, 8185, 1, - 128), (8186, 8187, 1, - 126), (8188, 8188, 1, - 9),
    (8486, 8486, 1, - 7517), (8490, 8490, 1, - 8383), (8491, 8491, 1, - 8262),
    (8498, 8498, 1, 28), (8544, 8559, 1, 16), (8579, 8579, 1, 1), (9398, 9423, 1, 26),
    (11264, 11311, 1, 48), (11360, 11360, 1, 1), (11362, 11362, 1, - 10743),
    (11363, 11363, 1, - 3814), (11364, 11364, 1, - 10727), (11367, 11371, 2, 1),
    (11373, 11373, 1, - 10780), (11374, 11374, 1, - 10749), (11375, 11375, 1, - 10783),
    (11376, 11376, 1, - 10782), (11378, 11378, 1, 1), (11381, 11381, 1, 1),
    (11390, 11391, 1, - 10815), (11392, 11490, 2, 1), (11499, 11501, 2, 1),
    (11506, 11506, 1, 1), (42560, 42604, 2, 1), (42624, 42650, 2, 1), (42786, 42798, 2, 1),
    (42802, 42862, 2, 1), (42873, 42875, 2, 1), (42877, 42877, 1, - 35332),
    (42878, 42886, 2, 1), (42891, 42891, 1, 1), (42893, 42893, 1, - 42280),
    (42896, 42898, 2, 1), (42902, 42920, 2, 1), (42922, 42922, 1, - 42308),
    (42923, 42923, 1, - 42319), (42924, 42924, 1, - 42315), (42925, 42925, 1, - 42305),
    (42926, 42926, 1, - 42308), (42928, 42928, 1, - 42258), (42929, 42929, 1, - 42282),
    (42930, 42930, 1, - 42261), (42931, 42931, 1, 928), (42932, 42946, 2, 1),
    (42948, 42948, 1, - 48), (42949, 42949, 1, - 42307), (42950, 42950, 1, - 35384),
    (42951, 42953, 2, 1), (42960, 42960, 1, 1), (42966, 42968, 2, 1), (42997, 42997, 1, 1),
    (65313, 65338, 1, 32), (66560, 66599, 1, 40), (66736, 66771, 1, 40), (66928, 66938, 1, 39),
    (66940, 66954, 1, 39), (66956, 66962, 1, 39), (66964, 66965, 1, 39), (68736, 68786, 1, 64),
    (71840, 71871, 1, 32), (93760, 93791, 1, 32), (125184, 125217, 1, 34)]"

text \<open>\<^verbatim>\<open>unicode.ToLower\<close>.\<close>

definition unicode_lower :: "rune \<Rightarrow> rune" where
  "unicode_lower r =
     (if r < 128 then (if in_range 65 90 r then r + 32 else r)
      else (case find (\<lambda>(lo, hi, st, d). in_range lo hi r \<and> (r - lo) mod st = 0) lower_ranges of
              None \<Rightarrow> r
            | Some (lo, hi, st, d) \<Rightarrow> nat (int r + d)))"

lemma unicode_lower_ascii: "r < 128 \<Longrightarrow> unicode_lower r = (if in_range 65 90 r then r + 32 else r)"
  by (simp add: unicode_lower_def)

definition lower_char :: "char \<Rightarrow> char" where
  "lower_char c = (if in_range 65 90 (of_char c) then char_of (byte_of c + 32) else c)"

text \<open>\<^verbatim>\<open>strings.ToLower\<close>: bytewise on ASCII strings, otherwise rune by rune, re-encoded.\<close>

definition to_lower :: "string \<Rightarrow> string" where
  "to_lower s =
     (if is_ascii s then map lower_char s
      else concat (map (\<lambda>(i, r). encode_rune (unicode_lower r)) (go_range s)))"

text \<open>\<^verbatim>\<open>unicode.IsSpace\<close>.\<close>

definition unicode_is_space :: "rune \<Rightarrow> bool" where
  "unicode_is_space r \<longleftrightarrow>
     in_range 9 13 r \<or> r = 32 \<or> r = 133 \<or> r = 160 \<or> r = 5760 \<or> in_range 8192 8202 r
     \<or> r = 8232 \<or> r = 8233 \<or> r = 8239 \<or> r = 8287 \<or> r = 12288"

text \<open>\<^verbatim>\<open>TrimLeftFunc\<close>, \<^verbatim>\<open>TrimRightFunc\<close> and \<^verbatim>\<open>TrimSpace\<close> with \<^verbatim>\<open>unicode.IsSpace\<close>.\<close>

function trim_left :: "string \<Rightarrow> string" where
  "trim_left s =
     (if s \<noteq> [] \<and> unicode_is_space (fst (decode_rune (map of_char s)))
      then trim_left (drop (snd (decode_rune (map of_char s))) s) else s)"
  by pat_completeness auto
termination
proof (relation "measure length", goal_cases)
  case (2 s)
  then have "map byte_of s \<noteq> []" by simp
  from decode_rune_width [OF this] 2 show ?case
    by (auto simp: in_measure)
qed simp

declare trim_left.simps [simp del]

lemma decode_last_rune_width:
  assumes "bs \<noteq> []"
  shows "1 \<le> snd (decode_last_rune bs)"
proof -
  have "1 \<le> k" if "filter P [2, 3, 4] = (k :: nat) # ks" for P k ks
    using that by (auto split: if_splits)
  then show ?thesis
    using assms by (auto simp: decode_last_rune_def Let_def split: list.splits prod.splits)
qed

function trim_right :: "string \<Rightarrow> string" where
  "trim_right s =
     (if s \<noteq> [] \<and> unicode_is_space (fst (decode_last_rune (map of_char s)))
      then trim_right (take (length s - snd (decode_last_rune (map of_char s))) s) else s)"
  by pat_completeness auto
termination
proof (relation "measure length", goal_cases)
  case (2 s)
  then have "map byte_of s \<noteq> []" by simp
  from decode_last_rune_width [OF this] 2 show ?case
    by (auto simp: in_measure)
qed simp

declare trim_right.simps [simp del]

definition trim_space :: "string \<Rightarrow> string" where
  "trim_space s = trim_right (trim_left s)"

lemma trim_left_suffix: "suffix (trim_left s) s"
proof (induction s rule: trim_left.induct)
  case (1 s)
  then show ?case
    by (subst trim_left.simps) (auto intro: suffix_order.order_trans suffix_drop)
qed

lemma trim_right_prefix: "prefix (trim_right s) s"
proof (induction s rule: trim_right.induct)
  case (1 s)
  then show ?case
    by (subst trim_right.simps) (auto intro: prefix_order.order_trans take_is_prefix)
qed

lemma trim_space_sublist: "sublist (trim_space s) s"
  unfolding trim_space_def
  by (meson prefix_imp_sublist sublist_order.order_trans suffix_imp_sublist
      trim_left_suffix trim_right_prefix)

lemma trim_space_Nil [simp]: "trim_space [] = []"
  by (simp add: trim_space_def trim_left.simps trim_right.simps)

lemma trim_left_ascii:
  "byte_of c < 128 \<Longrightarrow> trim_left (c # s) = (if unicode_is_space (byte_of c) then trim_left s else c # s)"
  by (subst trim_left.simps) (simp add: decode_rune_ascii)

lemma decode_last_rune_ascii: "b < 128 \<Longrightarrow> decode_last_rune (bs @ [b]) = (b, 1)"
  by (simp add: decode_last_rune_def)

lemma trim_right_ascii:
  "byte_of c < 128 \<Longrightarrow> trim_right (s @ [c]) = (if unicode_is_space (byte_of c) then trim_right s else s @ [c])"
  by (subst trim_right.simps) (simp add: decode_last_rune_ascii)

text \<open>Nothing is trimmed from a text with ASCII non-space characters at both ends.\<close>

lemma trim_space_solid:
  assumes "s \<noteq> []" and "byte_of (hd s) < 128" "\<not> unicode_is_space (byte_of (hd s))"
    and "byte_of (last s) < 128" "\<not> unicode_is_space (byte_of (last s))"
  shows "trim_space s = s"
proof -
  have "trim_left s = s"
    using assms(1-3) by (cases s) (simp_all add: trim_left_ascii)
  moreover have "trim_right s = s"
    using assms(1,4,5) by (cases s rule: rev_cases) (simp_all add: trim_right_ascii)
  ultimately show ?thesis by (simp add: trim_space_def)
qed

lemma is_ascii_Nil [simp]: "is_ascii []"
  by (simp add: is_ascii_def)

lemma is_ascii_Cons [simp]: "is_ascii (c # s) \<longleftrightarrow> byte_of c < 128 \<and> is_ascii s"
  by (simp add: is_ascii_def)

lemma is_ascii_append [simp]: "is_ascii (s @ t) \<longleftrightarrow> is_ascii s \<and> is_ascii t"
  by (simp add: is_ascii_def)

lemma lower_char_ascii: "byte_of c < 128 \<Longrightarrow> byte_of (lower_char c) < 128"
  by (auto simp: lower_char_def in_range_def of_char_of)

lemma to_lower_ascii: "is_ascii s \<Longrightarrow> to_lower s = map lower_char s \<and> is_ascii (to_lower s)"
  by (auto simp: to_lower_def is_ascii_def list_all_iff lower_char_ascii)

lemma lower_char_idem [simp]: "lower_char (lower_char c) = lower_char c"
  by (auto simp: lower_char_def in_range_def of_char_of)

text \<open>Removing every occurrence of a byte: \<^verbatim>\<open>ReplaceAll(s, c, "")\<close>.\<close>

definition remove_byte :: "char \<Rightarrow> string \<Rightarrow> string" where
  "remove_byte c s = filter (\<lambda>x. x \<noteq> c) s"

lemma lower_char_upper:
  "lower_char CHR ''A'' = CHR ''a''"
  "lower_char CHR ''B'' = CHR ''b''"
  "lower_char CHR ''C'' = CHR ''c''"
  "lower_char CHR ''D'' = CHR ''d''"
  "lower_char CHR ''E'' = CHR ''e''"
  "lower_char CHR ''F'' = CHR ''f''"
  "lower_char CHR ''G'' = CHR ''g''"
  "lower_char CHR ''H'' = CHR ''h''"
  "lower_char CHR ''I'' = CHR ''i''"
  "lower_char CHR ''J'' = CHR ''j''"
  "lower_char CHR ''K'' = CHR ''k''"
  "lower_char CHR ''L'' = CHR ''l''"
  "lower_char CHR ''M'' = CHR ''m''"
  "lower_char CHR ''N'' = CHR ''n''"
  "lower_char CHR ''O'' = CHR ''o''"
  "lower_char CHR ''P'' = CHR ''p''"
  "lower_char CHR ''Q'' = CHR ''q''"
  "lower_char CHR ''R'' = CHR ''r''"
  "lower_char CHR ''S'' = CHR ''s''"
  "lower_char CHR ''T'' = CHR ''t''"
  "lower_char CHR ''U'' = CHR ''u''"
  "lower_char CHR ''V'' = CHR ''v''"
  "lower_char CHR ''W'' = CHR ''w''"
  "lower_char CHR ''X'' = CHR ''x''"
  "lower_char CHR ''Y'' = CHR ''y''"
  "lower_char CHR ''Z'' = CHR ''z''"
  by (simp_all add: lower_char_def in_range_def char_of_def bit_Suc_0_iff)

lemma lower_char_other: "\<not> in_range 65 90 (byte_of c) \<Longrightarrow> lower_char c = c"
  by (simp add: lower_char_def)

text \<open>Evaluation of \<^verbatim>\<open>ToLower(TrimSpace(s))\<close> on a literal ASCII text.\<close>

lemmas ascii_eval = trim_space_solid unicode_is_space_def in_range_def to_lower_def lower_char_upper
  lower_char_other remove_byte_def

lemma to_lower_idem_ascii: "is_ascii s \<Longrightarrow> to_lower (to_lower s) = to_lower s"
  by (simp add: to_lower_ascii to_lower_def comp_def) (simp add: is_ascii_def list_all_iff lower_char_ascii)

section \<open>Hexadecimal\<close>

definition hex_digit :: "nat \<Rightarrow> char" where
  "hex_digit d = (if d < 10 then char_of (48 + d) else char_of (87 + d))"

text \<open>\<^verbatim>\<open>hex.EncodeToString\<close> and \<^verbatim>\<open>%x\<close> of a byte slice.\<close>

definition hex_encode :: "nat list \<Rightarrow> string" where
  "hex_encode bs = concat (map (\<lambda>b. [hex_digit (b div 16), hex_digit (b mod 16)]) bs)"

definition is_hex :: "char \<Rightarrow> bool" where
  "is_hex c \<longleftrightarrow> in_range 48 57 (of_char c) \<or> in_range 97 102 (of_char c)"

lemma is_hex_hex_digit: "d < 16 \<Longrightarrow> is_hex (hex_digit d)"
  by (auto simp: is_hex_def hex_digit_def in_range_def of_char_of)

lemma hex_digit_inj: "d < 16 \<Longrightarrow> e < 16 \<Longrightarrow> hex_digit d = hex_digit e \<longleftrightarrow> d = e"
  by (auto simp: hex_digit_def char_of_eq_iff take_bit_eq_mod split: if_splits)

lemma length_hex_encode [simp]: "length (hex_encode bs) = 2 * length bs"
  by (induction bs) (auto simp: hex_encode_def)

lemma hex_encode_chars: "list_all (\<lambda>b. b < 256) bs \<Longrightarrow> list_all is_hex (hex_encode bs)"
  by (induction bs) (auto simp: hex_encode_def is_hex_hex_digit)

lemma hex_encode_inj:
  "list_all (\<lambda>b. b < 256) bs \<Longrightarrow> list_all (\<lambda>b. b < 256) cs \<Longrightarrow>
   hex_encode bs = hex_encode cs \<Longrightarrow> bs = cs"
proof (induction bs arbitrary: cs)
  case Nil
  then show ?case by (cases cs) (auto simp: hex_encode_def)
next
  case (Cons b bs)
  then obtain c cs' where cs: "cs = c # cs'"
    by (cases cs) (auto simp: hex_encode_def)
  with Cons.prems have lt: "b div 16 < 16" "c div 16 < 16"
    and eq: "hex_digit (b div 16) = hex_digit (c div 16)" "hex_digit (b mod 16) = hex_digit (c mod 16)"
    and rest: "hex_encode bs = hex_encode cs'"
    by (auto simp: hex_encode_def)
  have "b div 16 = c div 16" "b mod 16 = c mod 16"
    using eq lt by (auto simp: hex_digit_inj)
  then have "b = c" by (metis div_mult_mod_eq)
  with rest Cons cs show ?case by auto
qed

end
