(* ===== verification/Go_Json.thy ===== *)
theory Go_Json
  imports Go_Text
begin

text \<open>
  The part of \<^verbatim>\<open>encoding/json\<close> the program uses: values, \<^verbatim>\<open>json.Marshal\<close> (object keys sorted, strings
  escaped as Go does, HTML characters included) and \<^verbatim>\<open>json.Unmarshal\<close> into an \<^verbatim>\<open>any\<close>.

  A float64 is carried as the text \<^verbatim>\<open>json.Marshal\<close> prints for it (\<open>JNum\<close>). Decoding turns a number
  literal into that text through the parameter \<open>ft\<close> (\<^verbatim>\<open>strconv.ParseFloat\<close> followed by the shortest
  rendering; \<open>None\<close> is the range error), so every theorem holds for any such conversion.
\<close>

section \<open>Values and encoding\<close>

datatype json =
    JNull
  | JBool bool
  | JInt int           \<comment> \<open>a Go integer\<close>
  | JNum string        \<comment> \<open>a float64, as the text it is printed with\<close>
  | JStr string
  | JArr "json list"
  | JObj "(string \<times> json) list"   \<comment> \<open>a map with string keys\<close>
  | JStruct "(string \<times> json) list"   \<comment> \<open>a struct, in the order of its fields\<close>
  | JUnsupported       \<comment> \<open>a Go value \<^verbatim>\<open>json.Marshal\<close> rejects (channel, function, NaN)\<close>

definition unicode_escape :: "nat \<Rightarrow> string" where
  "unicode_escape r =
     [CHR 0x5C, CHR ''u'', hex_digit (r div 4096 mod 16), hex_digit (r div 256 mod 16),
      hex_digit (r div 16 mod 16), hex_digit (r mod 16)]"

definition escape_ascii :: "nat \<Rightarrow> string" where
  "escape_ascii b =
     (if b = 34 then [CHR 0x5C, CHR 0x22] else if b = 92 then [CHR 0x5C, CHR 0x5C]
      else if b = 8 then [CHR 0x5C, CHR ''b''] else if b = 12 then [CHR 0x5C, CHR ''f'']
      else if b = 10 then [CHR 0x5C, CHR ''n''] else if b = 13 then [CHR 0x5C, CHR ''r'']
      else if b = 9 then [CHR 0x5C, CHR ''t'']
      else if b < 32 \<or> b = 60 \<or> b = 62 \<or> b = 38 then unicode_escape b
      else [char_of b])"

text \<open>The body of a JSON string: an invalid byte becomes the six characters of U+FFFD's escape.\<close>

function json_escape :: "nat list \<Rightarrow> string" where
  "json_escape bs =
     (if bs = [] then []
      else (let (r, w) = decode_rune bs in
            (if r < 128 then escape_ascii r
             else if r = rune_error \<and> w = 1 then unicode_escape 65533
             else if r = 8232 \<or> r = 8233 then unicode_escape r
             else map char_of (take w bs)) @ json_escape (drop w bs)))"
  by pat_completeness auto
termination
proof (relation "measure length", goal_cases)
  case (2 bs p r w)
  then have "1 \<le> w" "bs \<noteq> []"
    using decode_rune_width [of bs] by (metis snd_conv)+
  then show ?case by simp
qed simp

declare json_escape.simps [simp del]

definition json_string :: "string \<Rightarrow> string" where
  "json_string s = CHR 0x22 # json_escape (map of_char s) @ [CHR 0x22]"

text \<open>Comma-separated rendering inside brackets.\<close>

fun commas :: "string list \<Rightarrow> string" where
  "commas [] = []"
| "commas [x] = x"
| "commas (x # xs) = x @ CHR '','' # commas xs"

text \<open>\<^verbatim>\<open>json.Marshal\<close>; maps are printed in the order of their keys.\<close>

fun json_supported :: "json \<Rightarrow> bool" where
  "json_supported (JArr vs) = list_all json_supported vs"
| "json_supported (JObj kvs) = list_all (\<lambda>(k, v). json_supported v) kvs"
| "json_supported (JStruct kvs) = list_all (\<lambda>(k, v). json_supported v) kvs"
| "json_supported JUnsupported = False"
| "json_supported _ = True"

fun json_text :: "json \<Rightarrow> string" where
  "json_text JNull = ''null''"
| "json_text (JBool b) = (if b then ''true'' else ''false'')"
| "json_text (JInt i) = itoa i"
| "json_text (JNum t) = t"
| "json_text (JStr s) = json_string s"
| "json_text (JArr vs) = CHR ''['' # commas (map json_text vs) @ '']''"
| "json_text (JObj kvs) =
     CHR ''{'' # commas (map snd (sort_key fst
        (map (\<lambda>(k, v). (k, json_string k @ CHR '':'' # json_text v)) kvs))) @ ''}''"
| "json_text (JStruct kvs) =
     CHR ''{'' # commas (map (\<lambda>(k, v). json_string k @ CHR '':'' # json_text v) kvs) @ ''}''"
| "json_text JUnsupported = []"

definition json_marshal :: "json \<Rightarrow> string result" where
  "json_marshal v = (if json_supported v then Inr (json_text v)
                     else Inl (ErrText ''json: unsupported type''))"

section \<open>Decoding\<close>

definition is_json_space :: "char \<Rightarrow> bool" where
  "is_json_space c \<longleftrightarrow> byte_of c \<in> {32, 9, 10, 13}"

definition skip_ws :: "string \<Rightarrow> string" where
  "skip_ws s = dropWhile is_json_space s"

lemma length_skip_ws: "length (skip_ws s) \<le> length s"
  by (simp add: skip_ws_def length_dropWhile_le)

text \<open>The longest run of digits, and the rest.\<close>

definition span_digits :: "string \<Rightarrow> string \<times> string" where
  "span_digits s = (takeWhile is_digit s, dropWhile is_digit s)"

text \<open>A number literal at the head of the input: sign, integer part without leading zeros,
  optional fraction, optional exponent.\<close>

definition scan_int :: "string \<Rightarrow> (string \<times> string) option" where
  "scan_int s =
     (let (ds, r) = span_digits s in
      if ds = [] then None
      else if hd ds = CHR ''0'' then Some ([CHR ''0''], tl s) else Some (ds, r))"

definition scan_frac :: "string \<Rightarrow> (string \<times> string) option" where
  "scan_frac s =
     (case s of
        c # r \<Rightarrow> if c = CHR ''.''
                 then (let (ds, r') = span_digits r in
                       if ds = [] then None else Some (c # ds, r'))
                 else Some ([], s)
      | [] \<Rightarrow> Some ([], []))"

definition scan_exp :: "string \<Rightarrow> (string \<times> string) option" where
  "scan_exp s =
     (case s of
        c # r \<Rightarrow> if c = CHR ''e'' \<or> c = CHR ''E''
                 then (let (sg, r1) = (case r of x # r' \<Rightarrow> if x = CHR ''+'' \<or> x = CHR ''-''
                                                          then ([x], r') else ([], r)
                                       | [] \<Rightarrow> ([], []));
                           (ds, r2) = span_digits r1
                       in if ds = [] then None else Some (c # sg @ ds, r2))
                 else Some ([], s)
      | [] \<Rightarrow> Some ([], []))"

definition scan_number :: "string \<Rightarrow> (string \<times> string) option" where
  "scan_number s =
     (let (sg, r0) = (case s of c # r \<Rightarrow> if c = CHR ''-'' then ([c], r) else ([], s)
                      | [] \<Rightarrow> ([], []))
      in case scan_int r0 of
           None \<Rightarrow> None
         | Some (i, r1) \<Rightarrow>
             (case scan_frac r1 of
                None \<Rightarrow> None
              | Some (f, r2) \<Rightarrow>
                  (case scan_exp r2 of
                     None \<Rightarrow> None
                   | Some (e, r3) \<Rightarrow> Some (sg @ i @ f @ e, r3))))"

definition hex_value :: "char \<Rightarrow> nat option" where
  "hex_value c =
     (let b = byte_of c in
      if in_range 48 57 b then Some (b - 48) else if in_range 97 102 b then Some (b - 87)
      else if in_range 65 70 b then Some (b - 55) else None)"

fun hex4 :: "string \<Rightarrow> (nat \<times> string) option" where
  "hex4 (a # b # c # d # r) =
     (case (hex_value a, hex_value b, hex_value c, hex_value d) of
        (Some w, Some x, Some y, Some z) \<Rightarrow> Some (w * 4096 + x * 256 + y * 16 + z, r)
      | _ \<Rightarrow> None)"
| "hex4 _ = None"

lemma hex4_length: "hex4 s = Some (n, r) \<Longrightarrow> length r < length s"
  by (cases s rule: hex4.cases) (auto split: option.splits)

definition simple_escape :: "char \<Rightarrow> char option" where
  "simple_escape c =
     (if c = CHR 0x22 \<or> c = CHR 0x5C \<or> c = CHR ''/'' then Some c
      else if c = CHR ''b'' then Some (CHR 0x08) else if c = CHR ''f'' then Some (CHR 0x0C)
      else if c = CHR ''n'' then Some (CHR 0x0A) else if c = CHR ''r'' then Some (CHR 0x0D)
      else if c = CHR ''t'' then Some (CHR 0x09) else None)"

text \<open>A \<^verbatim>\<open>\u\<close> escape: a surrogate pair is one rune, a lone surrogate is U+FFFD.\<close>

definition u_escape :: "string \<Rightarrow> (string \<times> string) option" where
  "u_escape s =
     (case hex4 s of
        None \<Rightarrow> None
      | Some (r, rest) \<Rightarrow>
          if in_range 55296 57343 r then
            (case rest of
               b # u # rest' \<Rightarrow>
                 (case (if b = CHR 0x5C \<and> u = CHR ''u'' then hex4 rest' else None) of
                    Some (r2, rest'') \<Rightarrow>
                      if in_range 55296 56319 r \<and> in_range 56320 57343 r2
                      then Some (encode_rune ((r - 55296) * 1024 + (r2 - 56320) + 65536), rest'')
                      else Some (encode_rune rune_error, rest)
                  | None \<Rightarrow> Some (encode_rune rune_error, rest))
             | _ \<Rightarrow> Some (encode_rune rune_error, rest))
          else Some (encode_rune r, rest))"

text \<open>
  The characters of a string literal up to its closing quote, decoded, and the rest of the input.
  An invalid UTF-8 byte decodes to U+FFFD; a control character ends the literal with an error.
\<close>

function scan_string :: "string \<Rightarrow> (string \<times> string) option" where
  "scan_string s =
     (case s of
        [] \<Rightarrow> None
      | c # r \<Rightarrow>
          if c = CHR 0x22 then Some ([], r)
          else if byte_of c < 32 then None
          else if c = CHR 0x5C then
            (case r of
               [] \<Rightarrow> None
             | e # r' \<Rightarrow>
                 (case (if e = CHR ''u'' then u_escape r'
                        else map_option (\<lambda>x. ([x], r')) (simple_escape e)) of
                    None \<Rightarrow> None
                  | Some (out, r2) \<Rightarrow>
                      if length r2 < length s
                      then map_option (\<lambda>(t, q). (out @ t, q)) (scan_string r2) else None))
          else (let w = snd (decode_rune (map of_char s)) in
                map_option (\<lambda>(t, q). (encode_rune (fst (decode_rune (map of_char s))) @ t, q))
                  (scan_string (drop (max 1 w) s))))"
  by pat_completeness auto
termination
  by (relation "measure length") auto

declare scan_string.simps [simp del]

fun lit_prefix :: "string \<Rightarrow> string \<Rightarrow> string option" where
  "lit_prefix [] s = Some s"
| "lit_prefix (c # p) [] = None"
| "lit_prefix (c # p) (d # s) = (if c = d then lit_prefix p s else None)"

text \<open>A later member of an object overrides an earlier one with the same key, as in a Go map.\<close>

fun last_wins :: "(string \<times> 'a) list \<Rightarrow> (string \<times> 'a) list" where
  "last_wins [] = []"
| "last_wins ((k, v) # kvs) = (if k \<in> fst ` set kvs then last_wins kvs else (k, v) # last_wins kvs)"

lemma fst_set_last_wins [simp]: "fst ` set (last_wins kvs) = fst ` set kvs"
  by (induction kvs rule: last_wins.induct) auto

lemma distinct_last_wins: "distinct (map fst (last_wins kvs))"
  by (induction kvs rule: last_wins.induct) auto

lemma map_of_last_wins: "map_of (last_wins kvs) k = map_of (rev kvs) k"
proof (induction kvs rule: last_wins.induct)
  case (2 k' v kvs)
  have "map_of (rev kvs) k' \<noteq> None \<longleftrightarrow> k' \<in> fst ` set kvs"
    by (simp add: map_of_eq_None_iff)
  with 2 show ?case
    by (auto simp: map_add_def split: option.splits)
qed simp

lemma skip_ws_Cons_length: "skip_ws s = c # r \<Longrightarrow> length r < length s"
  using length_skip_ws [of s] by simp

text \<open>
  The recursive-descent reading of a value, at nesting depth \<open>d\<close>. The length tests on the
  remaining input always succeed; they make the recursion visibly decreasing.
\<close>

function (sequential)
  parse_value :: "(string \<Rightarrow> string option) \<Rightarrow> nat \<Rightarrow> string \<Rightarrow> (json \<times> string) option"
  and parse_elems :: "(string \<Rightarrow> string option) \<Rightarrow> nat \<Rightarrow> string \<Rightarrow> (json list \<times> string) option"
  and parse_members ::
    "(string \<Rightarrow> string option) \<Rightarrow> nat \<Rightarrow> string \<Rightarrow> ((string \<times> json) list \<times> string) option"
where
  "parse_value ft d s =
     (case skip_ws s of
        [] \<Rightarrow> None
      | c # r \<Rightarrow>
          if c = CHR 0x22 then map_option (\<lambda>(t, q). (JStr t, q)) (scan_string r)
          else if c = CHR ''['' then
            (if 10000 \<le> d then None
             else (case skip_ws r of
                     x # r' \<Rightarrow> if x = CHR '']'' then Some (JArr [], r')
                               else map_option (\<lambda>(vs, q). (JArr vs, q)) (parse_elems ft (Suc d) r)
                   | [] \<Rightarrow> None))
          else if c = CHR ''{'' then
            (if 10000 \<le> d then None
             else (case skip_ws r of
                     x # r' \<Rightarrow> if x = CHR ''}'' then Some (JObj [], r')
                               else map_option (\<lambda>(kvs, q). (JObj (last_wins kvs), q)) (parse_members ft (Suc d) r)
                   | [] \<Rightarrow> None))
          else if c = CHR ''t'' then map_option (\<lambda>q. (JBool True, q)) (lit_prefix ''true'' (c # r))
          else if c = CHR ''f'' then map_option (\<lambda>q. (JBool False, q)) (lit_prefix ''false'' (c # r))
          else if c = CHR ''n'' then map_option (\<lambda>q. (JNull, q)) (lit_prefix ''null'' (c # r))
          else (case scan_number (c # r) of
                  None \<Rightarrow> None
                | Some (l, q) \<Rightarrow> map_option (\<lambda>t. (JNum t, q)) (ft l)))"
| "parse_elems ft d s =
     (case parse_value ft d s of
        None \<Rightarrow> None
      | Some (v, r) \<Rightarrow>
          (case skip_ws r of
             c # r' \<Rightarrow>
               if c = CHR '']'' then Some ([v], r')
               else if c = CHR '','' \<and> length r' < length s
               then map_option (\<lambda>(vs, q). (v # vs, q)) (parse_elems ft d r') else None
           | [] \<Rightarrow> None))"
| "parse_members ft d s =
     (case skip_ws s of
        c # r \<Rightarrow>
          if c \<noteq> CHR 0x22 then None
          else (case scan_string r of
                  None \<Rightarrow> None
                | Some (k, r1) \<Rightarrow>
                    (case skip_ws r1 of
                       x # r2 \<Rightarrow>
                         if x = CHR '':'' \<and> length r2 < length s then
                           (case parse_value ft d r2 of
                              None \<Rightarrow> None
                            | Some (v, r3) \<Rightarrow>
                                (case skip_ws r3 of
                                   y # r4 \<Rightarrow>
                                     if y = CHR ''}'' then Some ([(k, v)], r4)
                                     else if y = CHR '','' \<and> length r4 < length s
                                     then map_option (\<lambda>(vs, q). ((k, v) # vs, q)) (parse_members ft d r4)
                                     else None
                                 | [] \<Rightarrow> None))
                         else None
                     | [] \<Rightarrow> None))
      | [] \<Rightarrow> None)"
  by pat_completeness auto

termination
  by (relation "measure (\<lambda>x. case x of Inl (ft, d, s) \<Rightarrow> 2 * length s
        | Inr (Inl (ft, d, s)) \<Rightarrow> 2 * length s + 1 | Inr (Inr (ft, d, s)) \<Rightarrow> 2 * length s + 1)")
     (auto dest: skip_ws_Cons_length)

declare parse_value.simps [simp del] parse_elems.simps [simp del] parse_members.simps [simp del]

text \<open>\<^verbatim>\<open>json.Unmarshal(s, &v)\<close> with \<^verbatim>\<open>v any\<close>.\<close>

definition json_unmarshal :: "(string \<Rightarrow> string option) \<Rightarrow> string \<Rightarrow> json result" where
  "json_unmarshal ft s =
     (case parse_value ft 0 s of
        None \<Rightarrow> Inl (ErrText ''json: invalid document'')
      | Some (v, r) \<Rightarrow> if skip_ws r = [] then Inr v
                       else Inl (ErrText ''json: invalid character after top-level value''))"

section \<open>Round trip of strings and flat objects\<close>

text \<open>
  Strings of printable ASCII without characters that need an escape are printed as they are. Every other
  string is read back too, with invalid bytes replaced; so every object of strings, as every payload the
  engine audits is, decodes.
\<close>

definition plain_char :: "char \<Rightarrow> bool" where
  "plain_char c \<longleftrightarrow> 32 \<le> byte_of c \<and> byte_of c < 127 \<and> byte_of c \<notin> {34, 92, 60, 62, 38}"

abbreviation plain :: "string \<Rightarrow> bool" where
  "plain s \<equiv> list_all plain_char s"

lemma json_escape_plain: "plain s \<Longrightarrow> json_escape (map of_char s) = s"
proof (induction s)
  case (Cons c s)
  have "escape_ascii (byte_of c) = [c]"
    using Cons.prems by (simp add: plain_char_def escape_ascii_def)
  with Cons show ?case
    by (simp add: json_escape.simps [of "byte_of c # _"] decode_rune_ascii plain_char_def)
qed (simp add: json_escape.simps)

lemma encode_rune_ascii: "byte_of c < 128 \<Longrightarrow> encode_rune (byte_of c) = [c]"
  by (simp add: encode_rune_def)

lemma scan_string_plain: "plain s \<Longrightarrow> scan_string (s @ CHR 0x22 # r) = Some (s, r)"
proof (induction s)
  case (Cons c s)
  have "decode_rune (map of_char (c # s @ CHR 0x22 # r)) = (byte_of c, 1)"
    using Cons.prems by (simp add: decode_rune_ascii plain_char_def)
  moreover have "encode_rune (byte_of c) = [c]"
    using Cons.prems by (simp add: encode_rune_ascii plain_char_def)
  moreover have "c \<noteq> CHR 0x22" "c \<noteq> CHR 0x5C" "\<not> byte_of c < 32"
    using Cons.prems by (auto simp: plain_char_def)
  ultimately show ?case
    using Cons by (simp add: scan_string.simps [of "c # _"])
qed (simp add: scan_string.simps)

lemma json_string_plain: "plain s \<Longrightarrow> json_string s = CHR 0x22 # s @ [CHR 0x22]"
  by (simp add: json_string_def json_escape_plain)

lemma skip_ws_solid: "\<not> is_json_space c \<Longrightarrow> skip_ws (c # s) = c # s"
  by (simp add: skip_ws_def)

lemma parse_value_plain: "plain s \<Longrightarrow> parse_value ft d (json_string s @ r) = Some (JStr s, r)"
  by (simp add: json_string_plain parse_value.simps skip_ws_solid is_json_space_def scan_string_plain)

lemma decode_rune_large:
  assumes "bs \<noteq> []" and "decode_rune bs = (r, w)" and "128 \<le> r"
  shows "128 \<le> hd bs"
  using assms by (cases bs) (auto simp: decode_rune_def split: if_splits)

lemma decode_rune_take:
  assumes "bs \<noteq> []" and "decode_rune bs = (r, w)" and "\<not> (r = rune_error \<and> w = 1)"
  shows "decode_rune (take w bs @ xs) = (r, w)"
  using assms
  by (cases bs; cases "tl bs"; cases "tl (tl bs)"; cases "tl (tl (tl bs))")
       (auto simp add: decode_rune_def split: if_splits)

lemma hex_value_hex_digit: "n < 16 \<Longrightarrow> hex_value (hex_digit n) = Some n"
  by (auto simp: hex_value_def hex_digit_def in_range_def)

lemma scan_unicode_escape:
  assumes "n < 55296 \<or> n = 65533"
  shows "scan_string (unicode_escape n @ t) = map_option (\<lambda>(u, q). (encode_rune n @ u, q)) (scan_string t)"
proof -
  have n: "n < 65536" using assms by auto
  have "n = n div 16 * 16 + n mod 16" "n div 16 = n div 256 * 16 + n div 16 mod 16"
    "n div 256 = n div 4096 * 16 + n div 256 mod 16"
    using div_mult_mod_eq [of n 16] div_mult_mod_eq [of "n div 16" 16] div_mult_mod_eq [of "n div 256" 16]
    by (simp_all add: div_mult2_eq [symmetric])
  then have "n div 4096 * 4096 + (n div 256 mod 16) * 256 + (n div 16 mod 16) * 16 + n mod 16 = n"
    by linarith
  moreover have "n div 4096 mod 16 = n div 4096" "n div 4096 < 16" using n by simp_all
  ultimately have "hex4 (tl (tl (unicode_escape n @ t))) = Some (n, t)"
    by (simp add: unicode_escape_def hex_value_hex_digit)
  moreover have "\<not> in_range 55296 57343 n" using assms by (auto simp: in_range_def)
  ultimately have "u_escape (tl (tl (unicode_escape n @ t))) = Some (encode_rune n, t)"
    by (simp add: u_escape_def)
  then show ?thesis
    by (simp add: unicode_escape_def scan_string.simps [of "CHR 0x5C # _"])
qed

lemma scan_simple_escape:
  assumes "simple_escape c = Some x" and "c \<noteq> CHR ''u''"
  shows "scan_string (CHR 0x5C # c # t) = map_option (\<lambda>(u, q). (x # u, q)) (scan_string t)"
  using assms by (simp add: scan_string.simps [of "CHR 0x5C # c # t"])

lemma escape_ascii_scan:
  assumes "b < 128"
  shows "scan_string (escape_ascii b @ t) = map_option (\<lambda>(u, q). (encode_rune b @ u, q)) (scan_string t)"
proof -
  consider "b \<in> {8, 9, 10, 12, 13, 34, 92}" | "b \<notin> {8, 9, 10, 12, 13, 34, 92}" "b < 32 \<or> b \<in> {38, 60, 62}"
    | "\<not> b < 32" "b \<notin> {34, 38, 60, 62, 92}" by force
  then show ?thesis
  proof cases
    case 1
    then show ?thesis
      by (elim insertE emptyE) (simp_all add: escape_ascii_def encode_rune_def scan_simple_escape simple_escape_def char_of_def bit_iff_odd)
  next
    case 2
    then have "escape_ascii b = unicode_escape b" by (auto simp: escape_ascii_def)
    then show ?thesis using scan_unicode_escape [of b t] assms by simp
  next
    case 3
    then have "escape_ascii b = [char_of b]" by (auto simp: escape_ascii_def)
    moreover have b: "byte_of (char_of b) = b" using assms by (simp add: of_char_of)
    moreover have "(char_of b :: char) \<noteq> CHR 0x22" "(char_of b :: char) \<noteq> CHR 0x5C"
      using 3 b by (auto dest: arg_cong [of _ _ byte_of])
    ultimately show ?thesis
      using 3 assms by (simp add: scan_string.simps [of "char_of b # t"] decode_rune_ascii)
  qed
qed

text \<open>A literal is read back rune by rune; an invalid byte comes back as U+FFFD.\<close>

definition valid_utf8 :: "string \<Rightarrow> string" where
  "valid_utf8 s = concat (map (\<lambda>(i, r). encode_rune r) (go_range s))"

lemma scan_escaped:
  assumes "list_all (\<lambda>b. b < 256) bs"
  shows "scan_string (json_escape bs @ CHR 0x22 # q) = Some (concat (map (\<lambda>(i, r). encode_rune r) (range_from off bs)), q)"
  using assms
proof (induction bs arbitrary: off rule: json_escape.induct)
  case (1 bs)
  show ?case
  proof (cases "bs = []")
    case True
    then show ?thesis by (simp add: json_escape.simps scan_string.simps range_from.simps)
  next
    case False
    obtain r w where rw: "decode_rune bs = (r, w)" by fastforce
    have "list_all (\<lambda>b. b < 256) (drop w bs)" using "1.prems" by (auto simp: list_all_iff dest: in_set_dropD)
    then have u: "scan_string (json_escape (drop w bs) @ CHR 0x22 # q)
        = Some (concat (map (\<lambda>(i, r). encode_rune r) (range_from (off + w) (drop w bs))), q)"
      by (rule "1.IH" [OF False rw [symmetric] refl])
    have runes: "range_from off bs = (off, r) # range_from (off + w) (drop w bs)"
      using False rw by (simp add: range_from.simps [of off bs])
    consider "r < 128" | "128 \<le> r" "r = rune_error \<and> w = 1 \<or> r = 8232 \<or> r = 8233"
      | "128 \<le> r" "\<not> (r = rune_error \<and> w = 1)" "r \<noteq> 8232" "r \<noteq> 8233" by linarith
    then show ?thesis
    proof cases
      case 1
      with rw u False show ?thesis by (simp add: json_escape.simps [of bs] escape_ascii_scan runes)
    next
      case 2
      with rw u False scan_unicode_escape [of 65533] scan_unicode_escape [of r] show ?thesis
        by (auto simp: json_escape.simps [of bs] rune_error_def runes)
    next
      case 3
      let ?t = "json_escape (drop w bs) @ CHR 0x22 # q"
      have w: "1 \<le> w" "w \<le> length bs" using decode_rune_width [OF False] rw by auto
      have "128 \<le> hd bs" by (rule decode_rune_large [OF False rw 3(1)])
      moreover have "hd bs < 256" using "1.prems" False by (cases bs) auto
      ultimately have hd: "byte_of (char_of (hd bs)) = hd bs" by (simp add: of_char_of)
      obtain b bs' where bs: "take w bs = b # bs'" "b = hd bs" using w False by (cases bs; cases w) auto
      have "map byte_of (map char_of (take w bs)) = take w bs"
        using "1.prems" by (intro map_idI [THEN trans [OF map_map]]) (auto simp: list_all_iff of_char_of dest!: in_set_takeD)
      then have "decode_rune (map of_char (map char_of (take w bs) @ ?t)) = (r, w)"
        using decode_rune_take [OF False rw 3(2)] by (simp add: comp_def)
      moreover have "(char_of b :: char) \<noteq> CHR 0x22" "(char_of b :: char) \<noteq> CHR 0x5C" "\<not> byte_of (char_of b) < 32"
        using hd \<open>128 \<le> hd bs\<close> bs(2) by (auto dest: arg_cong [of _ _ byte_of])
      moreover have "drop w (map char_of (take w bs) @ ?t) = ?t" using w by simp
      ultimately have "scan_string (map char_of (take w bs) @ ?t)
          = map_option (\<lambda>(u, q). (encode_rune r @ u, q)) (scan_string ?t)"
        using w bs(1) by (simp add: scan_string.simps [of "char_of b # _"] max_def)
      moreover have "json_escape bs = map char_of (take w bs) @ json_escape (drop w bs)"
        using rw 3 False by (auto simp: json_escape.simps [of bs])
      ultimately show ?thesis by (simp add: u runes)
    qed
  qed
qed


lemma parse_value_string: "parse_value ft d (json_string s @ r) = Some (JStr (valid_utf8 s), r)"
proof -
  have "list_all (\<lambda>b. b < 256) (map byte_of s)" by (simp add: list_all_iff)
  from scan_escaped [OF this, of r 0] show ?thesis
    by (simp add: json_string_def parse_value.simps skip_ws_solid is_json_space_def valid_utf8_def go_range_def)
qed

lemma valid_utf8_plain: "plain s \<Longrightarrow> valid_utf8 s = s"
  using parse_value_plain [of s Some 0 "[]"] parse_value_string [of Some 0 s "[]"] by simp

definition flat_entry :: "string \<times> string \<Rightarrow> string" where
  "flat_entry kv = json_string (fst kv) @ CHR '':'' # json_string (snd kv)"

lemma parse_member_step:
  assumes "plain k"
  shows "parse_members ft d (flat_entry (k, v) @ CHR ''}'' # t) = Some ([(k, JStr (valid_utf8 v))], t)"
    and "parse_members ft d (flat_entry (k, v) @ CHR '','' # t)
         = map_option (\<lambda>(vs, q). ((k, JStr (valid_utf8 v)) # vs, q)) (parse_members ft d t)"
proof -
  have head: "scan_string (k @ CHR 0x22 # CHR '':'' # json_string v @ y # t) = Some (k, CHR '':'' # json_string v @ y # t)" for y
    by (rule scan_string_plain [OF assms])
  note eval = flat_entry_def json_string_plain [OF assms] parse_members.simps [of ft d "CHR 0x22 # _"]
    skip_ws_solid is_json_space_def head parse_value_string
  show "parse_members ft d (flat_entry (k, v) @ CHR ''}'' # t) = Some ([(k, JStr (valid_utf8 v))], t)"
    by (simp add: eval)
  show "parse_members ft d (flat_entry (k, v) @ CHR '','' # t)
         = map_option (\<lambda>(vs, q). ((k, JStr (valid_utf8 v)) # vs, q)) (parse_members ft d t)"
    by (simp add: eval)
qed

lemma commas_Cons: "xs \<noteq> [] \<Longrightarrow> commas (x # xs) = x @ CHR '','' # commas xs"
  by (cases xs) auto

lemma parse_members_flat:
  assumes "kvs \<noteq> []" and "list_all (\<lambda>(k, v). plain k) kvs"
  shows "parse_members ft d (commas (map flat_entry kvs) @ CHR ''}'' # r) 
       = Some (map (\<lambda>(k, v). (k, JStr (valid_utf8 v))) kvs, r)"
  using assms
proof (induction kvs rule: list_nonempty_induct)
  case (single kv)
  then show ?case by (cases kv) (simp add: parse_member_step)
next
  case (cons kv kvs)
  then show ?case by (cases kv) (simp add: commas_Cons parse_member_step)
qed

lemma insort_key_map: "insort_key f (g x) (map g xs) = map g (insort_key (\<lambda>y. f (g y)) x xs)"
  by (induction xs) auto

lemma sort_key_map: "sort_key f (map g xs) = map g (sort_key (\<lambda>y. f (g y)) xs)"
  by (induction xs) (simp_all add: insort_key_map)

lemma last_wins_distinct: "distinct (map fst kvs) \<Longrightarrow> last_wins kvs = kvs"
  by (induction kvs rule: last_wins.induct) auto

text \<open>The object as the encoder orders it.\<close>

lemma json_text_flat:
  "json_text (JObj (map (\<lambda>(k, v). (k, JStr v)) kvs))
   = CHR ''{'' # commas (map flat_entry (sort_key fst kvs)) @ ''}''"
proof -
  have "map snd (sort_key fst (map (\<lambda>(k, v). (k, json_string k @ CHR '':'' # json_text v)) (map (\<lambda>(k, v). (k, JStr v)) kvs)))
      = map flat_entry (sort_key fst kvs)"
    by (simp add: sort_key_map split_beta flat_entry_def comp_def)
  then show ?thesis by simp
qed

lemma unmarshal_flat:
  assumes "kvs \<noteq> []" and "list_all (\<lambda>(k, v). plain k) kvs" and "distinct (map fst kvs)"
  shows "json_unmarshal ft (json_text (JObj (map (\<lambda>(k, v). (k, JStr v)) kvs)))
       = Inr (JObj (map (\<lambda>(k, v). (k, JStr (valid_utf8 v))) (sort_key fst kvs)))"
proof -
  let ?s = "sort_key fst kvs"
  have s: "?s \<noteq> []" "list_all (\<lambda>(k, v). plain k) ?s"
    using assms(1,2) by (auto simp: list_all_iff) (metis length_0_conv length_sort)
  have "distinct (map fst ?s)"
    using assms(3) by (metis distinct_map distinct_sort set_sort)
  then have "last_wins (map (\<lambda>(k, v). (k, JStr (valid_utf8 v))) ?s) = map (\<lambda>(k, v). (k, JStr (valid_utf8 v))) ?s"
    by (intro last_wins_distinct) (simp add: comp_def split_beta)
  moreover obtain x where x: "commas (map flat_entry ?s) @ ''}'' = CHR 0x22 # x"
    using s(1) by (cases ?s; cases "tl ?s") (auto simp: flat_entry_def json_string_def)
  moreover have "parse_members ft (Suc 0) (CHR 0x22 # x) = Some (map (\<lambda>(k, v). (k, JStr (valid_utf8 v))) ?s, [])"
    using parse_members_flat [OF s, of ft "Suc 0" "[]"] x by simp
  ultimately show ?thesis
    unfolding json_unmarshal_def json_text_flat
    by (simp add: parse_value.simps skip_ws_solid is_json_space_def) (simp add: skip_ws_def)
qed

end
