(* ===== verification/Go_Time.thy ===== *)
theory Go_Time
  imports Go_Prelude
begin

text \<open>
  Rendering of UTC timestamps: \<^verbatim>\<open>Format(time.RFC3339Nano)\<close>, \<^verbatim>\<open>Format(time.RFC3339)\<close> and the date part.
  The calendar date of a day number is computed with 400-year eras of the proleptic Gregorian
  calendar.
\<close>

definition ns_per_day :: int where "ns_per_day = 86400000000000"

definition civil_from_days :: "int \<Rightarrow> int \<times> int \<times> int" where
  "civil_from_days d =
     (let z = d + 719468; era = z div 146097; doe = z mod 146097;
          yoe = (doe - doe div 1460 + doe div 36524 - doe div 146096) div 365;
          doy = doe - (365 * yoe + yoe div 4 - yoe div 100);
          mp = (5 * doy + 2) div 153;
          dd = doy - (153 * mp + 2) div 5 + 1;
          m = (if mp < 10 then mp + 3 else mp - 9);
          y = yoe + era * 400 + (if m \<le> 2 then 1 else 0)
      in (y, m, dd))"

text \<open>\<^verbatim>\<open>appendInt(b, x, width)\<close>.\<close>

definition int_pad :: "nat \<Rightarrow> int \<Rightarrow> string" where
  "int_pad w i = (if i < 0 then CHR ''-'' # pad_left w (dec_nat (nat (- i)))
                  else pad_left w (dec_nat (nat i)))"

definition format_date :: "time \<Rightarrow> string" where
  "format_date t =
     (case civil_from_days (t div ns_per_day) of
        (y, m, d) \<Rightarrow> int_pad 4 y @ ''-'' @ int_pad 2 m @ ''-'' @ int_pad 2 d)"

definition format_clock :: "time \<Rightarrow> string" where
  "format_clock t =
     (let s = (t mod ns_per_day) div 1000000000
      in int_pad 2 (s div 3600) @ '':'' @ int_pad 2 (s div 60 mod 60) @ '':'' @ int_pad 2 (s mod 60))"

text \<open>The fraction: nine digits without trailing zeros, nothing for a whole second.\<close>

definition format_frac :: "time \<Rightarrow> string" where
  "format_frac t =
     (let n = t mod 1000000000
      in if n = 0 then []
         else CHR ''.'' # rev (dropWhile (\<lambda>c. c = CHR ''0'') (rev (int_pad 9 n))))"

definition rfc3339nano :: "time \<Rightarrow> string" where
  "rfc3339nano t = format_date t @ ''T'' @ format_clock t @ format_frac t @ ''Z''"

definition rfc3339 :: "time \<Rightarrow> string" where
  "rfc3339 t = format_date t @ ''T'' @ format_clock t @ ''Z''"

definition time_char :: "char \<Rightarrow> bool" where
  "time_char c \<longleftrightarrow> is_digit c \<or> c \<in> {CHR ''-'', CHR '':'', CHR ''.'', CHR ''T'', CHR ''Z''}"

lemma time_char_int_pad: "list_all time_char (int_pad w i)"
proof -
  have "list_all time_char (dec_nat n)" for n
    using dec_nat_digits [of n] by (auto simp: list_all_iff time_char_def)
  then have "list_all time_char (pad_left w (dec_nat n))" for n
    by (auto simp: pad_left_def list_all_iff time_char_def is_digit_def)
  then show ?thesis by (simp add: int_pad_def time_char_def)
qed

lemma rfc3339nano_chars: "list_all time_char (rfc3339nano t)"
proof -
  have "list_all time_char (format_date t)"
    by (simp add: format_date_def time_char_int_pad time_char_def split: prod.splits)
  moreover have "list_all time_char (format_clock t)"
    by (simp add: format_clock_def Let_def time_char_int_pad time_char_def)
  moreover have "list_all time_char (format_frac t)"
    using time_char_int_pad [of 9 "t mod 1000000000"]
      set_dropWhileD [of _ "\<lambda>c. c = CHR ''0''" "rev (int_pad 9 (t mod 1000000000))"]
    by (auto simp: format_frac_def Let_def list_all_iff time_char_def [of "CHR ''.''"])
  ultimately show ?thesis by (simp add: rfc3339nano_def time_char_def)
qed

end
