(* ===== verification/Go_Crypto.thy ===== *)
theory Go_Crypto
  imports Go_Text "HOL-Library.Word"
begin

unbundle bit_operations_syntax

text \<open>
  \<^verbatim>\<open>crypto/sha256\<close> and \<^verbatim>\<open>crypto/hmac\<close> as the standards define them, on byte lists, and the hexadecimal
  digest the audit log stores. The facts the program relies on are about shape only: a digest is 32
  bytes, its hexadecimal form 64 characters of \<open>[0-9a-f]\<close>. Nothing is assumed about collisions.
\<close>

section \<open>SHA-256\<close>

type_synonym w32 = "32 word"

definition rotr32 :: "nat \<Rightarrow> w32 \<Rightarrow> w32" where
  "rotr32 n x = drop_bit n x OR push_bit (32 - n) x"

text \<open>The round constants (first 32 bits of the fractional parts of the cube roots of the first 64 primes), in decimal.\<close>

definition sha_k :: "w32 list" where
  "sha_k =
   [1116352408, 1899447441, 3049323471, 3921009573, 961987163, 1508970993, 2453635748, 2870763221,
    3624381080, 310598401, 607225278, 1426881987, 1925078388, 2162078206, 2614888103, 3248222580,
    3835390401, 4022224774, 264347078, 604807628, 770255983, 1249150122, 1555081692, 1996064986,
    2554220882, 2821834349, 2952996808, 3210313671, 3336571891, 3584528711, 113926993, 338241895,
    666307205, 773529912, 1294757372, 1396182291, 1695183700, 1986661051, 2177026350, 2456956037,
    2730485921, 2820302411, 3259730800, 3345764771, 3516065817, 3600352804, 4094571909, 275423344,
    430227734, 506948616, 659060556, 883997877, 958139571, 1322822218, 1537002063, 1747873779,
    1955562222, 2024104815, 2227730452, 2361852424, 2428436474, 2756734187, 3204031479, 3329325298]"

record sha_state =
  sa :: w32
  sb :: w32
  sc :: w32
  sd :: w32
  se :: w32
  sf :: w32
  sg :: w32
  sh :: w32

definition sha_init :: sha_state where
  "sha_init = \<lparr>sa = 0x6a09e667, sb = 0xbb67ae85, sc = 0x3c6ef372, sd = 0xa54ff53a,
               se = 0x510e527f, sf = 0x9b05688c, sg = 0x1f83d9ab, sh = 0x5be0cd19\<rparr>"

fun be_word :: "nat list \<Rightarrow> w32" where
  "be_word (b0 # b1 # b2 # b3 # r) = of_nat (((b0 * 256 + b1) * 256 + b2) * 256 + b3)"
| "be_word _ = 0"

fun be_words :: "nat list \<Rightarrow> w32 list" where
  "be_words (b0 # b1 # b2 # b3 # r) = be_word [b0, b1, b2, b3] # be_words r"
| "be_words _ = []"

text \<open>The message schedule, kept newest first: 48 words are derived from the 16 of the block.\<close>

definition sha_next_word :: "w32 list \<Rightarrow> w32" where
  "sha_next_word ws =
     (let x2 = ws ! 1; x15 = ws ! 14;
          s0 = rotr32 7 x15 XOR rotr32 18 x15 XOR drop_bit 3 x15;
          s1 = rotr32 17 x2 XOR rotr32 19 x2 XOR drop_bit 10 x2
      in s1 + ws ! 6 + s0 + ws ! 15)"

fun sha_extend :: "nat \<Rightarrow> w32 list \<Rightarrow> w32 list" where
  "sha_extend 0 ws = ws"
| "sha_extend (Suc n) ws = sha_extend n (sha_next_word ws # ws)"

definition sha_schedule :: "nat list \<Rightarrow> w32 list" where
  "sha_schedule block = rev (sha_extend 48 (rev (be_words block)))"

definition sha_round :: "sha_state \<Rightarrow> w32 \<times> w32 \<Rightarrow> sha_state" where
  "sha_round s kw =
     (let t1 = sh s + (rotr32 6 (se s) XOR rotr32 11 (se s) XOR rotr32 25 (se s))
               + ((se s AND sf s) XOR (NOT (se s) AND sg s)) + fst kw + snd kw;
          t2 = (rotr32 2 (sa s) XOR rotr32 13 (sa s) XOR rotr32 22 (sa s))
               + ((sa s AND sb s) XOR (sa s AND sc s) XOR (sb s AND sc s))
      in \<lparr>sa = t1 + t2, sb = sa s, sc = sb s, sd = sc s, se = sd s + t1, sf = se s, sg = sf s,
          sh = sg s\<rparr>)"

definition sha_block :: "sha_state \<Rightarrow> nat list \<Rightarrow> sha_state" where
  "sha_block s block =
     (let t = foldl sha_round s (zip sha_k (sha_schedule block))
      in \<lparr>sa = sa s + sa t, sb = sb s + sb t, sc = sc s + sc t, sd = sd s + sd t,
          se = se s + se t, sf = sf s + sf t, sg = sg s + sg t, sh = sh s + sh t\<rparr>)"

definition be64 :: "nat \<Rightarrow> nat list" where
  "be64 n = map (\<lambda>i. n div 256 ^ i mod 256) [7, 6, 5, 4, 3, 2, 1, 0]"

definition sha_pad :: "nat list \<Rightarrow> nat list" where
  "sha_pad bs = bs @ 128 # replicate ((119 - length bs mod 64) mod 64) 0 @ be64 (8 * length bs)"

function sha_blocks :: "sha_state \<Rightarrow> nat list \<Rightarrow> sha_state" where
  "sha_blocks s bs =
     (if bs = [] then s else sha_blocks (sha_block s (take 64 bs)) (drop 64 bs))"
  by pat_completeness auto
termination
  by (relation "measure (\<lambda>(s, bs). length bs)") auto

declare sha_blocks.simps [simp del]

definition be32 :: "w32 \<Rightarrow> nat list" where
  "be32 w = map (\<lambda>i. unat w div 256 ^ i mod 256) [3, 2, 1, 0]"

definition sha256 :: "nat list \<Rightarrow> nat list" where
  "sha256 bs =
     (let s = sha_blocks sha_init (sha_pad bs)
      in be32 (sa s) @ be32 (sb s) @ be32 (sc s) @ be32 (sd s)
         @ be32 (se s) @ be32 (sf s) @ be32 (sg s) @ be32 (sh s))"

lemma sha256_length [simp]: "length (sha256 bs) = 32"
  by (simp add: sha256_def be32_def Let_def)

lemma sha256_bytes: "list_all (\<lambda>b. b < 256) (sha256 bs)"
proof -
  have "list_all (\<lambda>b. b < 256) (be32 w)" for w
    by (simp add: be32_def)
  then show ?thesis by (simp add: sha256_def Let_def)
qed

text \<open>Padding fills whole blocks, so no byte of the message is dropped.\<close>

lemma sha_pad_blocks: "length (sha_pad bs) mod 64 = 0"
proof -
  have "length (sha_pad bs) = length bs + 9 + (119 - length bs mod 64) mod 64"
    by (simp add: sha_pad_def be64_def)
  moreover have "(n + 9 + (119 - n mod 64) mod 64) mod 64 = 0" for n :: nat
  proof -
    have "(n + 9 + (119 - n mod 64) mod 64) mod 64 = (n mod 64 + 9 + (119 - n mod 64)) mod 64"
      by (metis mod_add_left_eq mod_add_right_eq add.assoc)
    also have "n mod 64 + 9 + (119 - n mod 64) = 128"
      using mod_less_divisor [of 64 n] by simp
    finally show ?thesis by simp
  qed
  ultimately show ?thesis by simp
qed

section \<open>HMAC\<close>

definition hmac_key :: "nat list \<Rightarrow> nat list" where
  "hmac_key k = (let k' = (if 64 < length k then sha256 k else k)
                 in k' @ replicate (64 - length k') 0)"

definition hmac_sha256 :: "nat list \<Rightarrow> nat list \<Rightarrow> nat list" where
  "hmac_sha256 key msg =
     (let k = hmac_key key
      in sha256 (map (\<lambda>b. b XOR 0x5c) k @ sha256 (map (\<lambda>b. b XOR 0x36) k @ msg)))"

lemma hmac_sha256_length [simp]: "length (hmac_sha256 key msg) = 32"
  by (simp add: hmac_sha256_def Let_def)

lemma length_hmac_key [simp]: "length (hmac_key k) = 64"
  by (simp add: hmac_key_def Let_def)

section \<open>The hexadecimal digest\<close>

definition sha256_hex :: "string \<Rightarrow> string" where
  "sha256_hex s = hex_encode (sha256 (map of_char s))"

lemma length_sha256_hex [simp]: "length (sha256_hex s) = 64"
  by (simp add: sha256_hex_def)

lemma sha256_hex_chars: "list_all is_hex (sha256_hex s)"
  unfolding sha256_hex_def by (rule hex_encode_chars [OF sha256_bytes])

lemma sha256_hex_nonempty [simp]: "sha256_hex s \<noteq> []"
  using length_sha256_hex [of s] by fastforce

lemma sha256_hex_collision:
  "sha256_hex s = sha256_hex t \<Longrightarrow> sha256 (map of_char s) = sha256 (map of_char t)"
  unfolding sha256_hex_def by (rule hex_encode_inj [OF sha256_bytes sha256_bytes])

end
