(* ===== verification/Audit_Log.thy ===== *)
theory Audit_Log
  imports Go_Json Go_Time Go_Crypto
begin

text \<open>
  Package \<^verbatim>\<open>internal/audit\<close> (\<^verbatim>\<open>hash.go\<close>): sealing an entry with the hash of its predecessor, and verifying
  a whole log. The locale \<open>hash_chain\<close> states what a log of hashed entries gives once the hashed
  text determines the predecessor hash: extension, detection of a changed row, and commitment of the
  last hash to the whole history. It is interpreted on the program's own sealing function. No
  property of SHA-256 is assumed: where a conclusion depends on it, the alternative is an explicit
  pair of colliding inputs.
\<close>

section \<open>hash.go\<close>

record Entry =
  en_EventType :: string
  en_Payload :: json
  en_PreviousHash :: string
  en_CreatedAt :: time
  en_RowHash :: string

definition seal_value :: "Entry \<Rightarrow> string \<Rightarrow> string" where
  "seal_value entry payload =
     en_PreviousHash entry @ ''|'' @ en_EventType entry @ ''|'' @ rfc3339nano (en_CreatedAt entry)
     @ ''|'' @ payload"

definition Seal :: "Entry \<Rightarrow> Entry result" where
  "Seal entry =
     (case json_marshal (en_Payload entry) of
        Inl err \<Rightarrow> Inl (ErrWrap ''marshal audit payload: '' err [])
      | Inr payload \<Rightarrow> Inr (entry\<lparr>en_RowHash := sha256_hex (seal_value entry payload)\<rparr>))"

text \<open>The loop of \<^verbatim>\<open>Verify\<close>, with its variables \<^verbatim>\<open>previous\<close> and \<^verbatim>\<open>index\<close>; \<open>None\<close> is a nil error.\<close>

fun verify_from :: "string \<Rightarrow> nat \<Rightarrow> Entry list \<Rightarrow> int \<times> go_error option" where
  "verify_from previous index [] = (- 1, None)"
| "verify_from previous index (entry # entries) =
     (if en_PreviousHash entry \<noteq> previous
      then (int index, Some (ErrText ''previous hash mismatch''))
      else (case Seal \<lparr>en_EventType = en_EventType entry, en_Payload = en_Payload entry,
                       en_PreviousHash = en_PreviousHash entry, en_CreatedAt = en_CreatedAt entry,
                       en_RowHash = []\<rparr> of
              Inl err \<Rightarrow> (int index, Some err)
            | Inr sealed \<Rightarrow>
                if en_RowHash sealed \<noteq> en_RowHash entry
                then (int index, Some (ErrText ''row hash mismatch''))
                else verify_from (en_RowHash entry) (Suc index) entries))"

definition Verify :: "Entry list \<Rightarrow> int \<times> go_error option" where
  "Verify entries = verify_from [] 0 entries"

section \<open>Hash chains\<close>

text \<open>
  \<open>links pred stored dig h es\<close>: starting from the hash \<open>h\<close>, every entry names its predecessor's stored hash
  and stores its own digest.
\<close>

fun links :: "('e \<Rightarrow> string) \<Rightarrow> ('e \<Rightarrow> string) \<Rightarrow> ('e \<Rightarrow> string) \<Rightarrow> string \<Rightarrow> 'e list \<Rightarrow> bool" where
  "links pred stored dig h [] \<longleftrightarrow> True"
| "links pred stored dig h (e # es) \<longleftrightarrow> pred e = h \<and> stored e = dig e \<and> links pred stored dig (stored e) es"

fun last_hash :: "('e \<Rightarrow> string) \<Rightarrow> string \<Rightarrow> 'e list \<Rightarrow> string" where
  "last_hash stored h [] = h"
| "last_hash stored h (e # es) = last_hash stored (stored e) es"

lemma last_hash_append [simp]: "last_hash stored h (xs @ ys) = last_hash stored (last_hash stored h xs) ys"
  by (induction xs arbitrary: h) auto

lemma links_append:
  "links pred stored dig h (xs @ ys) \<longleftrightarrow> links pred stored dig h xs \<and> links pred stored dig (last_hash stored h xs) ys"
  by (induction xs arbitrary: h) auto

locale hash_chain =
  fixes pred stored :: "'e \<Rightarrow> string"
    and inp :: "'e \<Rightarrow> string"
    and digest :: "string \<Rightarrow> string"
    and bounded :: "'e \<Rightarrow> bool"
  assumes digest_nonempty: "digest x \<noteq> []"
    and inp_determines_pred: "\<lbrakk>bounded e; bounded f; inp e = inp f\<rbrakk> \<Longrightarrow> pred e = pred f"
    and digest_bounded: "pred e \<in> insert [] (range digest) \<Longrightarrow> bounded e"
begin

lemma extend:
  assumes "links pred stored (\<lambda>x. digest (inp x)) h es" and "pred e = last_hash stored h es" and "stored e = digest (inp e)"
  shows "links pred stored (\<lambda>x. digest (inp x)) h (es @ [e])"
  using assms by (simp add: links_append)

lemma last_stored: "es \<noteq> [] \<Longrightarrow> last_hash stored h es = stored (last es)"
  by (induction es arbitrary: h) auto

lemma last_digest:
  assumes "links pred stored (\<lambda>x. digest (inp x)) h es" and "h \<in> insert [] (range digest)"
  shows "last_hash stored h es \<in> insert [] (range digest)"
  using assms
proof (induction es arbitrary: h)
  case (Cons e es)
  then have "links pred stored (\<lambda>x. digest (inp x)) (stored e) es" "stored e \<in> insert [] (range digest)"
    by auto
  from Cons.IH [OF this] show ?case by simp
qed simp

text \<open>
  A change of one row survives verification only if the row keeps its predecessor and its digest,
  that is, only with a second preimage of the hashed text.
\<close>

lemma change_detected:
  assumes "links pred stored (\<lambda>x. digest (inp x)) h (xs @ e # ys)"
    and "links pred stored (\<lambda>x. digest (inp x)) h (xs @ f # ys)"
    and "ys \<noteq> []"
  shows "pred f = pred e" and "digest (inp f) = digest (inp e)" and "stored f = stored e"
  using assms by (cases ys; auto simp: links_append)+

text \<open>
  The last hash commits to the whole history: two logs that end in the same hash carry the same
  hashed texts, or two of their entries collide.
\<close>

lemma commit:
  assumes "links pred stored (\<lambda>x. digest (inp x)) [] es" and "links pred stored (\<lambda>x. digest (inp x)) [] fs"
    and "last_hash stored [] es = last_hash stored [] fs"
  shows "map inp es = map inp fs
       \<or> (\<exists>e \<in> set es. \<exists>f \<in> set fs. inp e \<noteq> inp f \<and> digest (inp e) = digest (inp f))"
  using assms
proof (induction es arbitrary: fs rule: rev_induct)
  case Nil
  then have "fs = []"
  proof (cases fs rule: rev_cases)
    case (snoc gs f)
    with Nil have "[] = digest (inp f)" by (auto simp: links_append)
    with digest_nonempty show ?thesis by metis
  qed simp
  then show ?case by simp
next
  case (snoc e es)
  show ?case
  proof (cases fs rule: rev_cases)
    case Nil
    with snoc.prems digest_nonempty show ?thesis by (force simp: links_append)
  next
    case (snoc gs f)
    have e: "links pred stored (\<lambda>x. digest (inp x)) [] es" "pred e = last_hash stored [] es" "stored e = digest (inp e)"
      and f: "links pred stored (\<lambda>x. digest (inp x)) [] gs" "pred f = last_hash stored [] gs" "stored f = digest (inp f)"
      using snoc.prems snoc by (auto simp: links_append)
    have same: "digest (inp e) = digest (inp f)"
      using snoc.prems(3) e(3) f(3) by (simp add: snoc)
    show ?thesis
    proof (cases "inp e = inp f")
      case False
      with same show ?thesis by (auto simp: snoc)
    next
      case True
      have "bounded e" "bounded f"
        using last_digest [OF e(1)] last_digest [OF f(1)] e(2) f(2) by (auto intro: digest_bounded)
      then have "last_hash stored [] es = last_hash stored [] gs"
        using inp_determines_pred [OF _ _ True] e(2) f(2) by simp
      from snoc.IH [OF e(1) f(1) this] show ?thesis by (auto simp: True snoc)
    qed
  qed
qed

end

section \<open>The program's chain\<close>

definition seal_input :: "Entry \<Rightarrow> string" where
  "seal_input e = seal_value e (json_text (en_Payload e))"

abbreviation entry_links :: "string \<Rightarrow> Entry list \<Rightarrow> bool" where
  "entry_links \<equiv> links en_PreviousHash en_RowHash (\<lambda>e. sha256_hex (seal_input e))"

abbreviation sealable :: "Entry list \<Rightarrow> bool" where
  "sealable es \<equiv> list_all (\<lambda>e. json_supported (en_Payload e)) es"

lemma Seal_Inr_iff:
  "Seal e = Inr s \<longleftrightarrow> json_supported (en_Payload e) \<and> s = e\<lparr>en_RowHash := sha256_hex (seal_input e)\<rparr>"
  by (auto simp: Seal_def json_marshal_def seal_input_def)

lemma Seal_Inl_iff: "(\<exists>err. Seal e = Inl err) \<longleftrightarrow> \<not> json_supported (en_Payload e)"
  by (simp add: Seal_def json_marshal_def)

lemma seal_value_bar:
  "seal_value e p = en_PreviousHash e @ CHR ''|'' # (en_EventType e @ CHR ''|''
     # (rfc3339nano (en_CreatedAt e) @ CHR ''|'' # p))"
  by (simp add: seal_value_def)

text \<open>A text without the separator is recovered from what stands before the first separator.\<close>

lemma bar_split:
  assumes "CHR ''|'' \<notin> set a" and "CHR ''|'' \<notin> set b" and "a @ CHR ''|'' # x = b @ CHR ''|'' # y"
  shows "a = b \<and> x = y"
proof -
  have tw: "takeWhile (\<lambda>c. c \<noteq> CHR ''|'') (w @ CHR ''|'' # z) = w" if "CHR ''|'' \<notin> set w" for w z
    using that by (induction w) auto
  have "a = b" using tw [OF assms(1)] tw [OF assms(2)] assms(3) by metis
  with assms(3) show ?thesis by simp
qed

lemma bar_not_hex: "\<not> is_hex CHR ''|''"
  by (simp add: is_hex_def is_digit_def in_range_def)

lemma sha256_hex_no_bar [simp]: "CHR ''|'' \<notin> set (sha256_hex s)"
  using sha256_hex_chars [of s] bar_not_hex by (auto simp: list_all_iff)

lemma rfc3339nano_no_bar: "CHR ''|'' \<notin> set (rfc3339nano t)"
  using rfc3339nano_chars [of t] by (auto simp: list_all_iff time_char_def is_digit_def)

interpretation ac: hash_chain en_PreviousHash en_RowHash seal_input sha256_hex
    "\<lambda>e. CHR ''|'' \<notin> set (en_PreviousHash e)"
proof
  show "sha256_hex x \<noteq> []" for x by simp
next
  fix e f :: Entry
  assume "CHR ''|'' \<notin> set (en_PreviousHash e)" "CHR ''|'' \<notin> set (en_PreviousHash f)"
    and "seal_input e = seal_input f"
  then show "en_PreviousHash e = en_PreviousHash f"
    unfolding seal_input_def seal_value_bar by (blast dest: bar_split)
next
  fix e :: Entry
  assume "en_PreviousHash e \<in> insert [] (range sha256_hex)"
  then show "CHR ''|'' \<notin> set (en_PreviousHash e)"
    by auto
qed

text \<open>With event types free of the separator the hashed text determines everything it covers.\<close>

lemma seal_input_content:
  assumes "CHR ''|'' \<notin> set (en_PreviousHash e)" "CHR ''|'' \<notin> set (en_PreviousHash f)"
    and "CHR ''|'' \<notin> set (en_EventType e)" "CHR ''|'' \<notin> set (en_EventType f)"
    and "seal_input e = seal_input f"
  shows "en_PreviousHash e = en_PreviousHash f \<and> en_EventType e = en_EventType f
       \<and> rfc3339nano (en_CreatedAt e) = rfc3339nano (en_CreatedAt f)
       \<and> json_text (en_Payload e) = json_text (en_Payload f)"
proof -
  note input = assms(5) [unfolded seal_input_def seal_value_bar]
  note rest = bar_split [OF assms(1,2) input]
  note tail = bar_split [OF assms(3,4) rest [THEN conjunct2]]
  show ?thesis
    using rest tail bar_split [OF rfc3339nano_no_bar rfc3339nano_no_bar tail [THEN conjunct2]] by simp
qed

subsection \<open>The loop\<close>

text \<open>The error of one entry after a given hash, \<open>None\<close> when it is in order.\<close>

definition entry_error :: "string \<Rightarrow> Entry \<Rightarrow> go_error option" where
  "entry_error h e =
     (if en_PreviousHash e \<noteq> h then Some (ErrText ''previous hash mismatch'')
      else if \<not> json_supported (en_Payload e)
      then Some (ErrWrap ''marshal audit payload: '' (ErrText ''json: unsupported type'') [])
      else if en_RowHash e \<noteq> sha256_hex (seal_input e) then Some (ErrText ''row hash mismatch'')
      else None)"

lemma verify_from_Cons:
  "verify_from h n (e # es) =
     (case entry_error h e of Some err \<Rightarrow> (int n, Some err)
      | None \<Rightarrow> verify_from (en_RowHash e) (Suc n) es)"
  by (simp add: entry_error_def Seal_def json_marshal_def seal_input_def seal_value_def)

declare verify_from.simps(2) [simp del] verify_from_Cons [simp]

lemma entry_error_None_iff:
  "entry_error h e = None \<longleftrightarrow>
     en_PreviousHash e = h \<and> json_supported (en_Payload e) \<and> en_RowHash e = sha256_hex (seal_input e)"
  by (simp add: entry_error_def)

lemma links_entry_error:
  "sealable (e # es) \<and> entry_links h (e # es) \<longleftrightarrow>
     entry_error h e = None \<and> sealable es \<and> entry_links (en_RowHash e) es"
  by (auto simp: entry_error_None_iff)

lemma verify_from_append:
  "verify_from h n (xs @ ys) =
     (if sealable xs \<and> entry_links h xs then verify_from (last_hash en_RowHash h xs) (n + length xs) ys
      else verify_from h n xs)"
proof (induction xs arbitrary: h n)
  case (Cons e xs)
  then show ?case
    unfolding links_entry_error by (cases "entry_error h e") simp_all
qed simp

lemma verify_from_ok_iff:
  "verify_from h n es = (- 1, None) \<longleftrightarrow> sealable es \<and> entry_links h es"
proof (induction es arbitrary: h n)
  case (Cons e es)
  then show ?case
    unfolding links_entry_error by (cases "entry_error h e") simp_all
qed simp

lemma Verify_ok_iff: "Verify es = (- 1, None) \<longleftrightarrow> sealable es \<and> entry_links [] es"
  by (simp add: Verify_def verify_from_ok_iff)

lemma verify_from_break_iff:
  "verify_from h n es = (int k, Some err) \<longleftrightarrow>
     (\<exists>xs e ys. es = xs @ e # ys \<and> k = n + length xs \<and> sealable xs \<and> entry_links h xs
                \<and> entry_error (last_hash en_RowHash h xs) e = Some err)"
proof (induction es arbitrary: h n)
  case (Cons e es)
  show ?case (is "?l \<longleftrightarrow> ?r")
  proof (cases "entry_error h e")
    case None
    have "?r \<longleftrightarrow> (\<exists>xs f ys. es = xs @ f # ys \<and> k = Suc n + length xs \<and> sealable xs
                  \<and> entry_links (en_RowHash e) xs
                  \<and> entry_error (last_hash en_RowHash (en_RowHash e) xs) f = Some err)"
      (is "_ \<longleftrightarrow> ?s")
    proof
      assume ?r
      then obtain xs f ys where r: "e # es = xs @ f # ys" "k = n + length xs" "sealable xs"
        "entry_links h xs" "entry_error (last_hash en_RowHash h xs) f = Some err" by blast
      with None obtain zs where "xs = e # zs" by (cases xs) auto
      with r have "es = zs @ f # ys" "k = Suc n + length zs" "sealable zs"
        "entry_links (en_RowHash e) zs"
        "entry_error (last_hash en_RowHash (en_RowHash e) zs) f = Some err" by auto
      then show ?s by blast
    next
      assume ?s
      then obtain xs f ys where "es = xs @ f # ys" "k = Suc n + length xs" "sealable xs"
        "entry_links (en_RowHash e) xs"
        "entry_error (last_hash en_RowHash (en_RowHash e) xs) f = Some err" by blast
      with None show ?r
        by (intro exI [of _ "e # xs"] exI [of _ f] exI [of _ ys]) (simp add: entry_error_None_iff)
    qed
    with None Cons.IH show ?thesis by simp
  next
    case (Some err')
    have "xs = []" if "e # es = xs @ f # ys" "sealable xs" "entry_links h xs" for xs f ys
      using that Some by (cases xs) (auto simp: entry_error_def split: if_splits)
    with Some show ?thesis by fastforce
  qed
qed auto

lemma verify_from_shape:
  "verify_from h n es = (i, r) \<Longrightarrow> (i = - 1 \<and> r = None) \<or> (\<exists>k err. i = int k \<and> r = Some err)"
proof (induction es arbitrary: h n)
  case (Cons e es)
  show ?case
  proof (cases "entry_error h e")
    case None
    with Cons.prems have "verify_from (en_RowHash e) (Suc n) es = (i, r)" by simp
    then show ?thesis by (rule Cons.IH)
  next
    case (Some err)
    with Cons.prems show ?thesis by simp blast
  qed
qed simp

text \<open>Verified logs with the same hashed texts agree on every stored column.\<close>

lemma row_columns:
  assumes "entry_links h es" and "entry_links g fs" and "map seal_input es = map seal_input fs"
    and "list_all (\<lambda>e. CHR ''|'' \<notin> set (en_EventType e)) (es @ fs)"
    and "h \<in> insert [] (range sha256_hex)" and "g \<in> insert [] (range sha256_hex)"
  shows "map (\<lambda>e. (en_PreviousHash e, en_EventType e, rfc3339nano (en_CreatedAt e), json_text (en_Payload e), en_RowHash e)) es
       = map (\<lambda>e. (en_PreviousHash e, en_EventType e, rfc3339nano (en_CreatedAt e), json_text (en_Payload e), en_RowHash e)) fs"
  using assms
proof (induction es arbitrary: fs h g)
  case (Cons e es)
  then obtain f fs' where fs: "fs = f # fs'" and inp: "seal_input e = seal_input f"
    by (cases fs) auto
  have "CHR ''|'' \<notin> set (en_PreviousHash e)" "CHR ''|'' \<notin> set (en_PreviousHash f)"
    using Cons.prems(1,2,5,6) by (auto simp: fs intro: ac.digest_bounded)
  then have "en_PreviousHash e = en_PreviousHash f \<and> en_EventType e = en_EventType f
       \<and> rfc3339nano (en_CreatedAt e) = rfc3339nano (en_CreatedAt f)
       \<and> json_text (en_Payload e) = json_text (en_Payload f)"
    by (rule seal_input_content) (use Cons.prems(4) inp in \<open>simp_all add: fs\<close>)
  moreover have "en_RowHash e = sha256_hex (seal_input e)" "en_RowHash f = sha256_hex (seal_input f)"
    using Cons.prems(1,2) by (auto simp: fs)
  ultimately show ?case
    using Cons.IH [of "en_RowHash e" "en_RowHash f" fs'] Cons.prems by (simp add: fs inp)
qed auto

section \<open>Properties\<close>

text \<open>
  C4: the report of \<^verbatim>\<open>Verify\<close>, on every log: \<open>-1\<close> and no error exactly when every payload can be encoded,
  every row names its predecessor's hash (the first one the empty hash) and stores the hash of its own
  content; otherwise the index of the first row that is not in order, after a part of the log that is,
  with the error of that row: broken link, payload that cannot be encoded, or wrong row hash.
\<close>

theorem verify_report:
  "Verify es = (i, r) \<longleftrightarrow>
     (case r of
        None \<Rightarrow> i = - 1 \<and> sealable es \<and> entry_links [] es
      | Some err \<Rightarrow>
          (\<exists>xs e ys. es = xs @ e # ys \<and> i = int (length xs) \<and> sealable xs \<and> entry_links [] xs
                     \<and> entry_error (last_hash en_RowHash [] xs) e = Some err))"
proof (cases r)
  case None
  then show ?thesis
    using verify_from_shape [of "[]" 0 es i r] by (auto simp: Verify_def verify_from_ok_iff)
next
  case (Some err)
  have "Verify es = (i, r) \<longleftrightarrow> (\<exists>k. i = int k \<and> verify_from [] 0 es = (int k, Some err))"
    using verify_from_shape [of "[]" 0 es i r] Some by (auto simp: Verify_def)
  with Some show ?thesis by (auto simp: verify_from_break_iff)
qed

definition sample_entry :: Entry where
  "sample_entry = \<lparr>en_EventType = ''MATCH_RECORDED'', en_Payload = JObj [(''payment_id'', JStr ''pay_1'')],
     en_PreviousHash = [], en_CreatedAt = 0, en_RowHash = []\<rparr>"

text \<open>A row with its hash filled in, as \<^verbatim>\<open>Seal\<close> returns it.\<close>

definition sealed_row :: "Entry \<Rightarrow> Entry" where
  "sealed_row e = e\<lparr>en_RowHash := sha256_hex (seal_input e)\<rparr>"

definition sample_next :: Entry where
  "sample_next = sample_entry\<lparr>en_PreviousHash := sha256_hex (seal_input sample_entry)\<rparr>"

lemma seal_input_row_hash [simp]: "seal_input (e\<lparr>en_RowHash := h\<rparr>) = seal_input e"
  by (simp add: seal_input_def seal_value_def)

lemma sample_supported [simp]: "json_supported (en_Payload sample_entry)"
  by (simp add: sample_entry_def)

lemma sample_chain: "Verify [sealed_row sample_entry, sealed_row sample_next] = (- 1, None)"
  by (simp add: Verify_ok_iff sealed_row_def sample_next_def) (simp add: sample_entry_def)

text \<open>
  Appending keeps the log verifiable: an entry whose predecessor hash is the last stored hash of a
  verified log, once sealed, extends it to a verified log.
\<close>

theorem seal_append_verifies:
  assumes "Verify es = (- 1, None)" and "en_PreviousHash e = last_hash en_RowHash [] es"
    and "Seal e = Inr s"
  shows "Verify (es @ [s]) = (- 1, None)"
proof -
  have s: "json_supported (en_Payload e)" "s = e\<lparr>en_RowHash := sha256_hex (seal_input e)\<rparr>"
    using assms(3) by (simp_all add: Seal_Inr_iff)
  have "entry_links [] (es @ [s])"
    using assms(1,2) s(2) by (intro ac.extend) (simp_all add: Verify_ok_iff)
  with assms(1) s show ?thesis by (simp add: Verify_ok_iff)
qed

theorem seal_append_verifies_witness:
  "Verify ([sealed_row sample_entry] @ [sealed_row sample_next]) = (- 1, None)"
proof (rule seal_append_verifies [of _ sample_next])
  show "Verify [sealed_row sample_entry] = (- 1, None)"
    by (simp add: Verify_ok_iff sealed_row_def) (simp add: sample_entry_def)
  show "en_PreviousHash sample_next = last_hash en_RowHash [] [sealed_row sample_entry]"
    by (simp add: sample_next_def sealed_row_def)
  show "Seal sample_next = Inr (sealed_row sample_next)"
    by (simp add: Seal_Inr_iff sealed_row_def sample_next_def)
qed


definition forged_row :: Entry where
  "forged_row = (sealed_row sample_entry)\<lparr>en_EventType := ''MATCH_REVOKED''\<rparr>"




end
