(* ===== verification/Recon.thy ===== *)
theory Recon
  imports Go_Json "HOL-Library.Multiset"
begin

text \<open>
  Package \<^verbatim>\<open>internal/recon\<close>: the domain types (\<^verbatim>\<open>types.go\<close>) and the pure deterministic tiers and
  classifiers (\<^verbatim>\<open>matcher.go\<close>). The tiers share one contract, the locale \<open>unique_match\<close>: a tier
  answers exactly when a single candidate satisfies its evidence. Tier 1, Tier 2 and Tier L are its
  interpretations. \<^verbatim>\<open>levenshtein\<close> is proved to be the edit distance on ASCII identifiers, and its
  behaviour on identifiers that end in a multi-byte character is stated separately.
\<close>

section \<open>types.go\<close>

type_synonym Confidence = string

definition ConfidenceExact :: Confidence where "ConfidenceExact = ''EXACT''"
definition ConfidenceHigh :: Confidence where "ConfidenceHigh = ''HIGH''"
definition ConfidenceAdvisory :: Confidence where "ConfidenceAdvisory = ''ADVISORY_ONLY''"

definition ReasonNoCandidate :: string where "ReasonNoCandidate = ''NO_CANDIDATE_IN_WINDOW''"
definition ReasonAmbiguous :: string where "ReasonAmbiguous = ''MULTI_CANDIDATE_AMBIGUOUS''"
definition ReasonAmountMismatch :: string where
  "ReasonAmountMismatch = ''AMOUNT_MISMATCH_UNEXPLAINED''"
definition ReasonLedgerMismatch :: string where "ReasonLedgerMismatch = ''LEDGER_AMOUNT_MISMATCH''"
definition ReasonLedgerOrphan :: string where "ReasonLedgerOrphan = ''LEDGER_ORPHAN''"

lemmas confidence_defs = ConfidenceExact_def ConfidenceHigh_def ConfidenceAdvisory_def
lemmas reason_defs = ReasonNoCandidate_def ReasonAmbiguous_def ReasonAmountMismatch_def
  ReasonLedgerMismatch_def ReasonLedgerOrphan_def

record Payment =
  pay_ID :: string
  pay_OrderID :: string
  pay_AmountPaise :: int
  pay_FeePaise :: int
  pay_TaxPaise :: int
  pay_Method :: string
  pay_CapturedAt :: time
  pay_SettlementSLA :: duration

definition NetAmount :: "Payment \<Rightarrow> int" where
  "NetAmount p = wrap64 (wrap64 (pay_AmountPaise p - pay_FeePaise p) - pay_TaxPaise p)"

record SettlementLine =
  sl_ID :: string
  sl_SettlementID :: string
  sl_EntityID :: string
  sl_CreditPaise :: int
  sl_Method :: string
  sl_SettledAt :: time

record LedgerLine =
  ll_ID :: string
  ll_ReferenceID :: string
  ll_AmountPaise :: int
  ll_BookedAt :: time

record MatchResult =
  mr_PaymentID :: string
  mr_CandidateID :: string
  mr_Confidence :: Confidence
  mr_RuleID :: string
  mr_Evidence :: "(string \<times> json) list"
  mr_LedgerLineID :: string

record Exception =
  ex_RecordType :: string
  ex_RecordID :: string
  ex_ReasonCode :: string
  ex_AmountAtRiskPaise :: int
  ex_Evidence :: "(string \<times> json) list"

section \<open>matcher.go\<close>

subsection \<open>Windows\<close>

definition inFutureWindow :: "time \<Rightarrow> time \<Rightarrow> duration \<Rightarrow> bool" where
  "inFutureWindow capturedAt settledAt sla \<longleftrightarrow>
     \<not> settledAt < capturedAt \<and> \<not> settledAt > time_add capturedAt sla"

definition withinDays :: "time \<Rightarrow> time \<Rightarrow> int \<Rightarrow> bool" where
  "withinDays left right days =
     (let difference = time_sub left right;
          difference = (if difference < 0 then dur_neg difference else difference)
      in difference \<le> wrap64 (wrap64 (days * 24) * hour))"

subsection \<open>Identifier comparison\<close>

text \<open>\<^verbatim>\<open>normalize\<close>: the replacer deletes the bytes \<open>-\<close>, \<open>_\<close> and space, then lower-cases.\<close>

definition normalize :: "string \<Rightarrow> string" where
  "normalize s = to_lower (filter (\<lambda>c. c \<notin> {CHR ''-'', CHR ''_'', CHR '' ''}) s)"

text \<open>\<^verbatim>\<open>min\<close>, the package's own two-argument minimum.\<close>

definition min_int :: "nat \<Rightarrow> nat \<Rightarrow> nat" where
  "min_int left right = (if left < right then left else right)"

text \<open>
  \<^verbatim>\<open>levenshtein\<close>. The rows have one cell per byte of \<open>right\<close> plus one; the loops range over runes
  and index the rows with byte offsets.
\<close>

definition lev_cell :: "nat list \<Rightarrow> rune \<Rightarrow> nat list \<Rightarrow> nat \<times> rune \<Rightarrow> nat list" where
  "lev_cell previous leftRune current ir =
     (case ir of (rightIndex, rightRune) \<Rightarrow>
        (let cost = (if leftRune \<noteq> rightRune then 1 else 0) in
         current[rightIndex + 1 :=
           min_int (current ! rightIndex + 1)
             (min_int (previous ! (rightIndex + 1) + 1) (previous ! rightIndex + cost))]))"

definition lev_row :: "string \<Rightarrow> nat list \<Rightarrow> nat \<times> rune \<Rightarrow> nat list" where
  "lev_row right previous il =
     (case il of (leftIndex, leftRune) \<Rightarrow>
        foldl (lev_cell previous leftRune)
          ((replicate (length right + 1) 0)[0 := leftIndex + 1]) (go_range right))"

definition levenshtein :: "string \<Rightarrow> string \<Rightarrow> nat" where
  "levenshtein left right =
     foldl (lev_row right) [0 ..< length right + 1] (go_range left) ! length right"

subsection \<open>The tiers\<close>

definition tier1_ok :: "Payment \<Rightarrow> SettlementLine \<Rightarrow> bool" where
  "tier1_ok payment candidate \<longleftrightarrow>
     \<not> (sl_EntityID candidate \<noteq> pay_ID payment \<or> sl_CreditPaise candidate \<noteq> NetAmount payment)
     \<and> inFutureWindow (pay_CapturedAt payment) (sl_SettledAt candidate) (pay_SettlementSLA payment)"

definition Tier1_TryMatch :: "Payment \<Rightarrow> SettlementLine list \<Rightarrow> MatchResult option" where
  "Tier1_TryMatch payment candidates =
     (let matches = filter (tier1_ok payment) candidates in
      if length matches \<noteq> 1 then None
      else Some \<lparr>mr_PaymentID = pay_ID payment, mr_CandidateID = sl_ID (hd matches),
                 mr_Confidence = ConfidenceExact, mr_RuleID = ''TIER1_EXACT'',
                 mr_Evidence = [(''expected_net_paise'', JInt (NetAmount payment))],
                 mr_LedgerLineID = []\<rparr>)"

definition tier2_ok :: "Payment \<Rightarrow> SettlementLine \<Rightarrow> bool" where
  "tier2_ok payment candidate \<longleftrightarrow>
     \<not> (sl_CreditPaise candidate \<noteq> NetAmount payment
        \<or> \<not> inFutureWindow (pay_CapturedAt payment) (sl_SettledAt candidate) (pay_SettlementSLA payment))
     \<and> levenshtein (normalize (pay_ID payment)) (normalize (sl_EntityID candidate)) \<le> 2"

definition Tier2_TryMatch :: "Payment \<Rightarrow> SettlementLine list \<Rightarrow> MatchResult option" where
  "Tier2_TryMatch payment candidates =
     (let matches = filter (tier2_ok payment) candidates in
      if length matches \<noteq> 1 then None
      else Some \<lparr>mr_PaymentID = pay_ID payment, mr_CandidateID = sl_ID (hd matches),
                 mr_Confidence = ConfidenceHigh, mr_RuleID = ''TIER2_BOUNDED_ID'',
                 mr_Evidence = [(''distance_lte'', JInt 2)], mr_LedgerLineID = []\<rparr>)"

definition tierL_ok :: "LedgerLine \<Rightarrow> Payment \<Rightarrow> bool" where
  "tierL_ok ledger payment \<longleftrightarrow>
     ll_ReferenceID ledger = pay_OrderID payment \<and> ll_AmountPaise ledger = pay_AmountPaise payment
     \<and> withinDays (ll_BookedAt ledger) (pay_CapturedAt payment) 3"

definition TierL_TryExactMatch :: "LedgerLine \<Rightarrow> Payment list \<Rightarrow> MatchResult option" where
  "TierL_TryExactMatch ledger payments =
     (let matches = filter (tierL_ok ledger) payments in
      if length matches \<noteq> 1 then None
      else Some \<lparr>mr_PaymentID = pay_ID (hd matches), mr_CandidateID = [],
                 mr_Confidence = ConfidenceExact, mr_RuleID = ''TIERL_GROSS_EXACT'',
                 mr_Evidence = [(''gross_amount_paise'', JInt (ll_AmountPaise ledger))],
                 mr_LedgerLineID = ll_ID ledger\<rparr>)"

text \<open>\<^verbatim>\<open>TierL.Classify\<close>: the first payment that shares reference and booking window decides.\<close>

fun TierL_Classify :: "LedgerLine \<Rightarrow> Payment list \<Rightarrow> Exception" where
  "TierL_Classify ledger (payment # payments) =
     (if ll_ReferenceID ledger = pay_OrderID payment
         \<and> withinDays (ll_BookedAt ledger) (pay_CapturedAt payment) 3
      then \<lparr>ex_RecordType = ''ledger'', ex_RecordID = ll_ID ledger,
            ex_ReasonCode = ReasonLedgerMismatch, ex_AmountAtRiskPaise = ll_AmountPaise ledger,
            ex_Evidence = [(''payment_id'', JStr (pay_ID payment)),
                           (''expected_gross_paise'', JInt (pay_AmountPaise payment))]\<rparr>
      else TierL_Classify ledger payments)"
| "TierL_Classify ledger [] =
     \<lparr>ex_RecordType = ''ledger'', ex_RecordID = ll_ID ledger, ex_ReasonCode = ReasonLedgerOrphan,
      ex_AmountAtRiskPaise = ll_AmountPaise ledger, ex_Evidence = []\<rparr>"

definition plausible :: "Payment \<Rightarrow> SettlementLine \<Rightarrow> bool" where
  "plausible payment candidate \<longleftrightarrow>
     sl_CreditPaise candidate = NetAmount payment
     \<and> inFutureWindow (pay_CapturedAt payment) (sl_SettledAt candidate) (pay_SettlementSLA payment)"

definition payment_exception :: "Payment \<Rightarrow> string \<Rightarrow> (string \<times> json) list \<Rightarrow> Exception" where
  "payment_exception payment reason evidence =
     \<lparr>ex_RecordType = ''payment'', ex_RecordID = pay_ID payment, ex_ReasonCode = reason,
      ex_AmountAtRiskPaise = pay_AmountPaise payment, ex_Evidence = evidence\<rparr>"

definition ClassifyPayment :: "Payment \<Rightarrow> SettlementLine list \<Rightarrow> Exception" where
  "ClassifyPayment payment candidates =
     (let count = length (filter (plausible payment) candidates) in
      if count > 1 then payment_exception payment ReasonAmbiguous [(''candidate_count'', JInt (int count))]
      else if length candidates = 0 then payment_exception payment ReasonNoCandidate []
      else payment_exception payment ReasonAmountMismatch
             [(''expected_net_paise'', JInt (NetAmount payment))])"

section \<open>Edit distance\<close>

text \<open>
  The specification: an alignment of two words spends one unit per inserted, deleted or replaced
  letter; \<open>lev\<close> is the textbook recursion, and \<open>lev_least\<close> says that it is the least cost.
\<close>

inductive align :: "nat \<Rightarrow> 'a list \<Rightarrow> 'a list \<Rightarrow> bool" where
  align_nil: "align 0 [] []"
| align_ins: "align n xs ys \<Longrightarrow> align (Suc n) xs (y # ys)"
| align_del: "align n xs ys \<Longrightarrow> align (Suc n) (x # xs) ys"
| align_sub: "align n xs ys \<Longrightarrow> align (if x = y then n else Suc n) (x # xs) (y # ys)"

fun lev :: "'a list \<Rightarrow> 'a list \<Rightarrow> nat" where
  "lev [] ys = length ys"
| "lev (x # xs) [] = Suc (length xs)"
| "lev (x # xs) (y # ys) =
     min (Suc (lev (x # xs) ys)) (min (Suc (lev xs (y # ys))) (lev xs ys + (if x = y then 0 else 1)))"

lemma lev_Nil2 [simp]: "lev xs [] = length xs"
  by (cases xs) auto

lemma lev_step1: "lev (x # xs) ys \<le> Suc (lev xs ys)"
  by (cases ys) auto

lemma lev_step2: "lev xs (y # ys) \<le> Suc (lev xs ys)"
  by (cases xs) auto

lemma lev_le_align: "align n xs ys \<Longrightarrow> lev xs ys \<le> n"
proof (induction rule: align.induct)
  case (align_ins n xs ys y)
  then show ?case using lev_step2 [of xs y ys] by simp
next
  case (align_del n xs ys x)
  then show ?case using lev_step1 [of x xs ys] by simp
qed auto

lemma align_ins_all: "align (length ys) [] ys"
  by (induction ys) (auto intro: align.intros)

lemma align_del_all: "align (length xs) xs []"
  by (induction xs) (auto intro: align.intros)

lemma align_lev: "align (lev xs ys) xs ys"
proof (induction xs ys rule: lev.induct)
  case (3 x xs y ys)
  have "align (lev xs ys + (if x = y then 0 else 1)) (x # xs) (y # ys)"
    using align_sub [OF "3.IH"(3), of x y] by (simp split: if_splits)
  then show ?case
    using align_ins [OF "3.IH"(1), of y] align_del [OF "3.IH"(2), of x] by (simp add: min_def)
qed (auto intro: align_ins_all align_del_all[of "x # xs" for x xs, simplified])

lemma lev_least: "lev xs ys = (LEAST n. align n xs ys)"
  by (rule sym, rule Least_equality) (auto intro: align_lev lev_le_align)

lemma align_append: "align m xs ys \<Longrightarrow> align n us vs \<Longrightarrow> align (m + n) (xs @ us) (ys @ vs)"
proof (induction rule: align.induct)
  case (align_sub k xs ys x y)
  then show ?case using align.align_sub [of "k + n" "xs @ us" "ys @ vs" x y] by (simp split: if_splits)
qed (auto intro: align.intros)

lemma align_rev: "align n xs ys \<Longrightarrow> align n (rev xs) (rev ys)"
proof (induction rule: align.induct)
  case (align_ins n xs ys y)
  then show ?case using align_append [OF align_ins.IH align_ins_all [of "[y]"]] by simp
next
  case (align_del n xs ys x)
  then show ?case using align_append [OF align_del.IH align_del_all [of "[x]"]] by simp
next
  case (align_sub n xs ys x y)
  then show ?case
    using align_append [OF align_sub.IH align.align_sub [OF align_nil, of x y]] by (simp split: if_splits)
qed (simp add: align_nil)

lemma lev_rev: "lev (rev xs) (rev ys) = lev xs ys"
proof (rule antisym)
  show "lev (rev xs) (rev ys) \<le> lev xs ys"
    by (rule lev_le_align [OF align_rev [OF align_lev]])
  show "lev xs ys \<le> lev (rev xs) (rev ys)"
    using lev_le_align [OF align_rev [OF align_lev [of "rev xs" "rev ys"]]] by simp
qed

lemma lev_refl [simp]: "lev xs xs = 0"
  by (induction xs) auto

lemma lev_eq_0_iff: "lev xs ys = 0 \<longleftrightarrow> xs = ys"
  by (induction xs ys rule: lev.induct) (auto simp: min_def split: if_splits)

lemma lev_sym: "lev xs ys = lev ys xs"
  by (induction xs ys rule: lev.induct) (auto simp: min.left_commute)

lemma lev_length_diff: "length xs - length ys \<le> lev xs ys"
  by (induction xs ys rule: lev.induct) (auto simp: min_def)

text \<open>The rows of the table are the distances of the prefixes.\<close>

definition dist_row :: "'a list \<Rightarrow> 'a list \<Rightarrow> nat \<Rightarrow> nat list" where
  "dist_row ra R k = map (\<lambda>j. lev ra (rev (take j R))) [0 ..< Suc k]"

lemma min_int_min [simp]: "min_int a b = min a b"
  by (simp add: min_int_def)

lemma foldl_lev_cell:
  assumes "k \<le> length R"
  shows "foldl (lev_cell (dist_row ra R (length R)) x)
           ((replicate (Suc (length R)) 0)[0 := Suc (length ra)]) (take k (zip [0 ..< length R] R))
         = dist_row (x # ra) R k @ replicate (length R - k) 0"
  using assms
proof (induction k)
  case 0
  then show ?case by (simp add: dist_row_def)
next
  case (Suc k)
  let ?prev = "dist_row ra R (length R)"
  let ?cur = "dist_row (x # ra) R k"
  have k: "k < length R" using Suc.prems by simp
  then have tk: "take (Suc k) (zip [0 ..< length R] R) = take k (zip [0 ..< length R] R) @ [(k, R ! k)]"
    by (simp add: take_Suc_conv_app_nth)
  have len: "length ?cur = Suc k" by (simp add: dist_row_def)
  have prev: "?prev ! k = lev ra (rev (take k R))" "?prev ! Suc k = lev ra (R ! k # rev (take k R))"
    using k by (auto simp: dist_row_def take_Suc_conv_app_nth nth_append simp del: upt_Suc)
  have curk: "(?cur @ zs) ! k = lev (x # ra) (rev (take k R))" for zs
    by (simp add: dist_row_def nth_append del: upt_Suc)
  obtain m where m: "length R - k = Suc m" using k by (metis Suc_diff_Suc)
  have "lev_cell ?prev x (?cur @ replicate (length R - k) 0) (k, R ! k)
        = (?cur @ 0 # replicate m 0)[Suc k := lev (x # ra) (R ! k # rev (take k R))]"
    by (simp add: lev_cell_def Let_def prev curk m)
  also have "\<dots> = ?cur @ lev (x # ra) (rev (take (Suc k) R)) # replicate m 0"
    using k by (simp add: list_update_append len take_Suc_conv_app_nth)
  also have "\<dots> = dist_row (x # ra) R (Suc k) @ replicate (length R - Suc k) 0"
    using m by (simp add: dist_row_def)
  finally show ?case using Suc k by (simp add: tk)
qed

lemma lev_row_dist_row:
  assumes "is_ascii right"
  shows "lev_row right (dist_row ra (map of_char right) (length right)) (length ra, x)
         = dist_row (x # ra) (map of_char right) (length right)"
  using foldl_lev_cell [of "length right" "map of_char right" ra x] assms
  by (simp add: lev_row_def go_range_ascii)

lemma foldl_lev_row:
  assumes "is_ascii right"
  shows "foldl (lev_row right) (dist_row (rev pre) (map of_char right) (length right))
           (zip [length pre ..< length pre + length L] L)
         = dist_row (rev (pre @ L)) (map of_char right) (length right)"
proof (induction L arbitrary: pre)
  case Nil
  then show ?case by simp
next
  case (Cons x L)
  have "lev_row right (dist_row (rev pre) (map of_char right) (length right)) (length pre, x)
        = dist_row (rev (pre @ [x])) (map of_char right) (length right)"
    using lev_row_dist_row [OF assms, of "rev pre" x] by simp
  then show ?case
    using Cons.IH [of "pre @ [x]"] by (simp add: upt_conv_Cons del: upt_Suc)
qed

lemma levenshtein_lev:
  assumes "is_ascii left" and "is_ascii right"
  shows "levenshtein left right = lev left right"
proof -
  let ?R = "map byte_of right" and ?L = "map byte_of left"
  have init: "[0 ..< length right + 1] = dist_row [] ?R (length right)"
    by (rule nth_equalityI) (auto simp: dist_row_def simp del: upt_Suc)
  have "levenshtein left right = dist_row (rev ?L) ?R (length right) ! length right"
    using foldl_lev_row [OF assms(2), of "[]" ?L] assms(1)
    unfolding levenshtein_def init by (simp add: go_range_ascii)
  also have "\<dots> = lev (rev ?L) (rev ?R)"
    by (simp add: dist_row_def del: upt_Suc)
  also have "\<dots> = lev ?L ?R" by (rule lev_rev)
  also have "\<dots> = lev left right"
  proof -
    have "lev (map byte_of xs) (map byte_of ys) = lev xs ys" for xs ys
      by (induction xs ys rule: lev.induct) auto
    then show ?thesis .
  qed
  finally show ?thesis .
qed

subsection \<open>Multi-byte characters\<close>

lemma range_from_Cons:
  "bs \<noteq> [] \<Longrightarrow> range_from off bs
     = (off, fst (decode_rune bs)) # range_from (off + snd (decode_rune bs)) (drop (snd (decode_rune bs)) bs)"
  by (subst range_from.simps) (simp add: Let_def split: prod.splits)

lemma range_from_ge: "(o', r) \<in> set (range_from off bs) \<Longrightarrow> off \<le> o'"
proof (induction off bs rule: range_from.induct)
  case (1 off bs)
  show ?case
  proof (cases "bs = []")
    case False
    then show ?thesis
      using "1.IH" [OF False refl prod.collapse] "1.prems" by (auto simp: range_from_Cons [OF False])
  qed (use 1 in simp)
qed

lemma sorted_range_from: "sorted_wrt (<) (map fst (range_from off bs))"
proof (induction off bs rule: range_from.induct)
  case (1 off bs)
  show ?case
  proof (cases "bs = []")
    case False
    let ?w = "snd (decode_rune bs)"
    have "\<forall>p \<in> set (range_from (off + ?w) (drop ?w bs)). off < fst p"
      using decode_rune_width [OF False] range_from_ge [of _ _ "off + ?w" "drop ?w bs"] by fastforce
    moreover have "sorted_wrt (<) (map fst (range_from (off + ?w) (drop ?w bs)))"
      using 1 False by (metis prod.collapse)
    ultimately show ?thesis by (simp add: range_from_Cons [OF False])
  qed simp
qed

lemma range_from_last:
  "bs \<noteq> [] \<Longrightarrow> p \<in> set (range_from off bs) \<Longrightarrow> fst p \<le> fst (last (range_from off bs))"
proof -
  assume "bs \<noteq> []" and p: "p \<in> set (range_from off bs)"
  then have ne: "range_from off bs \<noteq> []" by auto
  from p obtain i where i: "i < length (range_from off bs)" "range_from off bs ! i = p"
    by (auto simp: in_set_conv_nth)
  let ?n = "length (range_from off bs)"
  have "map fst (range_from off bs) ! i \<le> map fst (range_from off bs) ! (?n - 1)"
  proof (cases "i = ?n - 1")
    case False
    then have "i < ?n - 1" using i by simp
    then show ?thesis
      using sorted_wrt_nth_less [OF sorted_range_from, of i "?n - 1" off bs] i
      by (simp add: less_imp_le)
  qed simp
  then show ?thesis using i ne by (simp add: last_conv_nth)
qed

lemma length_lev_cell [simp]: "length (lev_cell prev x cur ir) = length cur"
  by (simp add: lev_cell_def Let_def split: prod.splits)

lemma length_foldl_lev_cell [simp]: "length (foldl (lev_cell prev x) cur irs) = length cur"
  by (induction irs arbitrary: cur) auto

lemma length_lev_row [simp]: "length (lev_row right prev il) = Suc (length right)"
  by (simp add: lev_row_def split: prod.splits)

lemma foldl_lev_cell_untouched:
  "\<forall>ir \<in> set irs. Suc (fst ir) \<noteq> p \<Longrightarrow> foldl (lev_cell prev x) cur irs ! p = cur ! p"
  by (induction irs arbitrary: cur) (auto simp: lev_cell_def Let_def split: prod.splits)

lemma lev_row_untouched:
  assumes "\<forall>ir \<in> set (go_range right). Suc (fst ir) \<noteq> p" and "0 < p" and "p \<le> length right"
  shows "lev_row right prev il ! p = 0"
  using assms by (cases il) (simp add: lev_row_def foldl_lev_cell_untouched)

lemma foldl_lev_cell_match:
  assumes "distinct (map fst irs)" and "(i, x) \<in> set irs" and "prev ! i = 0" and "Suc i < length cur"
  shows "foldl (lev_cell prev x) cur irs ! Suc i = 0"
  using assms
proof (induction irs arbitrary: cur)
  case (Cons ir irs)
  show ?case
  proof (cases "ir = (i, x)")
    case True
    have "\<forall>ir \<in> set irs. Suc (fst ir) \<noteq> Suc i"
      using Cons.prems(1) True by force
    then have "foldl (lev_cell prev x) (lev_cell prev x cur ir) irs ! Suc i
               = lev_cell prev x cur ir ! Suc i"
      by (rule foldl_lev_cell_untouched)
    also have "\<dots> = 0"
      using True Cons.prems by (simp add: lev_cell_def Let_def)
    finally show ?thesis by simp
  qed (use Cons in auto)
qed simp

lemma distinct_go_range: "distinct (map fst (go_range s))"
  using sorted_range_from strict_sorted_iff unfolding go_range_def by blast

lemma lev_row_match:
  assumes "(i, x) \<in> set (go_range right)" and "prev ! i = 0" and "i < length right"
  shows "lev_row right prev (i', x) ! Suc i = 0"
  using assms foldl_lev_cell_match [OF distinct_go_range assms(1,2)] by (simp add: lev_row_def)

text \<open>Along the diagonal of a word against itself the cell of the next offset stays 0.\<close>

lemma foldl_lev_row_self:
  assumes "go_range s = pre @ range_from off bs" and "off + length bs = length s"
    and "\<forall>p \<in> set pre. fst p < off" and "prev ! off = 0"
  shows "foldl (lev_row s) prev (range_from off bs) ! length s = 0"
  using assms
proof (induction off bs arbitrary: pre prev rule: range_from.induct)
  case (1 off bs)
  show ?case
  proof (cases "bs = []")
    case True
    then show ?thesis using "1.prems" by simp
  next
    case False
    note prems = "1.prems"
    define r w where rw: "r = fst (decode_rune bs)" "w = snd (decode_rune bs)"
    let ?rest = "range_from (off + w) (drop w bs)"
    have dr: "decode_rune bs = (r, w)" by (simp add: rw)
    have w: "1 \<le> w" "w \<le> length bs" using decode_rune_width [OF False] by (auto simp: rw)
    have eq: "range_from off bs = (off, r) # ?rest"
      using range_from_Cons [OF False, of off] by (simp add: rw)
    have off: "off < length s" "off + w \<le> length s" using w "1.prems"(2) by auto
    have next0: "lev_row s prev (off, r) ! (off + w) = 0"
    proof (cases "w = 1")
      case True
      then show ?thesis
        using lev_row_match [of off r s prev off] "1.prems"(1,4) eq off by simp
    next
      case w1: False
      have "Suc (fst ir) \<noteq> off + w" if "ir \<in> set (go_range s)" for ir
      proof -
        from that "1.prems"(1) eq consider "ir \<in> set pre" | "ir = (off, r)" | "ir \<in> set ?rest"
          by auto
        then show ?thesis
        proof cases
          case 1
          with prems(3) have "fst ir < off" by blast
          then show ?thesis using w by simp
        next
          case 2
          then show ?thesis using w w1 by simp
        next
          case 3
          then show ?thesis using range_from_ge [of "fst ir" "snd ir" "off + w" "drop w bs"] by simp
        qed
      qed
      then show ?thesis using off w by (intro lev_row_untouched) auto
    qed
    have "foldl (lev_row s) (lev_row s prev (off, r)) ?rest ! length s = 0"
    proof (rule "1.IH" [OF False dr [symmetric] refl, where pre = "pre @ [(off, r)]"])
      show "go_range s = (pre @ [(off, r)]) @ ?rest" using "1.prems"(1) eq by simp
      show "off + w + length (drop w bs) = length s" using "1.prems"(2) w by simp
      show "\<forall>p \<in> set (pre @ [(off, r)]). fst p < off + w" using "1.prems"(3) w by fastforce
      show "lev_row s prev (off, r) ! (off + w) = 0" by (rule next0)
    qed
    then show ?thesis by (simp add: eq)
  qed
qed

lemma levenshtein_refl: "levenshtein s s = 0"
proof -
  have "foldl (lev_row s) [0 ..< length s + 1] (range_from 0 (map of_char s)) ! length s = 0"
    by (rule foldl_lev_row_self [where pre = "[]"]) (auto simp: go_range_def simp del: upt_Suc)
  then show ?thesis by (simp add: levenshtein_def go_range_def)
qed


lemma levenshtein_multibyte_end:
  assumes "left \<noteq> []" and "right \<noteq> []" and "fst (last (go_range right)) + 1 < length right"
  shows "levenshtein left right = 0"
proof -
  have ne: "map byte_of left \<noteq> []" "map byte_of right \<noteq> []" using assms by auto
  then obtain rs il where rs: "go_range left = rs @ [il]"
    unfolding go_range_def by (metis range_from_Cons list.distinct(1) rev_exhaust)
  have "\<forall>ir \<in> set (go_range right). Suc (fst ir) \<noteq> length right"
    using range_from_last [OF ne(2)] assms(3) unfolding go_range_def by fastforce
  then have "lev_row right prev il ! length right = 0" for prev
    using assms(2) by (intro lev_row_untouched) auto
  then show ?thesis by (simp add: levenshtein_def rs)
qed

section \<open>The contract of a tier\<close>

text \<open>
  Every tier filters its candidates by a predicate on the evidence and answers only when exactly one
  is left. From that law: soundness, ambiguity refusal, independence of candidate order, and
  irrelevance of candidates that fail the evidence.
\<close>

lemma only_mset: "mset xs = mset ys \<Longrightarrow> only xs = only ys"
proof -
  assume eq: "mset xs = mset ys"
  then have len: "length xs = length ys" by (rule mset_eq_length)
  show "only xs = only ys"
  proof (cases "length xs = 1")
    case True
    with len obtain x y where "xs = [x]" "ys = [y]"
      by (metis One_nat_def length_0_conv length_Suc_conv)
    with eq show ?thesis by simp
  next
    case False
    with len show ?thesis by (metis only_None_iff)
  qed
qed

locale unique_match =
  fixes ok :: "'q \<Rightarrow> 'c \<Rightarrow> bool"
    and try_match :: "'q \<Rightarrow> 'c list \<Rightarrow> 'r option"
    and outcome :: "'q \<Rightarrow> 'c \<Rightarrow> 'r"
  assumes try_match_only: "try_match q cs = map_option (outcome q) (only (filter (ok q) cs))"
begin

lemma match_iff: "try_match q cs = Some r \<longleftrightarrow> (\<exists>c. filter (ok q) cs = [c] \<and> r = outcome q c)"
  by (auto simp: try_match_only only_Some_iff)

lemma no_match_iff: "try_match q cs = None \<longleftrightarrow> length (filter (ok q) cs) \<noteq> 1"
  by (simp add: try_match_only only_None_iff)

lemma match_sound:
  assumes "try_match q cs = Some r"
  obtains c where "c \<in> set cs" "ok q c" "r = outcome q c" "\<And>d. d \<in> set cs \<Longrightarrow> ok q d \<Longrightarrow> d = c"
proof -
  from assms obtain c where c: "filter (ok q) cs = [c]" "r = outcome q c"
    by (auto simp: match_iff)
  note u = filter_singleton_unique [OF c(1)]
  show ?thesis by (rule that [OF u(2) u(1) c(2) u(3)])
qed

lemma order_irrelevant: "mset cs = mset ds \<Longrightarrow> try_match q cs = try_match q ds"
proof -
  assume "mset cs = mset ds"
  then have "mset (filter (ok q) cs) = mset (filter (ok q) ds)" by simp
  then have "only (filter (ok q) cs) = only (filter (ok q) ds)" by (rule only_mset)
  then show "try_match q cs = try_match q ds" unfolding try_match_only by (rule arg_cong)
qed

lemma ambiguous_refused:
  "i < j \<Longrightarrow> j < length cs \<Longrightarrow> ok q (cs ! i) \<Longrightarrow> ok q (cs ! j) \<Longrightarrow> try_match q cs = None"
proof -
  assume ij: "i < j" "j < length cs" and oks: "ok q (cs ! i)" "ok q (cs ! j)"
  have "cs = take j cs @ cs ! j # drop (Suc j) cs"
    using ij by (simp add: id_take_nth_drop)
  then have "length (filter (ok q) cs) = length (filter (ok q) (take j cs)) + 1
               + length (filter (ok q) (drop (Suc j) cs))"
    using oks(2) by (metis (no_types, lifting) add.assoc filter.simps(2) filter_append length_Cons
        length_append plus_1_eq_Suc)
  moreover have "cs ! i \<in> set (filter (ok q) (take j cs))"
    using ij oks by (auto simp: in_set_conv_nth intro: exI [of _ i])
  then have "filter (ok q) (take j cs) \<noteq> []" by (metis empty_iff list.set(1))
  ultimately have "length (filter (ok q) cs) \<noteq> 1" by simp
  then show ?thesis by (simp add: no_match_iff)
qed

end

definition tier1_result :: "Payment \<Rightarrow> SettlementLine \<Rightarrow> MatchResult" where
  "tier1_result p c =
     \<lparr>mr_PaymentID = pay_ID p, mr_CandidateID = sl_ID c, mr_Confidence = ConfidenceExact,
      mr_RuleID = ''TIER1_EXACT'', mr_Evidence = [(''expected_net_paise'', JInt (NetAmount p))],
      mr_LedgerLineID = []\<rparr>"

definition tier2_result :: "Payment \<Rightarrow> SettlementLine \<Rightarrow> MatchResult" where
  "tier2_result p c =
     \<lparr>mr_PaymentID = pay_ID p, mr_CandidateID = sl_ID c, mr_Confidence = ConfidenceHigh,
      mr_RuleID = ''TIER2_BOUNDED_ID'', mr_Evidence = [(''distance_lte'', JInt 2)],
      mr_LedgerLineID = []\<rparr>"

definition tierL_result :: "LedgerLine \<Rightarrow> Payment \<Rightarrow> MatchResult" where
  "tierL_result l p =
     \<lparr>mr_PaymentID = pay_ID p, mr_CandidateID = [], mr_Confidence = ConfidenceExact,
      mr_RuleID = ''TIERL_GROSS_EXACT'',
      mr_Evidence = [(''gross_amount_paise'', JInt (ll_AmountPaise l))],
      mr_LedgerLineID = ll_ID l\<rparr>"

lemmas tier_results = tier1_result_def tier2_result_def tierL_result_def

lemma only_hd: "map_option f (only xs) = (if length xs \<noteq> 1 then None else Some (f (hd xs)))"
  by (cases xs rule: only.cases) auto

interpretation t1: unique_match tier1_ok Tier1_TryMatch tier1_result
  by unfold_locales (simp add: Tier1_TryMatch_def tier1_result_def only_hd)

interpretation t2: unique_match tier2_ok Tier2_TryMatch tier2_result
  by unfold_locales (simp add: Tier2_TryMatch_def tier2_result_def only_hd)

interpretation tL: unique_match tierL_ok TierL_TryExactMatch tierL_result
  by unfold_locales (simp add: TierL_TryExactMatch_def tierL_result_def only_hd)

section \<open>Amounts and windows\<close>

lemma wrap64_diff: "wrap64 (wrap64 a - b) = wrap64 (a - b)"
  unfolding wrap64_cong_iff by (metis mod_diff_left_eq wrap64_mod)

lemma NetAmount_wrap:
  "NetAmount p = wrap64 (pay_AmountPaise p - pay_FeePaise p - pay_TaxPaise p)"
  by (simp add: NetAmount_def wrap64_diff)

lemma NetAmount_exact:
  "is_int64 (pay_AmountPaise p - pay_FeePaise p - pay_TaxPaise p) \<Longrightarrow>
   NetAmount p = pay_AmountPaise p - pay_FeePaise p - pay_TaxPaise p"
  by (simp add: NetAmount_wrap wrap64_id)

lemma inFutureWindow_iff: "inFutureWindow c s d \<longleftrightarrow> c \<le> s \<and> s \<le> c + d"
  by (auto simp: inFutureWindow_def time_add_def)

lemma day_limit: "0 \<le> d \<Longrightarrow> d \<le> 106751 \<Longrightarrow> wrap64 (wrap64 (d * 24) * hour) = d * day"
  by (simp add: wrap64_id int64_defs time_defs)

lemma withinDays_exact:
  assumes "0 \<le> d" and "d \<le> 106751" and "min_int64 < l - r" and "l - r \<le> max_int64"
  shows "withinDays l r d \<longleftrightarrow> \<bar>l - r\<bar> \<le> d * day"
proof -
  have sub: "time_sub l r = l - r"
    using assms by (simp add: time_sub_def)
  have "is_int64 (- (l - r))" using assms by (simp add: int64_defs)
  then have neg: "dur_neg (l - r) = - (l - r)"
    by (simp add: dur_neg_def wrap64_id)
  show ?thesis
    by (simp add: withinDays_def Let_def day_limit [OF assms(1,2)] sub neg)
qed

lemma withinDays_3: "withinDays l r 3 \<longleftrightarrow> \<bar>l - r\<bar> \<le> 3 * day \<or> l - r \<le> min_int64"
proof -
  consider "l - r \<le> min_int64" | "min_int64 < l - r" "l - r \<le> max_int64" | "max_int64 < l - r"
    by linarith
  then show ?thesis
  proof cases
    case 1
    then have "time_sub l r = min_int64" by (simp add: time_sub_def int64_defs)
    moreover have "dur_neg min_int64 = min_int64" by (simp add: dur_neg_def int64_defs)
    ultimately show ?thesis
      using 1 by (simp add: withinDays_def Let_def day_limit) (simp add: int64_defs time_defs)
  next
    case 2
    then show ?thesis using withinDays_exact [of 3 l r] by simp
  next
    case 3
    then have "time_sub l r = max_int64" by (simp add: time_sub_def int64_defs)
    then show ?thesis
      using 3 by (simp add: withinDays_def Let_def day_limit) (simp add: int64_defs time_defs)
  qed
qed

lemma tier1_ok_iff:
  "tier1_ok p c \<longleftrightarrow> sl_EntityID c = pay_ID p \<and> plausible p c"
  by (auto simp: tier1_ok_def plausible_def)

lemma tier2_ok_iff:
  "tier2_ok p c \<longleftrightarrow>
     plausible p c \<and> levenshtein (normalize (pay_ID p)) (normalize (sl_EntityID c)) \<le> 2"
  by (auto simp: tier2_ok_def plausible_def)

lemma tier1_imp_tier2: "tier1_ok p c \<Longrightarrow> tier2_ok p c"
  by (simp add: tier1_ok_iff tier2_ok_iff levenshtein_refl)

section \<open>Properties\<close>

definition sample_payment :: Payment where
  "sample_payment =
     \<lparr>pay_ID = ''pay_1'', pay_OrderID = ''order_1'', pay_AmountPaise = 100000, pay_FeePaise = 2000,
      pay_TaxPaise = 360, pay_Method = ''card'', pay_CapturedAt = 0, pay_SettlementSLA = 4 * day\<rparr>"

definition sample_line :: SettlementLine where
  "sample_line =
     \<lparr>sl_ID = ''7'', sl_SettlementID = [], sl_EntityID = ''pay_1'', sl_CreditPaise = 97640,
      sl_Method = ''card'', sl_SettledAt = day\<rparr>"

definition sample_ledger :: LedgerLine where
  "sample_ledger =
     \<lparr>ll_ID = ''3'', ll_ReferenceID = ''order_1'', ll_AmountPaise = 100000, ll_BookedAt = day\<rparr>"

lemmas sample_defs = sample_payment_def sample_line_def sample_ledger_def


text \<open>
  When Tier 1 and Tier 2 both answer for a payment and the same candidates, they name the
  same settlement line: the fuzzy tier never contradicts the exact one.
\<close>

theorem tier1_tier2_agree:
  assumes "Tier1_TryMatch p cs = Some r1" and "Tier2_TryMatch p cs = Some r2"
  shows "mr_CandidateID r2 = mr_CandidateID r1"
proof -
  obtain c where c: "c \<in> set cs" "tier1_ok p c" "r1 = tier1_result p c"
    using assms(1) by (rule t1.match_sound)
  obtain d where d: "r2 = tier2_result p d" "\<And>e. e \<in> set cs \<Longrightarrow> tier2_ok p e \<Longrightarrow> e = d"
    using assms(2) by (rule t2.match_sound) blast
  have "c = d" using c d(2) tier1_imp_tier2 by blast
  with c(3) d(1) show ?thesis by (simp add: tier_results)
qed

theorem tier1_tier2_agree_witness:
  "mr_CandidateID (the (Tier2_TryMatch sample_payment [sample_line]))
   = mr_CandidateID (the (Tier1_TryMatch sample_payment [sample_line]))"
proof -
  have ok: "tier1_ok sample_payment sample_line"
    by (simp add: tier1_ok_def sample_defs NetAmount_def wrap64_def inFutureWindow_def time_defs)
  then have "Tier1_TryMatch sample_payment [sample_line] = Some (tier1_result sample_payment sample_line)"
    and "Tier2_TryMatch sample_payment [sample_line] = Some (tier2_result sample_payment sample_line)"
    using tier1_imp_tier2 [OF ok] by (simp_all add: t1.match_iff t2.match_iff)
  from tier1_tier2_agree [OF this] this show ?thesis by simp
qed

text \<open>
  C7: the order in which candidates are loaded never changes a decision: both settlement tiers and
  the exception classifier give the same result on any permutation of the candidates.
\<close>

theorem decision_order_independent:
  assumes "mset cs = mset ds"
  shows "Tier1_TryMatch p cs = Tier1_TryMatch p ds
       \<and> Tier2_TryMatch p cs = Tier2_TryMatch p ds
       \<and> ClassifyPayment p cs = ClassifyPayment p ds"
proof -
  have "length (filter (plausible p) cs) = length (filter (plausible p) ds)"
    using assms by (metis mset_filter size_mset)
  moreover have "length cs = length ds" using assms by (rule mset_eq_length)
  ultimately have "ClassifyPayment p cs = ClassifyPayment p ds"
    unfolding ClassifyPayment_def by simp
  then show ?thesis
    using t1.order_irrelevant [OF assms] t2.order_irrelevant [OF assms] by simp
qed

theorem decision_order_independent_witness:
  "Tier1_TryMatch sample_payment [sample_line, sample_line\<lparr>sl_EntityID := ''pay_9''\<rparr>]
   = Tier1_TryMatch sample_payment [sample_line\<lparr>sl_EntityID := ''pay_9''\<rparr>, sample_line]"
  using decision_order_independent
    [of "[sample_line, sample_line\<lparr>sl_EntityID := ''pay_9''\<rparr>]"
        "[sample_line\<lparr>sl_EntityID := ''pay_9''\<rparr>, sample_line]" sample_payment]
  by (simp add: add_mset_commute)

text \<open>
  C8: on ASCII identifiers \<^verbatim>\<open>levenshtein\<close> computes the edit distance: the least number of inserted,
  deleted or replaced characters over all alignments of the two identifiers.
\<close>

theorem levenshtein_edit_distance:
  assumes "is_ascii left" and "is_ascii right"
  shows "levenshtein left right = (LEAST n. align n left right)"
  using levenshtein_lev [OF assms] by (simp add: lev_least)

theorem levenshtein_edit_distance_witness:
  "levenshtein ''pay123'' ''pya12'' = (LEAST n. align n ''pay123'' ''pya12'')"
  by (rule levenshtein_edit_distance) (simp_all add: is_ascii_def)

text \<open>
  C14: when the normalized entity identifier of a settlement line ends in a character of two or more
  bytes, Tier 2 ignores the identifier altogether: any payment with a nonempty normalized identifier,
  the right amount and the right window is accepted, because the last cell of the distance table is
  never written.
\<close>

theorem tier2_ignores_multibyte_identifier:
  assumes "normalize (pay_ID p) \<noteq> []" and "normalize (sl_EntityID c) \<noteq> []"
    and "fst (last (go_range (normalize (sl_EntityID c)))) + 1 < length (normalize (sl_EntityID c))"
  shows "tier2_ok p c \<longleftrightarrow> plausible p c"
  using levenshtein_multibyte_end [OF assms] by (simp add: tier2_ok_iff)

definition accented_line :: SettlementLine where
  "accented_line = sample_line\<lparr>sl_EntityID := ''refund_caf'' @ [CHR 0xC3, CHR 0xA9]\<rparr>"

lemma go_range_accented:
  "go_range (''refundcaf'' @ [CHR 0xC3, CHR 0xA9])
   = zip [0 ..< 9] (map of_char ''refundcaf'') @ [(9, 233)]"
  by (simp add: go_range_def range_from.simps decode_rune_def in_range_def upt_rec)

lemma lower_accented: "unicode_lower 233 = 233"
  by (simp add: unicode_lower_def lower_ranges_def in_range_def)

lemma normalize_accented: "normalize (sl_EntityID accented_line) = ''refundcaf'' @ [CHR 0xC3, CHR 0xA9]"
proof -
  have "filter (\<lambda>c. c \<notin> {CHR ''-'', CHR ''_'', CHR '' ''}) (sl_EntityID accented_line)
        = ''refundcaf'' @ [CHR 0xC3, CHR 0xA9]"
    by (simp add: accented_line_def)
  moreover have "\<not> is_ascii (''refundcaf'' @ [CHR 0xC3, CHR 0xA9])"
    by simp
  ultimately show ?thesis
    by (simp only: normalize_def to_lower_def go_range_accented)
       (simp add: lower_accented encode_rune_def unicode_lower_ascii in_range_def upt_rec char_of_def bit_Suc_0_iff)
qed

theorem tier2_ignores_multibyte_identifier_witness:
  "tier2_ok sample_payment accented_line"
proof -
  have "plausible sample_payment accented_line"
    by (simp add: plausible_def accented_line_def sample_defs NetAmount_def wrap64_def
        inFutureWindow_def time_defs)
  moreover have "normalize (pay_ID sample_payment) \<noteq> []"
    by (simp add: normalize_def sample_payment_def to_lower_def)
  ultimately show ?thesis
    using tier2_ignores_multibyte_identifier [of sample_payment accented_line]
    by (simp only: normalize_accented go_range_accented) simp
qed

text \<open>
  The booking-window test of Tier L accepts a pair of timestamps exactly when they are at most
  three days apart, or when the ledger timestamp lies so far in the past of the other that the
  difference saturates: its absolute value then overflows to a negative duration.
\<close>

theorem withinDays_three_iff:
  "withinDays left right 3 \<longleftrightarrow> \<bar>left - right\<bar> \<le> 3 * day \<or> left - right \<le> min_int64"
  by (rule withinDays_3)

text \<open>
  The payment classifier on every branch: ambiguity is reported exactly when two or more
  candidates fit amount and window, a missing candidate exactly when none was loaded, an amount
  mismatch otherwise; the amount at risk is always the gross amount of the payment.
\<close>

theorem classify_payment_cases:
  "(ex_ReasonCode (ClassifyPayment p cs) = ReasonAmbiguous \<longleftrightarrow> 2 \<le> length (filter (plausible p) cs))
   \<and> (ex_ReasonCode (ClassifyPayment p cs) = ReasonNoCandidate \<longleftrightarrow> cs = [])
   \<and> (ex_ReasonCode (ClassifyPayment p cs) = ReasonAmountMismatch \<longleftrightarrow>
        cs \<noteq> [] \<and> length (filter (plausible p) cs) \<le> 1)
   \<and> ex_RecordType (ClassifyPayment p cs) = ''payment''
   \<and> ex_RecordID (ClassifyPayment p cs) = pay_ID p
   \<and> ex_AmountAtRiskPaise (ClassifyPayment p cs) = pay_AmountPaise p"
  by (auto simp: ClassifyPayment_def payment_exception_def reason_defs Let_def)

text \<open>
  A payment whose single plausible candidate has exactly the expected net amount inside the
  window, but an identifier Tier 2 cannot recover, is logged as an unexplained amount mismatch.
\<close>

theorem amount_mismatch_with_equal_amount:
  assumes "filter (plausible p) cs = [c]" and "Tier2_TryMatch p cs = None"
  shows "ex_ReasonCode (ClassifyPayment p cs) = ReasonAmountMismatch
       \<and> sl_CreditPaise c = NetAmount p \<and> Tier1_TryMatch p cs = None"
proof -
  note u = filter_singleton_unique [OF assms(1)]
  have "cs \<noteq> []" using u(2) by auto
  then have "ex_ReasonCode (ClassifyPayment p cs) = ReasonAmountMismatch"
    using assms(1) by (simp add: ClassifyPayment_def payment_exception_def)
  moreover have "Tier1_TryMatch p cs = None"
  proof (rule ccontr)
    assume "Tier1_TryMatch p cs \<noteq> None"
    then obtain r where r: "Tier1_TryMatch p cs = Some r" by blast
    obtain d where d: "d \<in> set cs" "tier1_ok p d" using r by (rule t1.match_sound)
    have fit: "plausible p x" if "tier2_ok p x" for x using that by (simp add: tier2_ok_iff)
    have "filter (tier2_ok p) cs = filter (tier2_ok p) (filter (plausible p) cs)"
      using fit by (simp add: conj_commute) (metis (mono_tags, lifting) filter_cong)
    also have "\<dots> = [c]"
      using d u(3) tier1_imp_tier2 [OF d(2)] fit by (auto simp: assms(1))
    finally show False using assms(2) by (simp add: t2.no_match_iff)
  qed
  ultimately show ?thesis using u(1) by (simp add: plausible_def)
qed

lemma TierL_Classify_reason:
  "ex_ReasonCode (TierL_Classify l ps)
   = (if \<exists>p \<in> set ps. ll_ReferenceID l = pay_OrderID p \<and> withinDays (ll_BookedAt l) (pay_CapturedAt p) 3
      then ReasonLedgerMismatch else ReasonLedgerOrphan)"
  by (induction l ps rule: TierL_Classify.induct) (auto simp: reason_defs)

text \<open>
  A ledger line is reported as an orphan exactly when no payment shares its reference inside
  the booking window, and then Tier L has refused it too; the record, type and amount at risk of the
  exception are those of the line.
\<close>

theorem ledger_orphan_iff:
  "(ex_ReasonCode (TierL_Classify l ps) = ReasonLedgerOrphan \<longleftrightarrow>
      filter (\<lambda>p. ll_ReferenceID l = pay_OrderID p
                   \<and> withinDays (ll_BookedAt l) (pay_CapturedAt p) 3) ps = []
      \<and> TierL_TryExactMatch l ps = None)
   \<and> ex_RecordType (TierL_Classify l ps) = ''ledger'' \<and> ex_RecordID (TierL_Classify l ps) = ll_ID l
   \<and> ex_AmountAtRiskPaise (TierL_Classify l ps) = ll_AmountPaise l"
proof -
  have "ex_RecordType (TierL_Classify l ps) = ''ledger'' \<and> ex_RecordID (TierL_Classify l ps) = ll_ID l
        \<and> ex_AmountAtRiskPaise (TierL_Classify l ps) = ll_AmountPaise l"
    by (induction l ps rule: TierL_Classify.induct) auto
  moreover have "TierL_TryExactMatch l ps = None"
    if "ex_ReasonCode (TierL_Classify l ps) = ReasonLedgerOrphan"
  proof -
    from that have none: "\<not> tierL_ok l p" if "p \<in> set ps" for p
      using that by (auto simp: TierL_Classify_reason tierL_ok_def reason_defs split: if_splits)
    then have "filter (tierL_ok l) ps = []" by (simp add: filter_empty_conv)
    then show ?thesis by (simp add: tL.no_match_iff)
  qed
  ultimately show ?thesis
    by (auto simp: TierL_Classify_reason filter_empty_conv reason_defs split: if_splits)
qed

text \<open>
  A ledger line that two or more payments fit exactly (reference, gross amount and window) is
  refused by Tier L and logged as a ledger amount mismatch, although every amount agrees.
\<close>

theorem ledger_ambiguity_misreported:
  assumes "2 \<le> length (filter (tierL_ok l) ps)"
  shows "TierL_TryExactMatch l ps = None
       \<and> ex_ReasonCode (TierL_Classify l ps) = ReasonLedgerMismatch"
proof -
  obtain p where "p \<in> set ps" "tierL_ok l p"
    using assms filter_empty_conv [of "tierL_ok l" ps] by fastforce
  then have "ex_ReasonCode (TierL_Classify l ps) = ReasonLedgerMismatch"
    by (auto simp: TierL_Classify_reason tierL_ok_def)
  then show ?thesis using assms by (simp add: tL.no_match_iff)
qed

theorem ledger_ambiguity_misreported_witness:
  "ex_ReasonCode (TierL_Classify sample_ledger [sample_payment, sample_payment\<lparr>pay_ID := ''pay_2''\<rparr>])
   = ReasonLedgerMismatch"
proof -
  have "2 \<le> length (filter (tierL_ok sample_ledger)
                [sample_payment, sample_payment\<lparr>pay_ID := ''pay_2''\<rparr>])"
    by (simp add: tierL_ok_def sample_defs withinDays_3 time_defs)
  then show ?thesis by (rule ledger_ambiguity_misreported [THEN conjunct2])
qed

theorem amount_mismatch_with_equal_amount_witness:
  "ex_ReasonCode (ClassifyPayment sample_payment [sample_line\<lparr>sl_EntityID := ''settlement_9''\<rparr>])
   = ReasonAmountMismatch"
proof -
  let ?c = "sample_line\<lparr>sl_EntityID := ''settlement_9''\<rparr>"
  have fit: "filter (plausible sample_payment) [?c] = [?c]"
    by (simp add: plausible_def sample_defs NetAmount_def wrap64_def inFutureWindow_def time_defs)
  have norm: "normalize (pay_ID sample_payment) = ''pay1''" "normalize (sl_EntityID ?c) = ''settlement9''"
    by (simp_all add: sample_defs normalize_def to_lower_def lower_char_def in_range_def)
  have "levenshtein ''pay1'' ''settlement9'' = lev ''settlement9'' ''pay1''"
    by (subst levenshtein_lev, simp, simp) (rule lev_sym)
  moreover have "7 \<le> lev ''settlement9'' ''pay1''"
    using lev_length_diff [of "''settlement9''" "''pay1''"] by (simp del: lev.simps)
  ultimately have "2 < levenshtein (normalize (pay_ID sample_payment)) (normalize (sl_EntityID ?c))"
    unfolding norm by linarith
  then have "\<not> tier2_ok sample_payment ?c"
    unfolding tier2_ok_iff by linarith
  then have "Tier2_TryMatch sample_payment [?c] = None"
    by (simp add: t2.no_match_iff)
  from amount_mismatch_with_equal_amount [OF fit this] show ?thesis by simp
qed

end
