(* ===== verification/Store_Rows.thy ===== *)
theory Store_Rows
  imports Audit_Log Recon
begin

text \<open>
  Package \<^verbatim>\<open>internal/store\<close>, the parts shared by both stores: the row types of \<^verbatim>\<open>store.go\<close> and the
  append-only guard of \<^verbatim>\<open>guard.go\<close>. A nil \<^verbatim>\<open>json.RawMessage\<close> or a nil pointer is \<open>None\<close>; an action of a
  store is a state transformer that returns its error, \<open>None\<close> for nil. The locale \<open>ingest_store\<close> is the
  contract of the interface \<^verbatim>\<open>IngestStore\<close>, stated against the abstract tables \<open>ingest_view\<close>.
\<close>

section \<open>store.go\<close>

record RawEvent =
  re_Source :: string
  re_ExternalID :: string
  re_EventType :: string
  re_IdempotencyKey :: string
  re_Payload :: string
  re_ReceivedAt :: time

record PaymentRow =
  pr_PaymentID :: string
  pr_OrderID :: string
  pr_AmountPaise :: int
  pr_FeePaise :: int
  pr_TaxPaise :: int
  pr_Currency :: string
  pr_Method :: string
  pr_Status :: string
  pr_CapturedAt :: "time option"
  pr_SourceEventAt :: time

record SettlementRow =
  sr_SettlementID :: string
  sr_EntityID :: string
  sr_LineType :: string
  sr_PaymentMethod :: string
  sr_CreditPaise :: int
  sr_DebitPaise :: int
  sr_FeePaise :: int
  sr_TaxPaise :: int
  sr_SettledAt :: time

record BankRow =
  br_ReferenceID :: string
  br_CreditPaise :: int
  br_BookedAt :: time

record LedgerRow =
  lr_ReferenceID :: string
  lr_AmountPaise :: int
  lr_BookedAt :: time

record Counts =
  ct_RawEvents :: nat
  ct_Payments :: nat
  ct_Settlements :: nat
  ct_BankLines :: nat
  ct_LedgerLines :: nat

record PaymentCandidate =
  pc_PaymentID :: string
  pc_OrderID :: string
  pc_AmountPaise :: int
  pc_FeePaise :: int
  pc_TaxPaise :: int
  pc_Method :: string
  pc_CapturedAt :: time

record SettlementCandidate =
  sc_ID :: int
  sc_EntityID :: string
  sc_CreditPaise :: int
  sc_Method :: string
  sc_SettledAt :: time

record LedgerCandidate =
  lc_ID :: int
  lc_ReferenceID :: string
  lc_AmountPaise :: int
  lc_BookedAt :: time

record MatchResultRow =
  mw_MatchGroupID :: string
  mw_RecordType :: string
  mw_RecordID :: string
  mw_Confidence :: string
  mw_RuleID :: string
  mw_EvidenceJSON :: "string option"
  mw_CreatedAt :: time

record ExceptionRow =
  xr_RecordType :: string
  xr_RecordID :: string
  xr_ReasonCode :: string
  xr_AmountAtRiskPaise :: int
  xr_EvidenceJSON :: "string option"
  xr_CreatedAt :: time

record AuditEntryRow =
  ae_EventType :: string
  ae_PayloadJSON :: "string option"
  ae_CreatedAt :: time

record AIExplanationLogRow =
  ai_ExceptionID :: int
  ai_PromptVersion :: string
  ai_Model :: string
  ai_InputSummaryJSON :: "string option"
  ai_OutputText :: string
  ai_LatencyMS :: int
  ai_Succeeded :: bool
  ai_ErrorMessage :: string
  ai_CreatedAt :: time

record ExceptionRecord =
  er_ID :: int
  er_RecordType :: string
  er_RecordID :: string
  er_ReasonCode :: string
  er_AmountAtRiskPaise :: int
  er_EvidenceJSON :: string
  er_ResolvedAt :: "time option"
  er_CreatedAt :: time

text \<open>The position of a row in the listing of exceptions: amount at risk, then identifier.\<close>

datatype ExceptionCursor = ExceptionCursor (cur_AmountAtRiskPaise: int) (cur_ID: int)

instantiation ExceptionCursor :: linorder
begin

fun less_eq_ExceptionCursor :: "ExceptionCursor \<Rightarrow> ExceptionCursor \<Rightarrow> bool" where
  "less_eq_ExceptionCursor (ExceptionCursor a i) (ExceptionCursor b j) \<longleftrightarrow> a < b \<or> a = b \<and> i \<le> j"

fun less_ExceptionCursor :: "ExceptionCursor \<Rightarrow> ExceptionCursor \<Rightarrow> bool" where
  "less_ExceptionCursor (ExceptionCursor a i) (ExceptionCursor b j) \<longleftrightarrow> a < b \<or> a = b \<and> i < j"

instance
proof
  fix x y z :: ExceptionCursor
  show "x < y \<longleftrightarrow> x \<le> y \<and> \<not> y \<le> x" by (cases x; cases y) auto
  show "x \<le> x" by (cases x) auto
  show "x \<le> y \<Longrightarrow> y \<le> z \<Longrightarrow> x \<le> z" by (cases x; cases y; cases z) auto
  show "x \<le> y \<Longrightarrow> y \<le> x \<Longrightarrow> x = y" by (cases x; cases y) auto
  show "x \<le> y \<or> y \<le> x" by (cases x; cases y) auto
qed

end

record WhyNotSettledRow =
  wn_ReasonCode :: string
  wn_EvidenceJSON :: string
  wn_AmountAtRiskPaise :: int
  wn_ResolvedAt :: "time option"

record ReasonAggregateRow =
  ra_ReasonCode :: string
  ra_TotalAtRiskPaise :: int
  ra_Count :: nat

text \<open>The match rate is carried in units of one ten-thousandth, the scale of SQL's average.\<close>

record MethodMatchRateRow =
  mm_Method :: string
  mm_MatchRate :: int

section \<open>guard.go\<close>

definition appendOnlyTables :: "string list" where
  "appendOnlyTables = [''raw_events'', ''match_results'', ''audit_log'']"

definition mutationTargetsTable :: "string \<Rightarrow> string \<Rightarrow> bool" where
  "mutationTargetsTable normalizedQuery table =
     (let tokens = [''update '' @ table @ '' '', ''update '' @ table,
                    ''from '' @ table @ '' '', ''from '' @ table]
      in list_ex (contains normalizedQuery) tokens
         \<or> contains normalizedQuery ('' '' @ table @ '' '') \<or> suffix ('' '' @ table) normalizedQuery)"

fun first_target :: "string \<Rightarrow> string list \<Rightarrow> go_error option" where
  "first_target normalized [] = None"
| "first_target normalized (table # tables) =
     (if mutationTargetsTable normalized table then Some (ErrWrap [] ErrAppendOnly ('': '' @ table))
      else first_target normalized tables)"

definition GuardMutation :: "string \<Rightarrow> go_error option" where
  "GuardMutation query =
     (let normalized = remove_byte (CHR 0x60) (to_lower (trim_space query));
          isUpdate = prefix ''update'' normalized;
          isDelete = prefix ''delete'' normalized
      in if \<not> isUpdate \<and> \<not> isDelete then None else first_target normalized appendOnlyTables)"

lemma first_target_Some_iff:
  "(\<exists>err. first_target q ts = Some err) \<longleftrightarrow> (\<exists>t \<in> set ts. mutationTargetsTable q t)"
  by (induction ts) auto

lemma first_target_error:
  "first_target q ts = Some err \<Longrightarrow> errors_is err ErrAppendOnly"
  by (induction ts) (auto split: if_splits)

lemma mutationTargetsTable_iff:
  "mutationTargetsTable q t \<longleftrightarrow>
     contains q (''update '' @ t) \<or> contains q (''from '' @ t) \<or> contains q ('' '' @ t @ '' '')
     \<or> suffix ('' '' @ t) q"
proof -
  have "contains q (w @ t)" if "contains q (w @ t @ '' '')" for w
    using that by (auto simp: contains_iff)
  from this [of "''update ''"] this [of "''from ''"] show ?thesis
    by (auto simp: mutationTargetsTable_def)
qed

section \<open>Actions\<close>

type_synonym 's act = "'s \<Rightarrow> go_error option \<times> 's"

text \<open>\<^verbatim>\<open>if err := a(); err != nil { return err }; return b()\<close>.\<close>

definition act_then :: "'s act \<Rightarrow> 's act \<Rightarrow> 's act" where
  "act_then a b s = (case a s of (Some err, s') \<Rightarrow> (Some err, s') | (None, s') \<Rightarrow> b s')"

lemma act_then_None_iff:
  "act_then a b s = (None, s') \<longleftrightarrow> (\<exists>t. a s = (None, t) \<and> b t = (None, s'))"
  by (auto simp: act_then_def split: prod.splits option.splits)

text \<open>A \<^verbatim>\<open>range\<close> loop whose body returns on the first error.\<close>

fun for_each :: "('a \<Rightarrow> 's act) \<Rightarrow> 'a list \<Rightarrow> 's act" where
  "for_each f [] s = (None, s)"
| "for_each f (x # xs) s = act_then (f x) (for_each f xs) s"

text \<open>A loop that succeeds has established the goal of every element, if later steps keep it.\<close>

lemma for_each_all:
  assumes "for_each f xs s = (None, s')" and "P s"
    and step: "\<And>x t t'. x \<in> set xs \<Longrightarrow> P t \<Longrightarrow> f x t = (None, t') \<Longrightarrow> P t' \<and> Q x t'"
    and keep: "\<And>x y t t'. y \<in> set xs \<Longrightarrow> P t \<Longrightarrow> f y t = (None, t') \<Longrightarrow> Q x t \<Longrightarrow> Q x t'"
  shows "P s' \<and> (\<forall>x \<in> set xs. Q x s')"
proof -
  have "P s' \<and> (\<forall>x \<in> set ys \<union> zs. Q x s')"
    if "for_each f ys s = (None, s')" "P s" "\<forall>x \<in> zs. Q x s" "set ys \<subseteq> set xs" for ys zs s
    using that
  proof (induction ys arbitrary: s zs)
    case (Cons y ys)
    then obtain t where t: "f y s = (None, t)" "for_each f ys t = (None, s')"
      by (auto simp: act_then_None_iff)
    have y: "y \<in> set xs" using Cons.prems(4) by simp
    have "P t" "Q y t" using step [OF y Cons.prems(2) t(1)] by auto
    moreover have "\<forall>x \<in> zs. Q x t" using keep [OF y Cons.prems(2) t(1)] Cons.prems(3) by blast
    ultimately have "P s' \<and> (\<forall>x \<in> set ys \<union> insert y zs. Q x s')"
      using Cons.IH [of t "insert y zs"] t(2) Cons.prems(4) by simp
    then show ?case by auto
  qed simp
  from this [of xs s "{}"] assms(1,2) show ?thesis by simp
qed

text \<open>Wrapping the error of an action: \<^verbatim>\<open>fmt.Errorf(pre + "%w", err)\<close>.\<close>

definition wrap_err :: "string \<Rightarrow> 's act \<Rightarrow> 's act" where
  "wrap_err pre a s = (case a s of (Some err, s') \<Rightarrow> (Some (ErrWrap pre err []), s') | (None, s') \<Rightarrow> (None, s'))"

lemma wrap_err_None_iff [simp]: "wrap_err pre a s = (None, s') \<longleftrightarrow> a s = (None, s')"
  by (auto simp: wrap_err_def split: prod.splits option.splits)

lemma snd_wrap_err [simp]: "snd (wrap_err pre a s) = snd (a s)"
  by (auto simp: wrap_err_def split: prod.splits option.splits)

text \<open>
  Two forms of reasoning about actions: \<open>keeps P a\<close>, the action keeps \<open>P\<close> whatever it returns, and
  \<open>on_success P a Q\<close>, from \<open>P\<close> a run without error ends in \<open>Q\<close>.
\<close>

definition keeps :: "('s \<Rightarrow> bool) \<Rightarrow> 's act \<Rightarrow> bool" where
  "keeps P a \<longleftrightarrow> (\<forall>s. P s \<longrightarrow> P (snd (a s)))"

definition on_success :: "('s \<Rightarrow> bool) \<Rightarrow> 's act \<Rightarrow> ('s \<Rightarrow> bool) \<Rightarrow> bool" where
  "on_success P a Q \<longleftrightarrow> (\<forall>s s'. P s \<longrightarrow> a s = (None, s') \<longrightarrow> Q s')"

lemma keepsI: "(\<And>s r s'. P s \<Longrightarrow> a s = (r, s') \<Longrightarrow> P s') \<Longrightarrow> keeps P a"
  unfolding keeps_def by (metis surjective_pairing)

lemma keepsD: "keeps P a \<Longrightarrow> P s \<Longrightarrow> a s = (r, s') \<Longrightarrow> P s'"
  unfolding keeps_def by (metis snd_conv)

lemma on_successD: "on_success P a Q \<Longrightarrow> P s \<Longrightarrow> a s = (None, s') \<Longrightarrow> Q s'"
  unfolding on_success_def by blast

lemma keeps_act_then [keeps_rules]: "keeps P a \<Longrightarrow> keeps P b \<Longrightarrow> keeps P (act_then a b)"
  by (auto simp: keeps_def act_then_def split: prod.splits option.splits)

lemma keeps_wrap_err [keeps_rules]: "keeps P a \<Longrightarrow> keeps P (wrap_err pre a)"
  by (simp add: keeps_def)

lemma keeps_for_each [keeps_rules]: "(\<And>x. x \<in> set xs \<Longrightarrow> keeps P (f x)) \<Longrightarrow> keeps P (for_each f xs)"
proof (induction xs)
  case (Cons x xs)
  then have "keeps P (act_then (f x) (for_each f xs))" by (intro keeps_act_then) simp_all
  then show ?case by (simp add: keeps_def)
qed (simp add: keeps_def)

lemma on_success_then:
  "on_success P a Q \<Longrightarrow> on_success Q b R \<Longrightarrow> on_success P (act_then a b) R"
  unfolding on_success_def by (metis act_then_None_iff)

lemma on_success_wrap_err: "on_success P a Q \<Longrightarrow> on_success P (wrap_err pre a) Q"
  by (simp add: on_success_def)

lemma on_success_keeps: "keeps P a \<Longrightarrow> on_success P a P"
  unfolding on_success_def by (blast dest: keepsD)

lemma on_success_then_keeps: "on_success P a Q \<Longrightarrow> keeps Q b \<Longrightarrow> on_success P (act_then a b) Q"
  by (rule on_success_then [OF _ on_success_keeps])

lemma on_success_for_each:
  "(\<And>x. x \<in> set xs \<Longrightarrow> on_success P (f x) P) \<Longrightarrow> on_success P (for_each f xs) P"
proof (induction xs)
  case (Cons x xs)
  then have "on_success P (act_then (f x) (for_each f xs)) P"
    by (intro on_success_then [of P _ P]) simp_all
  then show ?case by (simp add: on_success_def)
qed (simp add: on_success_def)

section \<open>The contract of an ingest store\<close>

text \<open>The interface \<^verbatim>\<open>IngestStore\<close>, over the state \<open>'s\<close> of the store; the argument of \<open>is_InTx\<close> is the
  closure run inside the transaction.\<close>

record 's IngestStore =
  is_InTx :: "'s act \<Rightarrow> 's act"
  is_InsertRawEvent :: "RawEvent \<Rightarrow> 's act"
  is_InsertPayment :: "PaymentRow \<Rightarrow> 's act"
  is_InsertSettlement :: "SettlementRow \<Rightarrow> 's act"
  is_InsertBankLine :: "BankRow \<Rightarrow> 's act"
  is_InsertLedgerLine :: "LedgerRow \<Rightarrow> 's act"
  is_Count :: "'s \<Rightarrow> Counts result \<times> 's"

text \<open>
  The abstract tables: partial maps from the unique key of a row to the stored row. Raw events refuse
  a second row with the same key; the normalized tables keep the first row.
\<close>

record 'k ingest_view =
  iv_raw :: "string \<rightharpoonup> RawEvent"
  iv_payments :: "string \<rightharpoonup> PaymentRow"
  iv_settlements :: "'k \<rightharpoonup> SettlementRow"
  iv_banks :: "string \<rightharpoonup> BankRow"
  iv_ledgers :: "string \<rightharpoonup> LedgerRow"

definition keep_first :: "'k \<Rightarrow> 'v \<Rightarrow> ('k \<rightharpoonup> 'v) \<Rightarrow> ('k \<rightharpoonup> 'v)" where
  "keep_first k v m = (if m k = None then m(k \<mapsto> v) else m)"

lemma keep_first_idem [simp]: "keep_first k v (keep_first k w m) = keep_first k w m"
  by (auto simp: keep_first_def)

lemma map_le_keep_first: "m \<subseteq>\<^sub>m keep_first k v m"
  by (auto simp: keep_first_def map_le_def)

text \<open>
  The contract: \<open>key\<close> and \<open>skey\<close> are the store's notion of equal keys, the \<open>row\<close> functions what it keeps of
  a row. An action that reports an error leaves the tables as they were, and a transaction takes effect
  as a whole or not at all.
\<close>

locale ingest_store =
  fixes st :: "'s IngestStore"
    and view :: "'s \<Rightarrow> 'k ingest_view"
    and key :: "string \<Rightarrow> string"
    and skey :: "SettlementRow \<Rightarrow> 'k"
    and raw_row :: "RawEvent \<Rightarrow> RawEvent"
    and pay_row :: "PaymentRow \<Rightarrow> PaymentRow"
    and set_row :: "SettlementRow \<Rightarrow> SettlementRow"
    and bank_row :: "BankRow \<Rightarrow> BankRow"
    and led_row :: "LedgerRow \<Rightarrow> LedgerRow"
  assumes raw_ok: "is_InsertRawEvent st ev s = (None, s') \<Longrightarrow>
        iv_raw (view s) (key (re_IdempotencyKey ev)) = None
        \<and> view s' = (view s)\<lparr>iv_raw := (iv_raw (view s))(key (re_IdempotencyKey ev) \<mapsto> raw_row ev)\<rparr>"
    and raw_err: "is_InsertRawEvent st ev s = (Some e, s') \<Longrightarrow> view s' = view s"
    and pay_ok: "is_InsertPayment st p s = (None, s') \<Longrightarrow>
        view s' = (view s)\<lparr>iv_payments := keep_first (key (pr_PaymentID p)) (pay_row p) (iv_payments (view s))\<rparr>"
    and pay_err: "is_InsertPayment st p s = (Some e, s') \<Longrightarrow> view s' = view s"
    and set_ok: "is_InsertSettlement st l s = (None, s') \<Longrightarrow>
        view s' = (view s)\<lparr>iv_settlements := keep_first (skey l) (set_row l) (iv_settlements (view s))\<rparr>"
    and set_err: "is_InsertSettlement st l s = (Some e, s') \<Longrightarrow> view s' = view s"
    and bank_ok: "is_InsertBankLine st b s = (None, s') \<Longrightarrow>
        view s' = (view s)\<lparr>iv_banks := keep_first (key (br_ReferenceID b)) (bank_row b) (iv_banks (view s))\<rparr>"
    and bank_err: "is_InsertBankLine st b s = (Some e, s') \<Longrightarrow> view s' = view s"
    and led_ok: "is_InsertLedgerLine st g s = (None, s') \<Longrightarrow>
        view s' = (view s)\<lparr>iv_ledgers := keep_first (key (lr_ReferenceID g)) (led_row g) (iv_ledgers (view s))\<rparr>"
    and led_err: "is_InsertLedgerLine st g s = (Some e, s') \<Longrightarrow> view s' = view s"
    and tx_ok: "is_InTx st f s = (None, s') \<Longrightarrow>
        \<exists>t t'. view t = view s \<and> f t = (None, t') \<and> view s' = view t'"
    and tx_err: "is_InTx st f s = (Some e, s') \<Longrightarrow> view s' = view s"

section \<open>Properties of the guard\<close>

text \<open>
  C13: the append-only guard refuses every plain mutation of a history table, whatever its letter case,
  surrounding white space or backquotes: a statement that reads \<^verbatim>\<open>UPDATE <table>...\<close> or
  \<^verbatim>\<open>DELETE FROM <table>...\<close> after normalization is rejected with \<^verbatim>\<open>ErrAppendOnly\<close>.
\<close>

theorem guard_rejects_history_mutation:
  assumes "t \<in> set appendOnlyTables"
    and "remove_byte (CHR 0x60) (to_lower (trim_space q)) \<in> {''update '' @ t @ r, ''delete from '' @ t @ r}"
  shows "\<exists>err. GuardMutation q = Some err \<and> errors_is err ErrAppendOnly"
proof -
  let ?n = "remove_byte (CHR 0x60) (to_lower (trim_space q))"
  have "contains ?n (''update '' @ t) \<or> contains ?n (''from '' @ t)"
  proof (cases "?n = ''update '' @ t @ r")
    case True
    then have "?n = [] @ (''update '' @ t) @ r" by simp
    then show ?thesis unfolding contains_iff by blast
  next
    case False
    with assms(2) have "?n = ''delete '' @ (''from '' @ t) @ r" by simp
    then show ?thesis unfolding contains_iff by blast
  qed
  then have "mutationTargetsTable ?n t" by (auto simp: mutationTargetsTable_iff)
  with assms(1) obtain err where "first_target ?n appendOnlyTables = Some err"
    using first_target_Some_iff by blast
  moreover have "prefix ''update'' ?n \<or> prefix ''delete'' ?n" using assms(2) by auto
  ultimately show ?thesis
    using first_target_error by (auto simp: GuardMutation_def Let_def)
qed

theorem guard_rejects_history_mutation_witness:
  "\<exists>err. GuardMutation ''DELETE FROM `Audit_Log` WHERE id=1'' = Some err \<and> errors_is err ErrAppendOnly"
  by (rule guard_rejects_history_mutation [of "''audit_log''" _ "'' where id=1''"])
     (simp_all add: ascii_eval appendOnlyTables_def)

text \<open>
  The guard is a text filter, and three statements that do change history pass it: a delete that
  qualifies the table with its schema, a \<^verbatim>\<open>REPLACE\<close> and a \<^verbatim>\<open>TRUNCATE\<close>.
\<close>

theorem guard_misses_mutations:
  "GuardMutation ''DELETE FROM settletrace.audit_log WHERE id=1'' = None
   \<and> GuardMutation ''REPLACE INTO audit_log VALUES (1)'' = None
   \<and> GuardMutation ''TRUNCATE TABLE audit_log'' = None"
proof (intro conjI)
  have "remove_byte (CHR 0x60) (to_lower (trim_space ''DELETE FROM settletrace.audit_log WHERE id=1''))
        = ''delete from settletrace.audit_log where id=1''"
    by (simp add: ascii_eval)
  then show "GuardMutation ''DELETE FROM settletrace.audit_log WHERE id=1'' = None"
    by (simp add: GuardMutation_def appendOnlyTables_def mutationTargetsTable_iff suffix_to_prefix)
  have "remove_byte (CHR 0x60) (to_lower (trim_space ''REPLACE INTO audit_log VALUES (1)''))
        = ''replace into audit_log values (1)''"
    by (simp add: ascii_eval)
  then show "GuardMutation ''REPLACE INTO audit_log VALUES (1)'' = None"
    by (simp add: GuardMutation_def)
  have "remove_byte (CHR 0x60) (to_lower (trim_space ''TRUNCATE TABLE audit_log''))
        = ''truncate table audit_log''"
    by (simp add: ascii_eval)
  then show "GuardMutation ''TRUNCATE TABLE audit_log'' = None"
    by (simp add: GuardMutation_def)
qed

end
