(* ===== verification/Go_Decode.thy ===== *)
theory Go_Decode
  imports Go_Json Go_Time
begin

text \<open>
  The readers of the standard library that ingestion uses: \<^verbatim>\<open>encoding/json\<close> into raw members
  (\<^verbatim>\<open>map[string]json.RawMessage\<close>), into a string and into an \<^verbatim>\<open>int64\<close>; the compaction \<^verbatim>\<open>json.Marshal\<close> applies
  to a raw message; \<^verbatim>\<open>encoding/csv\<close> with its default settings; \<^verbatim>\<open>time.Parse(time.RFC3339, _)\<close>;
  \<^verbatim>\<open>hex.DecodeString\<close>; \<^verbatim>\<open>strings.EqualFold\<close> against ASCII letters and \<^verbatim>\<open>%q\<close>.

  A reader that fails gives an error; the position details of the library's messages are left out. In
  \<^verbatim>\<open>%q\<close> every well-formed character beyond ASCII counts as printable.
\<close>

section \<open>Raw JSON\<close>

text \<open>Raw values keep number literals as they are: the conversion of literals is the identity.\<close>

definition json_valid :: "string \<Rightarrow> bool" where
  "json_valid s = (case parse_value Some 0 s of None \<Rightarrow> False | Some (v, r) \<Rightarrow> skip_ws r = [])"

text \<open>The text of the value at the head of the input, without surrounding space, and the rest.\<close>

definition raw_value :: "nat \<Rightarrow> string \<Rightarrow> (string \<times> string) option" where
  "raw_value d s =
     (let t = skip_ws s in
      map_option (\<lambda>(v, r). (take (length t - length r) t, r)) (parse_value Some d t))"

function raw_elems :: "nat \<Rightarrow> string \<Rightarrow> (string list \<times> string) option" where
  "raw_elems d s =
     (case raw_value d s of
        None \<Rightarrow> None
      | Some (v, r) \<Rightarrow>
          (case skip_ws r of
             c # r' \<Rightarrow>
               if c = CHR '']'' then Some ([v], r')
               else if c = CHR '','' \<and> length r' < length s
               then map_option (\<lambda>(vs, q). (v # vs, q)) (raw_elems d r') else None
           | [] \<Rightarrow> None))"
  by pat_completeness auto
termination
  by (relation "measure (\<lambda>(d, s). length s)") auto

declare raw_elems.simps [simp del]

function raw_members :: "nat \<Rightarrow> string \<Rightarrow> ((string \<times> string) list \<times> string) option" where
  "raw_members d s =
     (case skip_ws s of
        c # r \<Rightarrow>
          if c \<noteq> CHR 0x22 then None
          else (case scan_string r of
                  None \<Rightarrow> None
                | Some (k, r1) \<Rightarrow>
                    (case skip_ws r1 of
                       x # r2 \<Rightarrow>
                         if x \<noteq> CHR '':'' then None
                         else (case raw_value d r2 of
                                 None \<Rightarrow> None
                               | Some (v, r3) \<Rightarrow>
                                   (case skip_ws r3 of
                                      y # r4 \<Rightarrow>
                                        if y = CHR ''}'' then Some ([(k, v)], r4)
                                        else if y = CHR '','' \<and> length r4 < length s
                                        then map_option (\<lambda>(vs, q). ((k, v) # vs, q)) (raw_members d r4)
                                        else None
                                    | [] \<Rightarrow> None))
                     | [] \<Rightarrow> None))
      | [] \<Rightarrow> None)"
  by pat_completeness auto
termination
  by (relation "measure (\<lambda>(d, s). length s)") auto

declare raw_members.simps [simp del]

type_synonym raw_object = "(string \<times> string) list"

definition json_error :: "'a result" where
  "json_error = Inl (ErrText ''json: cannot unmarshal'')"

text \<open>\<^verbatim>\<open>json.Unmarshal(s, &object)\<close> with \<^verbatim>\<open>object map[string]json.RawMessage\<close>; \<^verbatim>\<open>null\<close> is the nil map.\<close>

definition unmarshal_raw_object :: "string \<Rightarrow> raw_object result" where
  "unmarshal_raw_object s =
     (if \<not> json_valid s then json_error
      else (case skip_ws s of
              c # r \<Rightarrow>
                if c = CHR ''{'' then
                  (case skip_ws r of
                     x # r' \<Rightarrow> if x = CHR ''}'' then Inr []
                               else (case raw_members 1 r of
                                       None \<Rightarrow> json_error
                                     | Some (kvs, q) \<Rightarrow> Inr (last_wins kvs))
                   | [] \<Rightarrow> json_error)
                else if c = CHR ''n'' then Inr [] else json_error
            | [] \<Rightarrow> json_error))"

text \<open>A loop that stops at the first error.\<close>

fun map_result :: "('a \<Rightarrow> 'b result) \<Rightarrow> 'a list \<Rightarrow> 'b list result" where
  "map_result f [] = Inr []"
| "map_result f (x # xs) =
     (case f x of
        Inl err \<Rightarrow> Inl err
      | Inr y \<Rightarrow> (case map_result f xs of Inl err \<Rightarrow> Inl err | Inr ys \<Rightarrow> Inr (y # ys)))"

text \<open>\<^verbatim>\<open>json.Unmarshal(s, &objects)\<close> with \<^verbatim>\<open>objects []map[string]json.RawMessage\<close>.\<close>

definition unmarshal_raw_objects :: "string \<Rightarrow> raw_object list result" where
  "unmarshal_raw_objects s =
     (if \<not> json_valid s then json_error
      else (case skip_ws s of
              c # r \<Rightarrow>
                if c = CHR ''['' then
                  (case skip_ws r of
                     x # r' \<Rightarrow> if x = CHR '']'' then Inr []
                               else (case raw_elems 1 r of
                                       None \<Rightarrow> json_error
                                     | Some (vs, q) \<Rightarrow> map_result unmarshal_raw_object vs)
                   | [] \<Rightarrow> json_error)
                else if c = CHR ''n'' then Inr [] else json_error
            | [] \<Rightarrow> json_error))"

text \<open>Into a string and into an \<^verbatim>\<open>int64\<close>; \<^verbatim>\<open>null\<close> leaves the zero value.\<close>

definition unmarshal_string :: "string \<Rightarrow> string result" where
  "unmarshal_string s =
     (if \<not> json_valid s then json_error
      else (case parse_value Some 0 s of
              Some (JStr t, r) \<Rightarrow> Inr t
            | Some (JNull, r) \<Rightarrow> Inr []
            | _ \<Rightarrow> json_error))"

definition unmarshal_int64 :: "string \<Rightarrow> int result" where
  "unmarshal_int64 s =
     (if \<not> json_valid s then json_error
      else (case parse_value Some 0 s of
              Some (JNum l, r) \<Rightarrow> (case parse_int64 l of Inl err \<Rightarrow> json_error | Inr i \<Rightarrow> Inr i)
            | Some (JNull, r) \<Rightarrow> Inr 0
            | _ \<Rightarrow> json_error))"

text \<open>
  Compaction of a valid raw message: space outside strings is dropped, HTML characters and the line
  separators U+2028 and U+2029 are escaped. The flags: inside a string, after a backslash.
\<close>

fun compact_from :: "bool \<Rightarrow> bool \<Rightarrow> string \<Rightarrow> string" where
  "compact_from ins esc [] = []"
| "compact_from ins esc (c # s) =
     (let out = (if c \<in> {CHR ''<'', CHR ''>'', CHR ''&''} then unicode_escape (byte_of c) else [c]);
          rest = (if \<not> ins then compact_from (c = CHR 0x22) False s
                  else if esc then compact_from True False s
                  else compact_from (c \<noteq> CHR 0x22) (c = CHR 0x5C) s)
      in if \<not> ins \<and> is_json_space c then compact_from False False s
         else (case s of
                 d # e # s' \<Rightarrow>
                   if c = CHR 0xE2 \<and> d = CHR 0x80 \<and> e \<in> {CHR 0xA8, CHR 0xA9}
                   then unicode_escape (8232 + (byte_of e - 168)) @ compact_from ins False s'
                   else out @ rest
               | _ \<Rightarrow> out @ rest))"

definition json_compact :: "string \<Rightarrow> string" where
  "json_compact s = compact_from False False s"

text \<open>\<^verbatim>\<open>json.Marshal(object)\<close> for a map of raw messages.\<close>

definition marshal_raw_object :: "raw_object \<Rightarrow> string result" where
  "marshal_raw_object object =
     (if list_all (\<lambda>(k, v). json_valid v) object
      then Inr (CHR ''{'' # commas (map snd (sort_key fst
             (map (\<lambda>(k, v). (k, json_string k @ CHR '':'' # json_compact v)) object))) @ ''}'')
      else Inl (ErrText ''json: error calling MarshalJSON for type json.RawMessage''))"

section \<open>Texts\<close>

text \<open>\<^verbatim>\<open>strings.EqualFold(s, t)\<close> for a \<open>t\<close> of ASCII letters other than K and S, which fold only in ASCII.\<close>

definition equal_fold :: "string \<Rightarrow> string \<Rightarrow> bool" where
  "equal_fold s t \<longleftrightarrow> map lower_char s = map lower_char t"

text \<open>\<^verbatim>\<open>strings.Trim(s, cutset)\<close> for one byte.\<close>

definition trim_byte :: "char \<Rightarrow> string \<Rightarrow> string" where
  "trim_byte b s = rev (dropWhile (\<lambda>c. c = b) (rev (dropWhile (\<lambda>c. c = b) s)))"

text \<open>\<^verbatim>\<open>%q\<close>.\<close>

definition quote_rune :: "nat list \<Rightarrow> nat \<Rightarrow> nat \<Rightarrow> string" where
  "quote_rune bs r w =
     (if r = rune_error \<and> w = 1 then [CHR 0x5C, CHR ''x'', hex_digit (hd bs div 16), hex_digit (hd bs mod 16)]
      else if r = 34 then [CHR 0x5C, CHR 0x22] else if r = 92 then [CHR 0x5C, CHR 0x5C]
      else if r = 7 then [CHR 0x5C, CHR ''a''] else if r = 8 then [CHR 0x5C, CHR ''b'']
      else if r = 12 then [CHR 0x5C, CHR ''f''] else if r = 10 then [CHR 0x5C, CHR ''n'']
      else if r = 13 then [CHR 0x5C, CHR ''r''] else if r = 9 then [CHR 0x5C, CHR ''t'']
      else if r = 11 then [CHR 0x5C, CHR ''v'']
      else if r < 32 \<or> r = 127 then [CHR 0x5C, CHR ''x'', hex_digit (r div 16), hex_digit (r mod 16)]
      else map char_of (take w bs))"

function quote_from :: "nat list \<Rightarrow> string" where
  "quote_from bs =
     (if bs = [] then []
      else (let (r, w) = decode_rune bs in quote_rune bs r w @ quote_from (drop w bs)))"
  by pat_completeness auto
termination
proof (relation "measure length", goal_cases)
  case (2 bs p r w)
  then have "1 \<le> w" "bs \<noteq> []"
    using decode_rune_width [of bs] by (metis snd_conv)+
  then show ?case by simp
qed simp

declare quote_from.simps [simp del]

definition go_quote :: "string \<Rightarrow> string" where
  "go_quote s = CHR 0x22 # quote_from (map of_char s) @ [CHR 0x22]"

text \<open>\<^verbatim>\<open>hex.DecodeString\<close>: pairs of hexadecimal digits of either case.\<close>

fun hex_decode :: "string \<Rightarrow> nat list result" where
  "hex_decode [] = Inr []"
| "hex_decode [c] = Inl (ErrText ''encoding/hex: odd length hex string'')"
| "hex_decode (c # d # s) =
     (case (hex_value c, hex_value d) of
        (Some h, Some l) \<Rightarrow> (case hex_decode s of Inl err \<Rightarrow> Inl err | Inr bs \<Rightarrow> Inr ((16 * h + l) # bs))
      | _ \<Rightarrow> Inl (ErrText ''encoding/hex: invalid byte''))"

section \<open>CSV\<close>

text \<open>
  The lines of the input with their line feeds; a carriage return before the line feed, or before the
  end of the input, is dropped.
\<close>

definition csv_line_end :: "string \<Rightarrow> string" where
  "csv_line_end l =
     (let n = length l in
      if 2 \<le> n \<and> l ! (n - 2) = CHR 0x0D \<and> l ! (n - 1) = CHR 0x0A then take (n - 2) l @ [CHR 0x0A]
      else if l \<noteq> [] \<and> last l = CHR 0x0D then butlast l
      else l)"

function csv_lines :: "string \<Rightarrow> string list" where
  "csv_lines s =
     (if s = [] then []
      else (let a = takeWhile (\<lambda>c. c \<noteq> CHR 0x0A) s; r = dropWhile (\<lambda>c. c \<noteq> CHR 0x0A) s in
            csv_line_end (a @ take 1 r) # csv_lines (drop 1 r)))"
  by pat_completeness auto
termination
proof (relation "measure length", goal_cases)
  case (2 s a r)
  then have "length r \<le> length s" "s \<noteq> []" by (simp_all add: length_dropWhile_le)
  then have "length r - 1 < length s" by (cases r) simp_all
  then show ?case by simp
qed simp

declare csv_lines.simps [simp del]

definition is_line_break :: "string \<Rightarrow> bool" where
  "is_line_break l \<longleftrightarrow> l = [] \<or> l = [CHR 0x0A]"

definition no_line_feed :: "string \<Rightarrow> string" where
  "no_line_feed l = (if l \<noteq> [] \<and> last l = CHR 0x0A then butlast l else l)"

text \<open>
  One record: \<open>csv_field\<close> at the start of a field, \<open>csv_quoted\<close> inside a quoted one, which may run over
  several lines. The result is the fields and the lines that are left.
\<close>

function (sequential)
  csv_field :: "string list \<Rightarrow> string \<Rightarrow> string list \<Rightarrow> (string list \<times> string list) result"
  and csv_quoted :: "string list \<Rightarrow> string \<Rightarrow> string \<Rightarrow> string list \<Rightarrow> (string list \<times> string list) result"
where
  "csv_field fs line ls =
     (case line of
        c # r \<Rightarrow>
          if c = CHR 0x22 then csv_quoted fs [] r ls
          else (let a = takeWhile (\<lambda>x. x \<noteq> CHR '','') line; b = dropWhile (\<lambda>x. x \<noteq> CHR '','') line;
                    field = (if b = [] then no_line_feed a else a)
                in if CHR 0x22 \<in> set field then Inl (ErrText ''bare quote in non-quoted-field'')
                   else if b = [] then Inr (fs @ [field], ls)
                   else csv_field (fs @ [field]) (tl b) ls)
      | [] \<Rightarrow> Inr (fs @ [[]], ls))"
| "csv_quoted fs buf line ls =
     (let a = takeWhile (\<lambda>x. x \<noteq> CHR 0x22) line; b = dropWhile (\<lambda>x. x \<noteq> CHR 0x22) line in
      if b \<noteq> [] then
        (let r = tl b in
         case r of
           c # r' \<Rightarrow>
             if c = CHR 0x22 then csv_quoted fs (buf @ a @ [CHR 0x22]) r' ls
             else if c = CHR '','' then csv_field (fs @ [buf @ a]) r' ls
             else if is_line_break r then Inr (fs @ [buf @ a], ls)
             else Inl (ErrText ''extraneous or missing quote in quoted-field'')
         | [] \<Rightarrow> Inr (fs @ [buf @ a], ls))
      else if line = [] then Inl (ErrText ''extraneous or missing quote in quoted-field'')
      else (case ls of
              l # ls' \<Rightarrow> csv_quoted fs (buf @ a) l ls'
            | [] \<Rightarrow> Inl (ErrText ''extraneous or missing quote in quoted-field'')))"
  by pat_completeness auto
termination
proof (relation "measure (\<lambda>x. case x of Inl (fs, line, ls) \<Rightarrow> length line + sum_list (map length ls)
        | Inr (fs, buf, line, ls) \<Rightarrow> length line + sum_list (map length ls))", goal_cases)
  case (3 fs line ls c r a b field)
  then have "length b \<le> length line" "b \<noteq> []" by (simp_all only: length_dropWhile_le not_False_eq_True)
  then show ?case by (cases b) auto
next
  case (4 fs buf line ls a b r c r')
  have "length b \<le> length line" unfolding 4(2) by (rule length_dropWhile_le)
  moreover have "Suc (length r') < length b" using 4(3-5) by (cases b) auto
  ultimately show ?case by simp
next
  case (5 fs buf line ls a b r c r')
  have "length b \<le> length line" unfolding 5(2) by (rule length_dropWhile_le)
  moreover have "Suc (length r') < length b" using 5(3-5) by (cases b) auto
  ultimately show ?case by simp
qed auto

declare csv_field.simps [simp del] csv_quoted.simps [simp del]

text \<open>\<^verbatim>\<open>ReadAll\<close>: empty lines are skipped, and every record has as many fields as the first.\<close>

function csv_records :: "nat option \<Rightarrow> string list \<Rightarrow> string list list result" where
  "csv_records width [] = Inr []"
| "csv_records width (l # ls) =
     (if is_line_break l then csv_records width ls
      else (case csv_field [] l ls of
              Inl err \<Rightarrow> Inl err
            | Inr (row, ls') \<Rightarrow>
                if width \<notin> {None, Some (length row)} then Inl (ErrText ''wrong number of fields'')
                else if length ls' \<le> length ls
                then (case csv_records (Some (length row)) ls' of
                        Inl err \<Rightarrow> Inl err
                      | Inr rows \<Rightarrow> Inr (row # rows))
                else Inr [row]))"
  by pat_completeness auto
termination
  by (relation "measure (\<lambda>(w, ls). length ls)") auto

definition csv_read_all :: "string \<Rightarrow> string list list result" where
  "csv_read_all s = csv_records None (csv_lines s)"

section \<open>RFC 3339\<close>

definition days_from_civil :: "int \<Rightarrow> int \<Rightarrow> int \<Rightarrow> int" where
  "days_from_civil y m d =
     (let y' = (if m \<le> 2 then y - 1 else y); era = y' div 400; yoe = y' mod 400;
          mp = (if 2 < m then m - 3 else m + 9);
          doy = (153 * mp + 2) div 5 + d - 1;
          doe = yoe * 365 + yoe div 4 - yoe div 100 + doy
      in era * 146097 + doe - 719468)"

definition is_leap :: "int \<Rightarrow> bool" where
  "is_leap y \<longleftrightarrow> y mod 4 = 0 \<and> (y mod 100 \<noteq> 0 \<or> y mod 400 = 0)"

definition days_in :: "int \<Rightarrow> int \<Rightarrow> int" where
  "days_in m y = (if m = 2 then (if is_leap y then 29 else 28) else if m \<in> {4, 6, 9, 11} then 30 else 31)"

text \<open>\<^verbatim>\<open>getnum\<close>: one or two digits, or exactly two.\<close>

fun getnum :: "bool \<Rightarrow> string \<Rightarrow> (int \<times> string) option" where
  "getnum fixed [] = None"
| "getnum fixed (c # s) =
     (if \<not> is_digit c then None
      else (case s of
              d # s' \<Rightarrow> if is_digit d then Some (int (dec_value 0 [c, d]), s')
                        else if fixed then None else Some (int (dec_value 0 [c]), s)
            | [] \<Rightarrow> if fixed then None else Some (int (dec_value 0 [c]), [])))"

definition skip_char :: "char \<Rightarrow> string \<Rightarrow> string option" where
  "skip_char c s = (case s of d # r \<Rightarrow> if c = d then Some r else None | [] \<Rightarrow> None)"

text \<open>The optional fraction after the seconds: period or comma and digits, of which nine count.\<close>

definition scan_fraction :: "string \<Rightarrow> int \<times> string" where
  "scan_fraction s =
     (case s of
        p # d # r \<Rightarrow>
          if (p = CHR ''.'' \<or> p = CHR '','') \<and> is_digit d
          then (let ds = takeWhile is_digit (d # r); keep = take 9 ds in
                (int (dec_value 0 keep) * 10 ^ (9 - length keep), dropWhile is_digit (d # r)))
          else (0, s)
      | _ \<Rightarrow> (0, s))"

text \<open>The zone: \<open>Z\<close>, or a sign with hours up to 24 and minutes up to 60; the offset in seconds.\<close>

definition scan_zone :: "string \<Rightarrow> (int \<times> string) option" where
  "scan_zone s =
     (case s of
        [] \<Rightarrow> None
      | c # r \<Rightarrow>
          if c = CHR ''Z'' then Some (0, r)
          else if length s < 6 \<or> s ! 3 \<noteq> CHR '':'' then None
          else (case (getnum True (take 2 r), getnum True (take 2 (drop 4 s))) of
                  (Some (hr, x), Some (mm, y)) \<Rightarrow>
                    if 24 < hr \<or> 60 < mm then None
                    else if c = CHR ''+'' then Some ((hr * 60 + mm) * 60, drop 6 s)
                    else if c = CHR ''-'' then Some (- ((hr * 60 + mm) * 60), drop 6 s)
                    else None
                | _ \<Rightarrow> None))"

definition parse_date :: "string \<Rightarrow> ((int \<times> int \<times> int) \<times> string) option" where
  "parse_date s =
     (if length s < 4 \<or> \<not> list_all is_digit (take 4 s) then None
      else let y = int (dec_value 0 (take 4 s)) in
        Option.bind (skip_char (CHR ''-'') (drop 4 s)) (\<lambda>r.
        Option.bind (getnum True r) (\<lambda>(m, r).
        if m < 1 \<or> 12 < m then None else
        Option.bind (skip_char (CHR ''-'') r) (\<lambda>r.
        Option.bind (getnum True r) (\<lambda>(d, r). Some ((y, m, d), r))))))"

definition parse_clock :: "string \<Rightarrow> (int \<times> string) option" where
  "parse_clock s =
     Option.bind (getnum False s) (\<lambda>(h, r).
     if 24 \<le> h then None else
     Option.bind (skip_char (CHR '':'') r) (\<lambda>r.
     Option.bind (getnum True r) (\<lambda>(mi, r).
     if 60 \<le> mi then None else
     Option.bind (skip_char (CHR '':'') r) (\<lambda>r.
     Option.bind (getnum True r) (\<lambda>(sec, r).
     if 60 \<le> sec then None else
     let (frac, r) = scan_fraction r in Some (((h * 60 + mi) * 60 + sec) * 1000000000 + frac, r))))))"

text \<open>\<^verbatim>\<open>time.Parse(time.RFC3339, s)\<close>, as an instant.\<close>

definition parse_rfc3339 :: "string \<Rightarrow> time option" where
  "parse_rfc3339 s =
     Option.bind (parse_date s) (\<lambda>((y, m, d), r).
     Option.bind (skip_char (CHR ''T'') r) (\<lambda>r.
     Option.bind (parse_clock r) (\<lambda>(ns, r).
     Option.bind (scan_zone r) (\<lambda>(offset, r).
     if r \<noteq> [] \<or> d < 1 \<or> days_in m y < d then None
     else Some (days_from_civil y m d * ns_per_day + ns - offset * 1000000000)))))"

text \<open>\<^verbatim>\<open>time.Unix(sec, 0)\<close>: seconds are kept from the year 1 in 64 bits. The zero time is that year's start.\<close>

definition time_unix :: "int \<Rightarrow> time" where
  "time_unix sec = (wrap64 (sec + 62135596800) - 62135596800) * 1000000000"

definition zero_time :: time where
  "zero_time = - 62135596800 * 1000000000"

section \<open>Hexadecimal round trip\<close>

lemma byte_of_hex_digit: "v < 16 \<Longrightarrow> byte_of (hex_digit v) = (if v < 10 then 48 + v else 87 + v)"
  by (simp add: hex_digit_def of_char_of)

lemma byte_of_lower_char: "byte_of (lower_char c) = (if in_range 65 90 (byte_of c) then byte_of c + 32 else byte_of c)"
  by (simp add: lower_char_def in_range_def of_char_of)

lemma hex_byte_ranges:
  fixes b v :: nat
  shows "(48 \<le> b \<and> b \<le> 57 \<and> v = b - 48 \<or> 97 \<le> b \<and> b \<le> 102 \<and> v = b - 87 \<or> 65 \<le> b \<and> b \<le> 70 \<and> v = b - 55)
      \<longleftrightarrow> v < 16 \<and> (if 65 \<le> b \<and> b \<le> 90 then b + 32 else b) = (if v < 10 then 48 + v else 87 + v)" (is "?l \<longleftrightarrow> ?r")
proof
  assume ?l
  then consider "b = 48 + v" "v < 10" | "b = 87 + v" "10 \<le> v" "v < 16" | "b = 55 + v" "10 \<le> v" "v < 16"
    by fastforce
  then show ?r by cases auto
next
  assume r: ?r
  then consider "v < 10" "b = 48 + v" | "10 \<le> v" "v < 16" "b = 87 + v" | "10 \<le> v" "v < 16" "b = 55 + v"
    by (cases "65 \<le> b \<and> b \<le> 90") (auto split: if_splits)
  then show ?l by cases auto
qed

lemma hex_value_iff: "hex_value c = Some v \<longleftrightarrow> v < 16 \<and> lower_char c = hex_digit v"
proof -
  have L: "hex_value c = Some v \<longleftrightarrow>
      48 \<le> byte_of c \<and> byte_of c \<le> 57 \<and> v = byte_of c - 48 \<or> 97 \<le> byte_of c \<and> byte_of c \<le> 102 \<and> v = byte_of c - 87
      \<or> 65 \<le> byte_of c \<and> byte_of c \<le> 70 \<and> v = byte_of c - 55"
    by (auto simp: hex_value_def Let_def in_range_def)
  have R: "lower_char c = hex_digit v \<longleftrightarrow>
      (if 65 \<le> byte_of c \<and> byte_of c \<le> 90 then byte_of c + 32 else byte_of c) = (if v < 10 then 48 + v else 87 + v)"
    if "v < 16"
    using of_char_eq_iff [of "lower_char c" "hex_digit v", where 'a = nat] byte_of_hex_digit [OF that] byte_of_lower_char [of c]
    by (simp add: in_range_def)
  show ?thesis unfolding L hex_byte_ranges using R by blast
qed

lemma lower_hex_encode: "list_all (\<lambda>b. b < 256) bs \<Longrightarrow> map lower_char (hex_encode bs) = hex_encode bs"
proof -
  have "lower_char (hex_digit v) = hex_digit v" if "v < 16" for v
    using hex_value_hex_digit [OF that] hex_value_iff [of "hex_digit v" v] by blast
  then show "list_all (\<lambda>b. b < 256) bs \<Longrightarrow> map lower_char (hex_encode bs) = hex_encode bs"
    by (induction bs) (simp_all add: hex_encode_def less_mult_imp_div_less)
qed

lemma hex_decode_iff: "hex_decode s = Inr bs \<longleftrightarrow> list_all (\<lambda>b. b < 256) bs \<and> map lower_char s = hex_encode bs"
proof (induction s arbitrary: bs rule: induct_list012)
  case 1
  then show ?case by (auto simp: hex_encode_def)
next
  case (2 c)
  have "length (hex_encode bs) \<noteq> 1" by (simp add: length_hex_encode)
  then show ?case by (metis length_Cons length_map list.size(3) hex_decode.simps(2) sum.simps(4) One_nat_def)
next
  case (3 c d s)
  show ?case
  proof
    assume "hex_decode (c # d # s) = Inr bs"
    then obtain h l cs where "hex_value c = Some h" "hex_value d = Some l" "hex_decode s = Inr cs" "bs = (16 * h + l) # cs"
      by (auto split: option.splits sum.splits)
    then show "list_all (\<lambda>b. b < 256) bs \<and> map lower_char (c # d # s) = hex_encode bs"
      using 3(1) by (auto simp: hex_value_iff hex_encode_def)
  next
    assume r: "list_all (\<lambda>b. b < 256) bs \<and> map lower_char (c # d # s) = hex_encode bs"
    then obtain b cs where bs: "bs = b # cs" by (cases bs) (auto simp: hex_encode_def)
    with r have "hex_value c = Some (b div 16)" "hex_value d = Some (b mod 16)" "hex_decode s = Inr cs"
      using 3(1) by (auto simp: hex_value_iff hex_encode_def)
    then show "hex_decode (c # d # s) = Inr bs" using bs by simp
  qed
qed

section \<open>Rendered objects\<close>

text \<open>
  \<open>solid v j\<close>: the text \<open>v\<close> is a JSON value on its own and inside an object or array, read as \<open>j\<close>.
\<close>

definition solid :: "string \<Rightarrow> json \<Rightarrow> bool" where
  "solid v j \<longleftrightarrow> v \<noteq> [] \<and> \<not> is_json_space (hd v)
     \<and> (\<forall>d r. (r = [] \<or> hd r \<in> {CHR '','', CHR ''}'', CHR '']''}) \<longrightarrow> parse_value Some d (v @ r) = Some (j, r))"

lemma solid_string: "plain s \<Longrightarrow> solid (json_string s) (JStr s)"
  by (simp add: solid_def parse_value_plain) (simp add: json_string_def is_json_space_def)

lemma dec_nat_head: "0 < n \<Longrightarrow> hd (dec_nat n) \<noteq> CHR ''0''"
proof (induction n rule: dec_nat.induct)
  case (1 n)
  have "digit_char n \<noteq> CHR ''0''" if "n < 10"
  proof
    assume "digit_char n = CHR ''0''"
    then have "byte_of (digit_char n) = byte_of (CHR ''0'')" by simp
    then show False using that 1(2) by simp
  qed
  with 1 show ?case by (subst dec_nat.simps) auto
qed

lemma scan_number_dec_nat:
  assumes "r = [] \<or> hd r \<in> {CHR '','', CHR ''}'', CHR '']''}"
  shows "scan_number (dec_nat n @ r) = Some (dec_nat n, r)"
proof -
  have r: "r = [] \<or> \<not> is_digit (hd r)" using assms by (auto simp: is_digit_def)
  have "takeWhile is_digit (dec_nat n @ r) = dec_nat n" "dropWhile is_digit (dec_nat n @ r) = r"
    using dec_nat_digits [of n] r by (cases r; auto simp: takeWhile_append dropWhile_append list_all_iff)+
  then have span: "span_digits (dec_nat n @ r) = (dec_nat n, r)" by (simp add: span_digits_def)
  obtain c s where cs: "dec_nat n = c # s" "is_digit c" using dec_nat_first by blast
  have "c \<noteq> CHR ''-''" using cs(2) by (auto simp: is_digit_def)
  moreover have "scan_int (dec_nat n @ r) = Some (dec_nat n, r)"
  proof (cases "n = 0")
    case True
    then have "dec_nat n = ''0''" by (simp add: dec_nat.simps digit_char_def char_of_def bit_Suc_0_iff)
    then show ?thesis using span by (simp add: scan_int_def)
  next
    case False
    then show ?thesis using span dec_nat_head [of n] cs(1) by (simp add: scan_int_def)
  qed
  moreover have "scan_frac r = Some ([], r)" "scan_exp r = Some ([], r)"
    using assms by (cases r; auto simp: scan_frac_def scan_exp_def)+
  ultimately show ?thesis using cs(1) by (simp add: scan_number_def)
qed

lemma solid_dec_nat: "solid (dec_nat n) (JNum (dec_nat n))"
proof -
  obtain c s where cs: "dec_nat n = c # s" "is_digit c" using dec_nat_first by blast
  have c: "c \<notin> {CHR 0x22, CHR ''['', CHR ''{'', CHR ''t'', CHR ''f'', CHR ''n''}" "\<not> is_json_space c"
    using cs(2) by (auto simp: is_digit_def is_json_space_def)
  have "parse_value Some d (dec_nat n @ r) = Some (JNum (dec_nat n), r)"
    if "r = [] \<or> hd r \<in> {CHR '','', CHR ''}'', CHR '']''}" for d r
    using scan_number_dec_nat [OF that, of n] c cs(1) by (simp add: parse_value.simps skip_ws_solid)
  then show ?thesis using c cs(1) by (simp add: solid_def)
qed

definition raw_member :: "string \<times> string \<Rightarrow> string" where
  "raw_member kv = json_string (fst kv) @ CHR '':'' # snd kv"

definition raw_text :: "raw_object \<Rightarrow> string" where
  "raw_text kvs = CHR ''{'' # commas (map raw_member kvs) @ ''}''"

text \<open>The same at one nesting depth; a value nested in others is readable at the depths its own nesting allows.\<close>

definition readable :: "nat \<Rightarrow> string \<Rightarrow> json \<Rightarrow> bool" where
  "readable d v j \<longleftrightarrow> v \<noteq> [] \<and> \<not> is_json_space (hd v)
     \<and> (\<forall>r. (r = [] \<or> hd r \<in> {CHR '','', CHR ''}'', CHR '']''}) \<longrightarrow> parse_value Some d (v @ r) = Some (j, r))"

lemma solid_readable: "solid v j \<Longrightarrow> readable d v j"
  by (simp add: solid_def readable_def)

lemma readable_skip: "readable d v j \<Longrightarrow> skip_ws (v @ r) = v @ r"
  by (cases v) (auto simp: readable_def skip_ws_solid)

lemma raw_value_readable:
  assumes "readable d v j" and "r = [] \<or> hd r \<in> {CHR '','', CHR ''}'', CHR '']''}"
  shows "raw_value d (v @ r) = Some (v, r)"
proof -
  have "parse_value Some d (v @ r) = Some (j, r)" using assms unfolding readable_def by blast
  then show ?thesis using readable_skip [OF assms(1), of r] by (simp add: raw_value_def)
qed

lemma member_step:
  assumes "plain k" and "readable d v j"
  shows "parse_members Some d (raw_member (k, v) @ CHR ''}'' # t) = Some ([(k, j)], t)"
    and "parse_members Some d (raw_member (k, v) @ CHR '','' # t)
         = map_option (\<lambda>(vs, q). ((k, j) # vs, q)) (parse_members Some d t)"
    and "raw_members d (raw_member (k, v) @ CHR ''}'' # t) = Some ([(k, v)], t)"
    and "raw_members d (raw_member (k, v) @ CHR '','' # t)
         = map_option (\<lambda>(vs, q). ((k, v) # vs, q)) (raw_members d t)"
proof -
  have head: "scan_string (k @ CHR 0x22 # CHR '':'' # v @ y # t) = Some (k, CHR '':'' # v @ y # t)" for y
    by (rule scan_string_plain [OF assms(1)])
  have val: "parse_value Some d (v @ y # t) = Some (j, y # t)" "raw_value d (v @ y # t) = Some (v, y # t)"
    if "y \<in> {CHR '','', CHR ''}''}" for y
    using assms(2) that raw_value_readable [OF assms(2), of "y # t"] by (auto simp: readable_def)
  note eval = raw_member_def json_string_plain [OF assms(1)] skip_ws_solid is_json_space_def head val
  show "parse_members Some d (raw_member (k, v) @ CHR ''}'' # t) = Some ([(k, j)], t)"
    "parse_members Some d (raw_member (k, v) @ CHR '','' # t)
         = map_option (\<lambda>(vs, q). ((k, j) # vs, q)) (parse_members Some d t)"
    by (simp_all add: eval parse_members.simps [of Some d "CHR 0x22 # _"])
  show "raw_members d (raw_member (k, v) @ CHR ''}'' # t) = Some ([(k, v)], t)"
    "raw_members d (raw_member (k, v) @ CHR '','' # t) = map_option (\<lambda>(vs, q). ((k, v) # vs, q)) (raw_members d t)"
    by (simp_all add: eval raw_members.simps [of d "CHR 0x22 # _"])
qed

lemma members_rendered:
  assumes "kvs \<noteq> []" and "list_all (\<lambda>(k, v). plain k \<and> (\<exists>j. readable d v j)) kvs"
  shows "\<exists>kjs. \<forall>r. parse_members Some d (commas (map raw_member kvs) @ CHR ''}'' # r) = Some (kjs, r)"
    and "raw_members d (commas (map raw_member kvs) @ CHR ''}'' # r) = Some (kvs, r)"
  using assms
proof (induction kvs rule: list_nonempty_induct)
  case (single kv)
  case 1 then show ?case by (cases kv) (auto simp: member_step)
  case 2 then show ?case by (cases kv) (auto simp: member_step)
next
  case (cons kv kvs)
  obtain k v where kv: "kv = (k, v)" by (cases kv)
  case 1
  then obtain j kjs where "plain k" "readable d v j"
    "\<forall>r. parse_members Some d (commas (map raw_member kvs) @ CHR ''}'' # r) = Some (kjs, r)"
    using cons(2) kv by auto
  then show ?case using cons(1) kv by (intro exI [of _ "(k, j) # kjs"]) (simp add: commas_Cons member_step)
  case 2 then show ?case using cons(1,3) kv by (auto simp: commas_Cons member_step)
qed

text \<open>A rendered object is readable when its values are, one level deeper.\<close>

lemma raw_text_head: "kvs \<noteq> [] \<Longrightarrow> \<exists>x. \<forall>r. commas (map raw_member kvs) @ CHR ''}'' # r = CHR 0x22 # x @ CHR ''}'' # r"
  by (cases kvs; cases "tl kvs") (auto simp: raw_member_def json_string_def)

lemma readable_object:
  assumes "kvs \<noteq> []" and "list_all (\<lambda>(k, v). plain k \<and> (\<exists>j. readable (Suc d) v j)) kvs" and "d < 10000"
  shows "\<exists>j. readable d (raw_text kvs) j"
proof -
  obtain kjs where kjs: "\<forall>r. parse_members Some (Suc d) (commas (map raw_member kvs) @ CHR ''}'' # r) = Some (kjs, r)"
    using members_rendered(1) [OF assms(1,2)] by blast
  obtain x where x: "\<forall>r. commas (map raw_member kvs) @ CHR ''}'' # r = CHR 0x22 # x @ CHR ''}'' # r"
    using raw_text_head [OF assms(1)] by blast
  have "parse_value Some d (raw_text kvs @ r) = Some (JObj (last_wins kjs), r)" for r
    using kjs x assms(3) by (simp add: raw_text_def parse_value.simps skip_ws_solid is_json_space_def)
  then show ?thesis by (auto simp: readable_def raw_text_def is_json_space_def)
qed

lemma list_all_readable:
  "list_all (\<lambda>(k, v). plain k \<and> (\<exists>j. solid v j)) kvs \<Longrightarrow> list_all (\<lambda>(k, v). plain k \<and> (\<exists>j. readable d v j)) kvs"
  by (induction kvs) (auto dest: solid_readable)

lemma unmarshal_rendered:
  assumes "kvs \<noteq> []" and "list_all (\<lambda>(k, v). plain k \<and> (\<exists>j. solid v j)) kvs" and "distinct (map fst kvs)"
  shows "unmarshal_raw_object (raw_text kvs) = Inr kvs"
proof -
  obtain j where j: "readable 0 (raw_text kvs) j"
    using readable_object [OF assms(1) list_all_readable [OF assms(2)], of 0] by auto
  then have "json_valid (raw_text kvs)"
    using j by (auto simp: json_valid_def readable_def skip_ws_def dest: spec [of _ "[]"])
  moreover obtain x where x: "\<forall>r. commas (map raw_member kvs) @ CHR ''}'' # r = CHR 0x22 # x @ CHR ''}'' # r"
    using raw_text_head [OF assms(1)] by blast
  ultimately show ?thesis
    using members_rendered(2) [OF assms(1) list_all_readable [OF assms(2)], of 1 "[]"] last_wins_distinct [OF assms(3)]
    by (simp add: unmarshal_raw_object_def raw_text_def skip_ws_solid is_json_space_def)
qed

lemma solid_parse: "solid v j \<Longrightarrow> parse_value Some 0 v = Some (j, [])"
  unfolding solid_def by (metis append_Nil2)

lemma solid_valid: "solid v j \<Longrightarrow> json_valid v"
  by (simp add: json_valid_def solid_parse skip_ws_def)

lemma unmarshal_solid:
  "plain s \<Longrightarrow> unmarshal_string (json_string s) = Inr s"
  "is_int64 (int n) \<Longrightarrow> unmarshal_int64 (dec_nat n) = Inr (int n)"
  "unmarshal_string (dec_nat n) = json_error"
proof -
  have itoa: "itoa (int n) = dec_nat n" by (simp add: itoa_def)
  show "plain s \<Longrightarrow> unmarshal_string (json_string s) = Inr s"
    using solid_valid [OF solid_string] solid_parse [OF solid_string] by (simp add: unmarshal_string_def)
  show "is_int64 (int n) \<Longrightarrow> unmarshal_int64 (dec_nat n) = Inr (int n)"
    using solid_valid [OF solid_dec_nat] solid_parse [OF solid_dec_nat] parse_int64_itoa [of "int n"] itoa
    by (simp add: unmarshal_int64_def)
  show "unmarshal_string (dec_nat n) = json_error"
    using solid_valid [OF solid_dec_nat] solid_parse [OF solid_dec_nat] by (simp add: unmarshal_string_def)
qed

end
