(* ===== verification/AI_Guards.thy ===== *)
theory AI_Guards
  imports Complex_Main Store_Rows Go_Decode
begin

text \<open>
  The two guardrails of package \<^verbatim>\<open>internal/ai\<close>: the circuit breaker (\<^verbatim>\<open>breaker.go\<close>) and the spend cap
  (\<^verbatim>\<open>budget.go\<close>). A nil pointer to either is \<open>None\<close>. The mutex of the breaker is the atomicity of each
  operation; an operation that reads the clock is given the reading.

  A float64 is the rational number it denotes: the code only compares amounts and negates them, which
  is exact. The additions are Redis's, behind the record \<open>budgetClient\<close>.
\<close>

section \<open>breaker.go\<close>

record CircuitBreaker =
  cb_failureThreshold :: int
  cb_cooldown :: duration
  cb_consecutiveFail :: int
  cb_openedAt :: time

definition NewCircuitBreaker :: "int \<Rightarrow> duration \<Rightarrow> CircuitBreaker" where
  "NewCircuitBreaker failureThreshold cooldown =
     \<lparr>cb_failureThreshold = (if failureThreshold \<le> 0 then 3 else failureThreshold),
      cb_cooldown = (if cooldown \<le> 0 then 30 * 1000000000 else cooldown),
      cb_consecutiveFail = 0, cb_openedAt = zero_time\<rparr>"

definition Allow :: "time \<Rightarrow> CircuitBreaker option \<Rightarrow> bool" where
  "Allow now breaker =
     (case breaker of
        None \<Rightarrow> True
      | Some b \<Rightarrow>
          if cb_consecutiveFail b < cb_failureThreshold b then True
          else cb_cooldown b \<le> time_sub now (cb_openedAt b))"

definition RecordSuccess :: "CircuitBreaker option \<Rightarrow> CircuitBreaker option" where
  "RecordSuccess breaker = map_option (\<lambda>b. b\<lparr>cb_consecutiveFail := 0\<rparr>) breaker"

definition RecordFailure :: "time \<Rightarrow> CircuitBreaker option \<Rightarrow> CircuitBreaker option" where
  "RecordFailure now breaker =
     map_option (\<lambda>b. let b = b\<lparr>cb_consecutiveFail := cb_consecutiveFail b + 1\<rparr> in
        if cb_failureThreshold b \<le> cb_consecutiveFail b then b\<lparr>cb_openedAt := now\<rparr> else b) breaker"

subsection \<open>The breaker as a function of the history\<close>

text \<open>What has been recorded: a success, or a failure at a time. The history has the latest outcome first.\<close>

datatype outcome = Succeeded | Failed time

fun recorded :: "CircuitBreaker \<Rightarrow> outcome list \<Rightarrow> CircuitBreaker option" where
  "recorded b [] = Some b"
| "recorded b (Succeeded # h) = RecordSuccess (recorded b h)"
| "recorded b (Failed t # h) = RecordFailure t (recorded b h)"

text \<open>The times of the failures since the last success, the latest first.\<close>

fun failing :: "outcome list \<Rightarrow> time list" where
  "failing (Failed t # h) = t # failing h"
| "failing _ = []"

text \<open>The state of the breaker after a history.\<close>

definition tracks :: "CircuitBreaker \<Rightarrow> outcome list \<Rightarrow> CircuitBreaker \<Rightarrow> bool" where
  "tracks new h b \<longleftrightarrow>
     cb_failureThreshold b = cb_failureThreshold new \<and> cb_cooldown b = cb_cooldown new
     \<and> cb_consecutiveFail b = int (length (failing h))
     \<and> (cb_failureThreshold b \<le> cb_consecutiveFail b \<longrightarrow> cb_openedAt b = hd (failing h))"

lemma tracks_steps:
  "0 < cb_failureThreshold new \<Longrightarrow> cb_consecutiveFail new = 0 \<Longrightarrow> tracks new [] new"
  "0 < cb_failureThreshold new \<Longrightarrow> tracks new h b \<Longrightarrow> \<exists>b'. RecordSuccess (Some b) = Some b' \<and> tracks new (Succeeded # h) b'"
  "tracks new h b \<Longrightarrow> \<exists>b'. RecordFailure t (Some b) = Some b' \<and> tracks new (Failed t # h) b'"
  by (simp_all add: tracks_def RecordSuccess_def RecordFailure_def Let_def)

lemma recorded_tracks:
  assumes "0 < cb_failureThreshold new" and "cb_consecutiveFail new = 0"
  shows "\<exists>b. recorded new h = Some b \<and> tracks new h b"
proof (induction h)
  case (Cons e h)
  then obtain b where b: "recorded new h = Some b" "tracks new h b" by blast
  then show ?case using tracks_steps(2) [OF assms(1) b(2)] tracks_steps(3) [OF b(2)] by (cases e) auto
qed (simp add: tracks_steps assms)

text \<open>
  C27: the breaker is a function of the recorded history: a call is refused exactly when at least the
  threshold of outcomes since the last success were failures and the cooldown since the latest of them
  has not elapsed. A threshold or cooldown that is not positive stands for 3 and for 30 seconds.
\<close>

theorem breaker_follows_history:
  "Allow now (recorded (NewCircuitBreaker threshold cooldown) h)
   \<longleftrightarrow> \<not> ((if threshold \<le> 0 then 3 else threshold) \<le> int (length (failing h))
          \<and> time_sub now (hd (failing h)) < (if cooldown \<le> 0 then 30000000000 else cooldown))"
proof -
  have "0 < cb_failureThreshold (NewCircuitBreaker threshold cooldown)"
    "cb_consecutiveFail (NewCircuitBreaker threshold cooldown) = 0"
    by (simp_all add: NewCircuitBreaker_def)
  from recorded_tracks [OF this, of h] show ?thesis
    by (auto simp: tracks_def Allow_def NewCircuitBreaker_def split: if_splits)
qed

section \<open>budget.go\<close>

text \<open>The Redis commands of the tracker, over the state \<open>'r\<close> of the server.\<close>

record 'r budgetClient =
  bc_IncrByFloat :: "string \<Rightarrow> rat \<Rightarrow> 'r \<Rightarrow> rat result \<times> 'r"
  bc_Expire :: "string \<Rightarrow> duration \<Rightarrow> 'r act"

record 'r BudgetTracker =
  bt_client :: "'r budgetClient"
  bt_capUSD :: rat
  bt_keyPrefix :: string
  bt_ttl :: duration

definition NewBudgetTracker :: "'r budgetClient option \<Rightarrow> rat \<Rightarrow> 'r BudgetTracker option" where
  "NewBudgetTracker client capUSD =
     (case client of
        None \<Rightarrow> None
      | Some c \<Rightarrow>
          if capUSD \<le> 0 then None
          else Some \<lparr>bt_client = c, bt_capUSD = capUSD, bt_keyPrefix = ''ai_budget:'', bt_ttl = 24 * hour\<rparr>)"

text \<open>The two halves of \<^verbatim>\<open>CheckAndReserve\<close>: the reservation, and taking it back when it is over the cap.\<close>

definition reserve :: "'r BudgetTracker \<Rightarrow> string \<Rightarrow> rat \<Rightarrow> 'r \<Rightarrow> rat result \<times> 'r" where
  "reserve tracker key estCostUSD r =
     (case bc_IncrByFloat (bt_client tracker) key estCostUSD r of
        (Inl err, r') \<Rightarrow> (Inl (ErrWrap ''incr ai budget: '' err []), r')
      | (Inr sum_usd, r') \<Rightarrow>
          (Inr sum_usd, if 0 < bt_ttl tracker then snd (bc_Expire (bt_client tracker) key (bt_ttl tracker) r') else r'))"

definition unreserve :: "'r BudgetTracker \<Rightarrow> string \<Rightarrow> rat \<Rightarrow> 'r \<Rightarrow> 'r" where
  "unreserve tracker key estCostUSD r = snd (bc_IncrByFloat (bt_client tracker) key (- estCostUSD) r)"

definition CheckAndReserve :: "'r BudgetTracker option \<Rightarrow> string \<Rightarrow> rat \<Rightarrow> 'r \<Rightarrow> bool result \<times> 'r" where
  "CheckAndReserve tracker batchRunID estCostUSD r =
     (case tracker of
        None \<Rightarrow> (Inr False, r)
      | Some t \<Rightarrow>
          if batchRunID = [] then (Inl (ErrText ''budget check requires a non-empty batch run id''), r)
          else (let key = bt_keyPrefix t @ batchRunID in
                case reserve t key estCostUSD r of
                  (Inl err, r') \<Rightarrow> (Inl err, r')
                | (Inr sum_usd, r') \<Rightarrow>
                    if bt_capUSD t < sum_usd then (Inr False, unreserve t key estCostUSD r')
                    else (Inr True, r')))"

subsection \<open>Concurrent reservations\<close>

text \<open>
  What the tracker relies on: a counter per key, an increment that answers with the new value, and that
  a failed increment was applied or not applied. The key does not expire meanwhile: each reservation
  extends its life by a day.
\<close>

locale float_counter =
  fixes client :: "'r budgetClient" and spent :: "'r \<Rightarrow> string \<Rightarrow> rat"
  assumes incr: "bc_IncrByFloat client key v r = (Inr sum_usd, r') \<Longrightarrow>
      sum_usd = spent r key + v \<and> spent r' = (spent r)(key := spent r key + v)"
    and incr_failed: "bc_IncrByFloat client key v r = (Inl err, r') \<Longrightarrow>
      spent r' \<in> {spent r, (spent r)(key := spent r key + v)}"
    and expire: "spent (snd (bc_Expire client key d r)) = spent r"

text \<open>
  Many callers share the counter of one batch. Each call is at a stage: not started, over the cap with
  its reservation still to be taken back, or finished with its answer. A step is one of the two halves
  of one call.
\<close>

datatype stage = Waiting | Over | Done "bool result"

inductive reserve_step ::
  "'r BudgetTracker \<Rightarrow> string \<Rightarrow> 'r \<times> (rat \<times> stage) list \<Rightarrow> 'r \<times> (rat \<times> stage) list \<Rightarrow> bool"
  for tracker :: "'r BudgetTracker" and key :: string where
  failed: "reserve_step tracker key (r, cs) (r', cs[i := (cost, Done (Inl err))])"
    if "i < length cs" "cs ! i = (cost, Waiting)" "reserve tracker key cost r = (Inl err, r')"
| granted: "reserve_step tracker key (r, cs) (r', cs[i := (cost, Done (Inr True))])"
    if "i < length cs" "cs ! i = (cost, Waiting)" "reserve tracker key cost r = (Inr sum_usd, r')"
      "sum_usd \<le> bt_capUSD tracker"
| over: "reserve_step tracker key (r, cs) (r', cs[i := (cost, Over)])"
    if "i < length cs" "cs ! i = (cost, Waiting)" "reserve tracker key cost r = (Inr sum_usd, r')"
      "bt_capUSD tracker < sum_usd"
| rollback: "reserve_step tracker key (r, cs) (unreserve tracker key cost r, cs[i := (cost, Done (Inr False))])"
    if "i < length cs" "cs ! i = (cost, Over)"

text \<open>The amounts of the calls that were granted, and of those whose reservation is still counted.\<close>

definition granted_usd :: "(rat \<times> stage) list \<Rightarrow> rat" where
  "granted_usd cs = sum_list (map (\<lambda>(cost, st). if st = Done (Inr True) then cost else 0) cs)"

definition over_usd :: "(rat \<times> stage) list \<Rightarrow> rat" where
  "over_usd cs = sum_list (map (\<lambda>(cost, st). if st = Over then cost else 0) cs)"

text \<open>The invariant, from a counter at \<open>base\<close>: every reservation that was granted or not yet taken back is in the counter.\<close>

definition counted :: "('r \<Rightarrow> string \<Rightarrow> rat) \<Rightarrow> rat \<Rightarrow> rat \<Rightarrow> string \<Rightarrow> 'r \<times> (rat \<times> stage) list \<Rightarrow> bool" where
  "counted spent base cap key = (\<lambda>(r, cs).
     list_all (\<lambda>(cost, st). 0 \<le> cost) cs \<and> base + granted_usd cs + over_usd cs \<le> spent r key
     \<and> base + granted_usd cs \<le> cap)"

lemma sum_list_update_rat:
  fixes f :: "'a \<Rightarrow> rat"
  shows "i < length cs \<Longrightarrow> sum_list (map f (cs[i := y])) = sum_list (map f cs) - f (cs ! i) + f y"
proof (induction cs arbitrary: i)
  case (Cons c cs)
  then show ?case by (cases i) auto
qed simp

lemma usd_update:
  assumes "i < length cs" and "cs ! i = (cost, st)"
  shows "granted_usd (cs[i := (cost, st')])
       = granted_usd cs - (if st = Done (Inr True) then cost else 0) + (if st' = Done (Inr True) then cost else 0)"
    and "over_usd (cs[i := (cost, st')]) = over_usd cs - (if st = Over then cost else 0) + (if st' = Over then cost else 0)"
  using assms by (simp_all add: granted_usd_def over_usd_def sum_list_update_rat)

lemma over_usd_nonneg: "list_all (\<lambda>(cost, st). 0 \<le> cost) cs \<Longrightarrow> 0 \<le> over_usd cs"
  unfolding over_usd_def by (induction cs) auto

lemma costs_update:
  assumes "list_all (\<lambda>(cost, st). (0::rat) \<le> cost) cs" and "i < length cs" and "cs ! i = (cost, st)"
  shows "0 \<le> cost" and "list_all (\<lambda>(cost, st). 0 \<le> cost) (cs[i := (cost, st')])"
proof -
  have "cs ! i \<in> set cs" using assms(2) by simp
  then show "0 \<le> cost" using assms(1,3) by (auto simp: list_all_iff)
  then show "list_all (\<lambda>(cost, st). 0 \<le> cost) (cs[i := (cost, st')])"
    using assms(1) set_update_subset_insert [of cs i "(cost, st')"] by (auto simp: list_all_iff)
qed

context float_counter
begin

lemma reserve_spent:
  assumes "bt_client tracker = client"
  shows "reserve tracker key cost r = (Inr sum_usd, r') \<Longrightarrow> sum_usd = spent r key + cost \<and> spent r' key = sum_usd"
    and "reserve tracker key cost r = (Inl err, r') \<Longrightarrow> spent r' key \<in> {spent r key, spent r key + cost}"
  using incr incr_failed expire unfolding assms [symmetric]
  by (fastforce simp: reserve_def split: prod.splits sum.splits if_splits)+

lemma unreserve_spent:
  assumes "bt_client tracker = client"
  shows "spent (unreserve tracker key cost r) key \<in> {spent r key, spent r key - cost}"
proof (cases "bc_IncrByFloat (bt_client tracker) key (- cost) r")
  case (Pair res r')
  then show ?thesis
    using incr incr_failed unfolding assms by (cases res) (fastforce simp: unreserve_def assms)+
qed

lemma reserve_step_counted:
  assumes "bt_client tracker = client" and "reserve_step tracker key s s'"
    and "counted spent base (bt_capUSD tracker) key s"
  shows "counted spent base (bt_capUSD tracker) key s'"
  using assms(2,3)
proof (cases rule: reserve_step.cases)
  case (failed i cs cost r err r')
  then show ?thesis
    using assms(3) reserve_spent(2) [OF assms(1) failed(5)] costs_update [OF _ failed(3,4)]
    by (auto simp: counted_def usd_update)
next
  case (granted i cs cost r sum_usd r')
  then show ?thesis
    using assms(3) reserve_spent(1) [OF assms(1) granted(5)] costs_update [OF _ granted(3,4)] over_usd_nonneg [of cs]
    by (auto simp: counted_def usd_update)
next
  case (over i cs cost r sum_usd r')
  then show ?thesis
    using assms(3) reserve_spent(1) [OF assms(1) over(5)] costs_update [OF _ over(3,4)]
    by (auto simp: counted_def usd_update)
next
  case (rollback i cs cost r)
  then show ?thesis
    using assms(3) unreserve_spent [OF assms(1), of key cost r] costs_update [OF _ rollback(3,4)]
    by (auto simp: counted_def usd_update)
qed

end

text \<open>A call of \<^verbatim>\<open>CheckAndReserve\<close> is its one or two steps with no other step between them.\<close>

lemma CheckAndReserve_steps:
  assumes "CheckAndReserve (Some tracker) batchRunID cost r = (res, r')" and "batchRunID \<noteq> []"
    and "i < length cs" and "cs ! i = (cost, Waiting)"
  shows "(reserve_step tracker (bt_keyPrefix tracker @ batchRunID))\<^sup>*\<^sup>* (r, cs) (r', cs[i := (cost, Done res)])"
proof -
  let ?key = "bt_keyPrefix tracker @ batchRunID"
  obtain x y where xy: "reserve tracker ?key cost r = (x, y)" by (metis prod.exhaust)
  consider err where "x = Inl err" | sum_usd where "x = Inr sum_usd" "sum_usd \<le> bt_capUSD tracker"
    | sum_usd where "x = Inr sum_usd" "bt_capUSD tracker < sum_usd"
    by (cases x) (auto intro: leI)
  then show ?thesis
  proof cases
    case 1
    then show ?thesis
      using assms xy by (auto simp: CheckAndReserve_def Let_def intro!: r_into_rtranclp reserve_step.failed [OF assms(3,4)])
  next
    case 2
    then show ?thesis
      using assms xy by (auto simp: CheckAndReserve_def Let_def intro!: r_into_rtranclp reserve_step.granted [OF assms(3,4)])
  next
    case 3
    have "reserve_step tracker ?key (r, cs) (y, cs[i := (cost, Over)])"
      using 3 xy reserve_step.over [OF assms(3,4)] by simp
    moreover have "reserve_step tracker ?key (y, cs[i := (cost, Over)])
        (unreserve tracker ?key cost y, cs[i := (cost, Over), i := (cost, Done (Inr False))])"
      using assms(3) by (intro reserve_step.rollback) auto
    ultimately show ?thesis using 3 assms(1,2) xy by (auto simp: CheckAndReserve_def Let_def)
  qed
qed


text \<open>A counter that never fails.\<close>

definition counter_client :: "(string \<Rightarrow> rat) budgetClient" where
  "counter_client =
     \<lparr>bc_IncrByFloat = (\<lambda>key v r. (Inr (r key + v), r(key := r key + v))), bc_Expire = (\<lambda>key d r. (None, r))\<rparr>"

definition counter_tracker :: "rat \<Rightarrow> (string \<Rightarrow> rat) BudgetTracker" where
  "counter_tracker cap =
     \<lparr>bt_client = counter_client, bt_capUSD = cap, bt_keyPrefix = ''ai_budget:'', bt_ttl = 24 * hour\<rparr>"

interpretation counter: float_counter counter_client "\<lambda>r. r"
  by unfold_locales (auto simp: counter_client_def)

lemma counter_ops [simp]:
  "reserve (counter_tracker cap) key cost r = (Inr (r key + cost), r(key := r key + cost))"
  "unreserve (counter_tracker cap) key cost r = r(key := r key - cost)"
  by (simp_all add: reserve_def unreserve_def counter_tracker_def counter_client_def)

lemma counter_tracker_sel [simp]: "bt_client (counter_tracker cap) = counter_client" "bt_capUSD (counter_tracker cap) = cap"
  by (simp_all add: counter_tracker_def)


text \<open>
  A reservation over the cap is not without effect while it is being taken back: a call that the
  remaining budget covers is refused when it falls between the two commands of a larger one, although
  nothing was granted before or after.
\<close>

theorem overrun_refuses_affordable_call:
  "\<exists>r1 r2. (reserve_step (counter_tracker 10) ''k'')\<^sup>*\<^sup>* (\<lambda>_. 0, [(11, Waiting), (1, Waiting)]) (r1, [(11, Over), (1, Done (Inr False))])
     \<and> (reserve_step (counter_tracker 10) ''k'')\<^sup>*\<^sup>* (r1, [(11, Over), (1, Done (Inr False))]) (r2, [(11, Done (Inr False)), (1, Done (Inr False))])
     \<and> r2 ''k'' = 0 \<and> reserve (counter_tracker 10) ''k'' 1 r2 = (Inr 1, r2(''k'' := 1))"
proof -
  let ?step = "reserve_step (counter_tracker 10) ''k''"
  have "?step (\<lambda>_. 0, [(11, Waiting), (1, Waiting)]) ((\<lambda>_. 0)(''k'' := 11), [(11, Over), (1, Waiting)])"
    using reserve_step.over [of 0 "[(11, Waiting), (1, Waiting)]" 11 "counter_tracker 10" "''k''" "\<lambda>_. 0"] by simp
  moreover have "?step ((\<lambda>_. 0)(''k'' := 11), [(11, Over), (1, Waiting)]) ((\<lambda>_. 0)(''k'' := 12), [(11, Over), (1, Over)])"
    using reserve_step.over [of 1 "[(11, Over), (1, Waiting)]" 1 "counter_tracker 10" "''k''" "(\<lambda>_. 0)(''k'' := 11)"] by simp
  moreover have "?step ((\<lambda>_. 0)(''k'' := 12), [(11, Over), (1, Over)]) ((\<lambda>_. 0)(''k'' := 11), [(11, Over), (1, Done (Inr False))])"
    using reserve_step.rollback [of 1 "[(11, Over), (1, Over)]" 1 "counter_tracker 10" "''k''" "(\<lambda>_. 0)(''k'' := 12)"] by simp
  moreover have "?step ((\<lambda>_. 0)(''k'' := 11), [(11, Over), (1, Done (Inr False))]) ((\<lambda>_. 0)(''k'' := 0), [(11, Done (Inr False)), (1, Done (Inr False))])"
    using reserve_step.rollback [of 0 "[(11, Over), (1, Done (Inr False))]" 11 "counter_tracker 10" "''k''" "(\<lambda>_. 0)(''k'' := 11)"] by simp
  ultimately show ?thesis
    by (intro exI [of _ "(\<lambda>_. 0)(''k'' := 11)"] exI [of _ "(\<lambda>_. 0)(''k'' := 0)"] conjI)
       (force intro: converse_rtranclp_into_rtranclp)+
qed

end
