(* ===== verification/Go_Struct.thy ===== *)
theory Go_Struct
  imports Go_Decode
begin

text \<open>
  Further readers and writers of the standard library: \<^verbatim>\<open>encoding/json\<close> into structs and slices,
  \<^verbatim>\<open>json.NewDecoder(r).Decode\<close>, standard base64, and the arithmetic and formatting of the float64
  values the program prints.
\<close>

section \<open>JSON into structs\<close>

text \<open>
  A reader is given the text of a valid value, without surrounding space, and the value the target has;
  it returns whether the types fit, and the value afterwards. \<^verbatim>\<open>null\<close> leaves the target as it is.
\<close>

type_synonym 'a reader = "string \<Rightarrow> 'a \<Rightarrow> bool \<times> 'a"

definition read_string :: "string reader" where
  "read_string raw cur =
     (if hd raw = CHR ''n'' then (True, cur)
      else if hd raw = CHR 0x22 then (case unmarshal_string raw of Inr s \<Rightarrow> (True, s) | Inl err \<Rightarrow> (False, cur))
      else (False, cur))"

definition read_int64 :: "int reader" where
  "read_int64 raw cur =
     (if hd raw = CHR ''n'' then (True, cur)
      else (case unmarshal_int64 raw of Inr i \<Rightarrow> (True, i) | Inl err \<Rightarrow> (False, cur)))"

definition read_raw :: "string reader" where
  "read_raw raw cur = (True, raw)"

text \<open>
  A member belongs to the field whose name it equals up to letter case; the long s and the Kelvin sign
  fold to ASCII letters.
\<close>

definition fold_rune :: "rune \<Rightarrow> rune" where
  "fold_rune r = (if in_range 65 90 r then r + 32 else if r = 383 then 115 else if r = 8490 then 107 else r)"

definition field_is :: "string \<Rightarrow> string \<Rightarrow> bool" where
  "field_is name key \<longleftrightarrow> map (\<lambda>(i, r). fold_rune r) (go_range key) = map (\<lambda>(i, r). fold_rune r) (go_range name)"

fun read_members :: "(string \<times> 'a reader) list \<Rightarrow> (string \<times> string) list \<Rightarrow> bool \<times> 'a \<Rightarrow> bool \<times> 'a" where
  "read_members fields [] acc = acc"
| "read_members fields ((k, v) # kvs) acc =
     (case find (\<lambda>(name, f). field_is name k) fields of
        None \<Rightarrow> read_members fields kvs acc
      | Some (name, f) \<Rightarrow>
          (case f v (snd acc) of (ok, x) \<Rightarrow> read_members fields kvs (fst acc \<and> ok, x)))"

definition object_members :: "string \<Rightarrow> (string \<times> string) list" where
  "object_members raw =
     (case skip_ws (tl raw) of
        x # r \<Rightarrow> if x = CHR ''}'' then []
                 else (case raw_members 1 (tl raw) of Some (kvs, q) \<Rightarrow> kvs | None \<Rightarrow> [])
      | [] \<Rightarrow> [])"

definition array_elems :: "string \<Rightarrow> string list" where
  "array_elems raw =
     (case skip_ws (tl raw) of
        x # r \<Rightarrow> if x = CHR '']'' then []
                 else (case raw_elems 1 (tl raw) of Some (vs, q) \<Rightarrow> vs | None \<Rightarrow> [])
      | [] \<Rightarrow> [])"

definition read_struct :: "(string \<times> 'a reader) list \<Rightarrow> 'a reader" where
  "read_struct fields raw cur =
     (if hd raw = CHR ''n'' then (True, cur)
      else if hd raw = CHR ''{'' then read_members fields (object_members raw) (True, cur)
      else (False, cur))"

text \<open>A slice: an element that was there before is read into, a new one starts from the zero value.\<close>

fun read_elems :: "'a reader \<Rightarrow> 'a \<Rightarrow> string list \<Rightarrow> 'a list \<Rightarrow> bool \<times> 'a list" where
  "read_elems f zero [] cur = (True, [])"
| "read_elems f zero (v # vs) cur =
     (case f v (case cur of x # xs \<Rightarrow> x | [] \<Rightarrow> zero) of
        (ok, y) \<Rightarrow> (case read_elems f zero vs (tl cur) of (ok', ys) \<Rightarrow> (ok \<and> ok', y # ys)))"

definition read_slice :: "'a reader \<Rightarrow> 'a \<Rightarrow> 'a list reader" where
  "read_slice f zero raw cur =
     (if hd raw = CHR ''n'' then (True, [])
      else if hd raw = CHR ''['' then read_elems f zero (array_elems raw) cur
      else (False, cur))"

text \<open>A struct field reads into its part of the record.\<close>

definition field_of :: "('a \<Rightarrow> 'b) \<Rightarrow> ('b \<Rightarrow> 'a \<Rightarrow> 'a) \<Rightarrow> 'b reader \<Rightarrow> 'a reader" where
  "field_of get put f raw r = (case f raw (get r) of (ok, x) \<Rightarrow> (ok, put x r))"

definition json_unmarshal_into :: "'a reader \<Rightarrow> 'a \<Rightarrow> string \<Rightarrow> 'a result" where
  "json_unmarshal_into f zero s =
     (if \<not> json_valid s then json_error
      else (case raw_value 0 s of
              None \<Rightarrow> json_error
            | Some (raw, r) \<Rightarrow> (case f raw zero of (ok, x) \<Rightarrow> if ok then Inr x else json_error)))"

text \<open>
  One value from a stream: what follows it stays unread. With a limit on the bytes that may be read, a
  value must end within it; the end of an object or array is seen at once, other values are seen to
  end by the byte that follows.
\<close>

definition json_decode_limited :: "nat option \<Rightarrow> 'a reader \<Rightarrow> 'a \<Rightarrow> string \<Rightarrow> 'a result" where
  "json_decode_limited limit f zero body =
     (let s = (case limit of None \<Rightarrow> body | Some n \<Rightarrow> take n body) in
      case raw_value 0 s of
        None \<Rightarrow> json_error
      | Some (raw, r) \<Rightarrow>
          if r = [] \<and> length s < length body \<and> hd raw \<noteq> CHR ''{'' \<and> hd raw \<noteq> CHR ''['' then json_error
          else (case f raw zero of (ok, x) \<Rightarrow> if ok then Inr x else json_error))"

section \<open>Reading rendered structs\<close>

lemma itoa_solid: "solid (itoa i) (JNum (itoa i))"
proof (cases "i < 0")
  case True
  let ?n = "dec_nat (nat (- i))"
  have "parse_value Some d (CHR ''-'' # ?n @ r) = Some (JNum (CHR ''-'' # ?n), r)"
    if "r = [] \<or> hd r \<in> {CHR '','', CHR ''}'', CHR '']''}" for d r
  proof -
    obtain c s where cs: "?n = c # s" "is_digit c" using dec_nat_first by blast
    then have "c \<noteq> CHR ''-''" by (auto simp: is_digit_def)
    then have "scan_number (CHR ''-'' # ?n @ r) = Some (CHR ''-'' # ?n, r)"
      using scan_number_dec_nat [OF that, of "nat (- i)"] cs
      by (auto simp: scan_number_def split: option.splits prod.splits)
    then show ?thesis by (simp add: parse_value.simps skip_ws_solid is_json_space_def)
  qed
  then show ?thesis using True by (simp add: itoa_def solid_def is_json_space_def)
next
  case False
  then show ?thesis using solid_dec_nat by (simp add: itoa_def)
qed

text \<open>Reading a struct from a rendered object whose values are solid.\<close>

lemma object_members_rendered:
  assumes "kvs \<noteq> []" and "list_all (\<lambda>(k, v). plain k \<and> (\<exists>j. readable 1 v j)) kvs"
  shows "object_members (raw_text kvs) = kvs"
proof -
  obtain x where "\<forall>r. commas (map raw_member kvs) @ CHR ''}'' # r = CHR 0x22 # x @ CHR ''}'' # r"
    using raw_text_head [OF assms(1)] by blast
  then show ?thesis
    using members_rendered(2) [OF assms, of "[]"]
    by (simp add: object_members_def raw_text_def skip_ws_solid is_json_space_def)
qed

lemma hd_raw_text [simp]: "hd (raw_text kvs) = CHR ''{''"
  by (simp add: raw_text_def)

lemma read_struct_rendered:
  assumes "kvs \<noteq> []" and "list_all (\<lambda>(k, v). plain k \<and> (\<exists>j. readable 1 v j)) kvs"
  shows "read_struct fs (raw_text kvs) cur = read_members fs kvs (True, cur)"
  using object_members_rendered [OF assms] by (simp add: read_struct_def)

lemma unmarshal_into_readable:
  assumes "readable 0 v j"
  shows "json_unmarshal_into f zero v = (case f v zero of (ok, x) \<Rightarrow> if ok then Inr x else json_error)"
proof -
  have "parse_value Some 0 v = Some (j, [])" using assms unfolding readable_def by (metis append_Nil2)
  then have "json_valid v" by (simp add: json_valid_def skip_ws_def)
  then show ?thesis using raw_value_readable [OF assms, of "[]"] by (simp add: json_unmarshal_into_def)
qed

lemma unmarshal_into_rendered:
  assumes "kvs \<noteq> []" and "list_all (\<lambda>(k, v). plain k \<and> (\<exists>j. solid v j)) kvs"
  shows "json_unmarshal_into (read_struct fs) zero (raw_text kvs)
       = (case read_members fs kvs (True, zero) of (ok, x) \<Rightarrow> if ok then Inr x else json_error)"
proof -
  obtain j where j: "readable 0 (raw_text kvs) j"
    using readable_object [OF assms(1) list_all_readable [OF assms(2)], of 0] by auto
  show ?thesis
    by (simp add: unmarshal_into_readable [OF j] read_struct_rendered [OF assms(1) list_all_readable [OF assms(2)]])
qed

text \<open>Rendered arrays.\<close>

definition raw_array :: "string list \<Rightarrow> string" where
  "raw_array vs = CHR ''['' # commas vs @ '']''"

lemma hd_raw_array [simp]: "hd (raw_array vs) = CHR ''[''"
  by (simp add: raw_array_def)

lemma elem_step:
  assumes "readable d v j"
  shows "parse_elems Some d (v @ CHR '']'' # t) = Some ([j], t)"
    and "parse_elems Some d (v @ CHR '','' # t) = map_option (\<lambda>(vs, q). (j # vs, q)) (parse_elems Some d t)"
    and "raw_elems d (v @ CHR '']'' # t) = Some ([v], t)"
    and "raw_elems d (v @ CHR '','' # t) = map_option (\<lambda>(vs, q). (v # vs, q)) (raw_elems d t)"
proof -
  have val: "parse_value Some d (v @ y # t) = Some (j, y # t)" "raw_value d (v @ y # t) = Some (v, y # t)"
    if "y \<in> {CHR '','', CHR '']''}" for y
    using assms that raw_value_readable [OF assms, of "y # t"] by (auto simp: readable_def)
  show "parse_elems Some d (v @ CHR '']'' # t) = Some ([j], t)"
    "parse_elems Some d (v @ CHR '','' # t) = map_option (\<lambda>(vs, q). (j # vs, q)) (parse_elems Some d t)"
    "raw_elems d (v @ CHR '']'' # t) = Some ([v], t)"
    "raw_elems d (v @ CHR '','' # t) = map_option (\<lambda>(vs, q). (v # vs, q)) (raw_elems d t)"
    by (simp_all add: val skip_ws_solid is_json_space_def parse_elems.simps [of Some d "v @ _"] raw_elems.simps [of d "v @ _"])
qed

lemma elems_rendered:
  assumes "vs \<noteq> []" and "list_all (\<lambda>v. \<exists>j. readable d v j) vs"
  shows "\<exists>js. \<forall>r. parse_elems Some d (commas vs @ CHR '']'' # r) = Some (js, r)"
    and "raw_elems d (commas vs @ CHR '']'' # r) = Some (vs, r)"
  using assms
proof (induction vs rule: list_nonempty_induct)
  case (single v)
  case 1 then show ?case by (auto simp: elem_step)
  case 2 then show ?case by (auto simp: elem_step)
next
  case (cons v vs)
  case 1
  then obtain j js where "readable d v j" "\<forall>r. parse_elems Some d (commas vs @ CHR '']'' # r) = Some (js, r)"
    using cons(2) by auto
  then show ?case using cons(1) by (intro exI [of _ "j # js"]) (simp add: commas_Cons elem_step)
  case 2 then show ?case using cons(1,3) by (auto simp: commas_Cons elem_step)
qed

lemma readable_start: "readable d v j \<Longrightarrow> \<exists>c x. v = c # x \<and> \<not> is_json_space c \<and> c \<noteq> CHR '']''"
proof -
  assume v: "readable d v j"
  then obtain c x where cx: "v = c # x" "\<not> is_json_space c" by (cases v) (auto simp: readable_def)
  have "parse_value Some d v = Some (j, [])" using v unfolding readable_def by (metis append_Nil2)
  moreover have "parse_value Some d (CHR '']'' # x) = None"
    by (simp add: parse_value.simps skip_ws_solid is_json_space_def scan_number_def scan_int_def span_digits_def is_digit_def)
  ultimately show ?thesis using cx by auto
qed

lemma raw_array_start:
  assumes "vs \<noteq> []" and "list_all (\<lambda>v. \<exists>j. readable d v j) vs"
  shows "\<exists>c x. \<not> is_json_space c \<and> c \<noteq> CHR '']'' \<and> (\<forall>r. commas vs @ CHR '']'' # r = c # x @ CHR '']'' # r)"
proof -
  obtain v us where vs: "vs = v # us" using assms(1) by (cases vs) auto
  then obtain j where "readable d v j" using assms(2) by auto
  then obtain c x where "v = c # x" "\<not> is_json_space c" "c \<noteq> CHR '']''" using readable_start by blast
  then show ?thesis using vs by (cases us) auto
qed

lemma readable_array:
  assumes "vs \<noteq> []" and "list_all (\<lambda>v. \<exists>j. readable (Suc d) v j) vs" and "d < 10000"
  shows "\<exists>j. readable d (raw_array vs) j"
proof -
  obtain js where js: "\<forall>r. parse_elems Some (Suc d) (commas vs @ CHR '']'' # r) = Some (js, r)"
    using elems_rendered(1) [OF assms(1,2)] by blast
  obtain c x where x: "\<not> is_json_space c" "c \<noteq> CHR '']''" "\<forall>r. commas vs @ CHR '']'' # r = c # x @ CHR '']'' # r"
    using raw_array_start [OF assms(1,2)] by blast
  have "parse_value Some d (raw_array vs @ r) = Some (JArr js, r)" for r
    using js x assms(3) by (simp add: raw_array_def parse_value.simps skip_ws_solid is_json_space_def)
  then show ?thesis by (auto simp: readable_def raw_array_def is_json_space_def)
qed

text \<open>What \<^verbatim>\<open>json.Marshal\<close> writes for objects and structs of readable values is readable.\<close>

lemma readable_leaf:
  "readable d (json_string s) (JStr (valid_utf8 s))" "readable d (itoa i) (JNum (itoa i))"
  by (simp_all add: readable_def parse_value_string solid_readable [OF itoa_solid, unfolded readable_def])
     (simp add: json_string_def is_json_space_def)

lemma readable_empty_object: "d < 10000 \<Longrightarrow> readable d ''{}'' (JObj [])"
  by (simp add: readable_def parse_value.simps skip_ws_solid is_json_space_def)

lemma json_text_members:
  "json_text (JObj kvs) = raw_text (sort_key fst (map (\<lambda>(k, v). (k, json_text v)) kvs))"
  "json_text (JStruct kvs) = raw_text (map (\<lambda>(k, v). (k, json_text v)) kvs)"
  by (simp_all add: raw_text_def raw_member_def sort_key_map case_prod_unfold comp_def)

lemma readable_members:
  assumes "kvs \<noteq> []" and "list_all (\<lambda>(k, v). plain k \<and> (\<exists>j. readable (Suc d) (json_text v) j)) kvs" and "d < 10000"
  shows "\<exists>j. readable d (json_text (JObj kvs)) j" and "\<exists>j. readable d (json_text (JStruct kvs)) j"
proof -
  let ?kts = "map (\<lambda>(k, v). (k, json_text v)) kvs"
  have "sort_key fst ?kts \<noteq> []" using assms(1) by (metis length_0_conv length_map length_sort)
  moreover have all: "list_all (\<lambda>(k, v). plain k \<and> (\<exists>j. readable (Suc d) v j)) ?kts"
    using assms(2) by (auto simp: list_all_iff)
  then have "list_all (\<lambda>(k, v). plain k \<and> (\<exists>j. readable (Suc d) v j)) (sort_key fst ?kts)"
    by (simp add: list_all_iff)
  ultimately show "\<exists>j. readable d (json_text (JObj kvs)) j"
    unfolding json_text_members by (rule readable_object [OF _ _ assms(3)])
  show "\<exists>j. readable d (json_text (JStruct kvs)) j"
    unfolding json_text_members by (rule readable_object [OF _ all assms(3)]) (use assms(1) in simp)
qed

lemma read_slice_rendered:
  assumes "vs \<noteq> []" and "list_all (\<lambda>v. \<exists>j. readable 1 v j) vs"
  shows "read_slice f zero (raw_array vs) cur = read_elems f zero vs cur"
proof -
  obtain c x where "\<not> is_json_space c" "c \<noteq> CHR '']''" "\<forall>r. commas vs @ CHR '']'' # r = c # x @ CHR '']'' # r"
    using raw_array_start [OF assms] by blast
  then have "array_elems (raw_array vs) = vs"
    using elems_rendered(2) [OF assms, of "[]"] by (simp add: array_elems_def raw_array_def skip_ws_solid)
  then show ?thesis by (simp add: read_slice_def)
qed

lemma unmarshal_int64_itoa: "is_int64 i \<Longrightarrow> unmarshal_int64 (itoa i) = Inr i"
  using solid_valid [OF itoa_solid] solid_parse [OF itoa_solid] parse_int64_itoa by (simp add: unmarshal_int64_def)

lemma read_int64_itoa: "is_int64 i \<Longrightarrow> read_int64 (itoa i) cur = (True, i)"
proof -
  assume i: "is_int64 i"
  have "hd (itoa i) \<noteq> CHR ''n''"
    using dec_nat_first [of "nat i"] by (auto simp: itoa_def is_digit_def)
  then show ?thesis using unmarshal_int64_itoa [OF i] by (simp add: read_int64_def)
qed

text \<open>Field names of ASCII characters are told apart by their folded text.\<close>

lemma field_is_ascii: "is_ascii name \<Longrightarrow> is_ascii key \<Longrightarrow> field_is name key \<longleftrightarrow> map lower_char key = map lower_char name"
proof -
  have fold: "map (\<lambda>(i, r). fold_rune r) (go_range s) = map of_char (map lower_char s)" if "is_ascii s" for s
  proof -
    have "fold_rune (of_char c) = of_char (lower_char c)" if "byte_of c < 128" for c
      using that by (simp add: fold_rune_def byte_of_lower_char)
    then have "map fold_rune (map of_char s) = map of_char (map lower_char s)"
      using that by (auto simp: is_ascii_def list_all_iff)
    moreover have "map (\<lambda>(i, r). fold_rune r) z = map fold_rune (map snd z)" for z :: "(nat \<times> rune) list"
      by (induction z) auto
    ultimately show ?thesis using go_range_ascii [OF that] by (simp del: map_map)
  qed
  show "is_ascii name \<Longrightarrow> is_ascii key \<Longrightarrow> ?thesis"
    by (simp only: field_is_def fold) (metis inj_map_eq_map inj_of_char)
qed

lemma read_string_plain: "plain s \<Longrightarrow> read_string (json_string s) cur = (True, s)"
  using unmarshal_solid(1) [of s] by (simp add: read_string_def) (simp add: json_string_def)

section \<open>Base64\<close>

definition b64_char :: "nat \<Rightarrow> char" where
  "b64_char v =
     (if v < 26 then char_of (65 + v) else if v < 52 then char_of (71 + v)
      else if v < 62 then char_of (v - 4) else if v = 62 then CHR ''+'' else CHR ''/'')"

definition b64_value :: "char \<Rightarrow> nat option" where
  "b64_value c =
     (let b = byte_of c in
      if in_range 65 90 b then Some (b - 65) else if in_range 97 122 b then Some (b - 71)
      else if in_range 48 57 b then Some (b + 4) else if b = 43 then Some 62 else if b = 47 then Some 63 else None)"

fun b64_encode :: "nat list \<Rightarrow> string" where
  "b64_encode [] = []"
| "b64_encode [x] = [b64_char (x div 4), b64_char (x mod 4 * 16), CHR ''='', CHR ''='']"
| "b64_encode [x, y] =
     [b64_char (x div 4), b64_char (x mod 4 * 16 + y div 16), b64_char (y mod 16 * 4), CHR ''='']"
| "b64_encode (x # y # z # bs) =
     b64_char (x div 4) # b64_char (x mod 4 * 16 + y div 16) # b64_char (y mod 16 * 4 + z div 64)
     # b64_char (z mod 64) # b64_encode bs"

text \<open>Decoding; line breaks have been dropped. Unused low bits of the last digit are ignored.\<close>

fun b64_quanta :: "string \<Rightarrow> nat list result" where
  "b64_quanta [] = Inr []"
| "b64_quanta (a # b # c # d # s) =
     (case (b64_value a, b64_value b, b64_value c, b64_value d) of
        (Some v, Some w, Some x, Some y) \<Rightarrow>
          (case b64_quanta s of
             Inl err \<Rightarrow> Inl err
           | Inr bs \<Rightarrow> Inr ((v * 4 + w div 16) # (w mod 16 * 16 + x div 4) # (x mod 4 * 64 + y) # bs))
      | (Some v, Some w, Some x, None) \<Rightarrow>
          if d = CHR ''='' \<and> s = [] then Inr [v * 4 + w div 16, w mod 16 * 16 + x div 4]
          else Inl (ErrText ''illegal base64 data'')
      | (Some v, Some w, None, None) \<Rightarrow>
          if c = CHR ''='' \<and> d = CHR ''='' \<and> s = [] then Inr [v * 4 + w div 16]
          else Inl (ErrText ''illegal base64 data'')
      | _ \<Rightarrow> Inl (ErrText ''illegal base64 data''))"
| "b64_quanta _ = Inl (ErrText ''illegal base64 data'')"

definition b64_decode :: "string \<Rightarrow> nat list result" where
  "b64_decode s = b64_quanta (filter (\<lambda>c. c \<noteq> CHR 0x0A \<and> c \<noteq> CHR 0x0D) s)"

lemma byte_of_b64_char:
  "v < 64 \<Longrightarrow> byte_of (b64_char v) = (if v < 26 then 65 + v else if v < 52 then 71 + v
     else if v < 62 then v - 4 else if v = 62 then 43 else 47)"
  by (simp add: b64_char_def of_char_of)

lemma b64_value_char [simp]: "v < 64 \<Longrightarrow> b64_value (b64_char v) = Some v"
proof -
  assume "v < 64"
  then consider "v < 26" | "26 \<le> v" "v < 52" | "52 \<le> v" "v < 62" | "v = 62" | "v = 63" by linarith
  then show ?thesis by cases (simp_all add: b64_value_def byte_of_b64_char in_range_def Let_def, linarith)
qed

lemma b64_value_pad [simp]: "b64_value (CHR ''='') = None"
  by (simp add: b64_value_def in_range_def)

lemma b64_encode_chars: "list_all (\<lambda>b. b < 256) bs \<Longrightarrow> list_all (\<lambda>c. c \<noteq> CHR 0x0A \<and> c \<noteq> CHR 0x0D) (b64_encode bs)"
proof -
  have "b64_char v \<noteq> CHR 0x0A" "b64_char v \<noteq> CHR 0x0D" if "v < 64" for v
    using b64_value_char [OF that] by (auto simp: b64_value_def in_range_def)
  then show "list_all (\<lambda>b. b < 256) bs \<Longrightarrow> ?thesis"
    by (induction bs rule: b64_encode.induct) auto
qed

lemma b64_quanta_encode: "list_all (\<lambda>b. b < 256) bs \<Longrightarrow> b64_quanta (b64_encode bs) = Inr bs"
proof (induction bs rule: b64_encode.induct)
  case (2 x)
  then show ?case by simp
next
  case (3 x y)
  then have "x div 4 < 64" "x mod 4 * 16 + y div 16 < 64" "(x mod 4 * 16 + y div 16) div 16 = x mod 4"
    "(x mod 4 * 16 + y div 16) mod 16 = y div 16" by auto
  with 3 show ?case by simp
next
  case (4 x y z bs)
  then have "x div 4 < 64" "x mod 4 * 16 + y div 16 < 64" "(x mod 4 * 16 + y div 16) div 16 = x mod 4"
    "(x mod 4 * 16 + y div 16) mod 16 = y div 16" "y mod 16 * 4 + z div 64 < 64"
    "(y mod 16 * 4 + z div 64) div 4 = y mod 16" "(y mod 16 * 4 + z div 64) mod 4 = z div 64" by auto
  with 4 show ?case by simp
qed simp

lemma b64_round_trip: "list_all (\<lambda>b. b < 256) bs \<Longrightarrow> b64_decode (b64_encode bs) = Inr bs"
  using b64_encode_chars [of bs] by (simp add: b64_decode_def b64_quanta_encode list_all_iff)

section \<open>Floating point\<close>

text \<open>
  A positive float64 is \<open>m / 2 ^ k\<close> with 52 bits after the leading one. \<open>double_of p q\<close> is the nearest
  one to \<open>p / q\<close>, ties to even, for quotients from \<open>2 ^ -1000\<close> up to \<open>2 ^ 52\<close>.
\<close>

definition round_div :: "nat \<Rightarrow> nat \<Rightarrow> nat" where
  "round_div p q =
     (let d = p div q; r = p mod q in if q < 2 * r \<or> 2 * r = q \<and> odd d then d + 1 else d)"

definition double_of :: "nat \<Rightarrow> nat \<Rightarrow> nat \<times> nat" where
  "double_of p q =
     (case find (\<lambda>k. 2 ^ 52 * q \<le> p * 2 ^ k) [0 ..< 1053] of
        None \<Rightarrow> (0, 0)
      | Some k \<Rightarrow> (round_div (p * 2 ^ k) q, k))"

text \<open>\<^verbatim>\<open>%.1f\<close> of \<open>m / 2 ^ k\<close>.\<close>

definition format_fixed1 :: "nat \<times> nat \<Rightarrow> string" where
  "format_fixed1 x =
     (let t = round_div (fst x * 10) (2 ^ snd x) in dec_nat (t div 10) @ ''.'' @ dec_nat (t mod 10))"

end
