(* ===== verification/AI_Explainer.thy ===== *)
theory AI_Explainer
  imports AI_Guards Go_Struct
begin

text \<open>
  The explainer (\<^verbatim>\<open>explainer.go\<close>) and the model client it is wired to (\<^verbatim>\<open>llm_client.go\<close>). The world of a call
  is the record \<open>ai_world\<close>: the states of Redis, of the log store and of the model, the breaker, and a
  counter of clock readings. Each place of the code that may read the clock has a reading of its own.
\<close>

section \<open>explainer.go\<close>

record Exception_view =
  xv_ID :: int
  xv_ReasonCode :: string
  xv_EvidenceJSON :: "string option"
  xv_AmountAtRiskPaise :: int

record Explanation =
  xp_Text :: string
  xp_PromptVersion :: string

record CompletionRequest =
  cq_SystemPrompt :: string
  cq_UserPrompt :: string
  cq_MaxTokens :: int

record CompletionResponse =
  cp_Text :: string

text \<open>\<^verbatim>\<open>LLMClient\<close>: the request, the time the context allows, and the state of the model.\<close>

type_synonym 'l LLMClient = "CompletionRequest \<Rightarrow> duration \<Rightarrow> 'l \<Rightarrow> CompletionResponse result \<times> 'l"

record ('r, 's, 'l) Explainer =
  el_LLM :: "'l LLMClient option"
  el_Store :: "(AIExplanationLogRow \<Rightarrow> 's act) option"
  el_Budget :: "'r BudgetTracker option"
  el_SystemPrompt :: string
  el_PromptVersion :: string
  el_ModelName :: string
  el_MaxTokens :: int
  el_Timeout :: duration
  el_EstCostUSD :: rat
  el_now :: "nat \<Rightarrow> time"

record ('r, 's, 'l) ai_world =
  aw_redis :: 'r
  aw_store :: 's
  aw_llm :: 'l
  aw_breaker :: "CircuitBreaker option"
  aw_tick :: nat

definition el_timeout :: "('r, 's, 'l) Explainer \<Rightarrow> duration" where
  "el_timeout explainer = (if 0 < el_Timeout explainer then el_Timeout explainer else 5 * 1000000000)"

definition el_maxTokens :: "('r, 's, 'l) Explainer \<Rightarrow> int" where
  "el_maxTokens explainer = (if 0 < el_MaxTokens explainer then el_MaxTokens explainer else 300)"

text \<open>The float64 nearest to 0.01.\<close>

definition cent_usd :: rat where
  "cent_usd = 5764607523034235 / 576460752303423488"

definition el_estCost :: "('r, 's, 'l) Explainer \<Rightarrow> rat" where
  "el_estCost explainer = (if 0 < el_EstCostUSD explainer then el_EstCostUSD explainer else cent_usd)"

definition renderPrompt :: "Exception_view \<Rightarrow> string" where
  "renderPrompt exc =
     (let evidence = (case xv_EvidenceJSON exc of None \<Rightarrow> ''{}'' | Some e \<Rightarrow> e) in
      ''{'' @ [CHR 0x22] @ ''reason_code'' @ [CHR 0x22] @ '':'' @ go_quote (xv_ReasonCode exc)
      @ '','' @ [CHR 0x22] @ ''amount_at_risk_paise'' @ [CHR 0x22] @ '':'' @ itoa (xv_AmountAtRiskPaise exc)
      @ '','' @ [CHR 0x22] @ ''evidence'' @ [CHR 0x22] @ '':'' @ evidence @ ''}'')"

definition writeLog :: "('r, 's, 'l) Explainer \<Rightarrow> AIExplanationLogRow \<Rightarrow> ('r, 's, 'l) ai_world \<Rightarrow> ('r, 's, 'l) ai_world" where
  "writeLog explainer entry w =
     (case el_Store explainer of None \<Rightarrow> w | Some write \<Rightarrow> w\<lparr>aw_store := snd (write entry (aw_store w))\<rparr>)"

definition logSkip :: "('r, 's, 'l) Explainer \<Rightarrow> Exception_view \<Rightarrow> string \<Rightarrow> ('r, 's, 'l) ai_world \<Rightarrow> ('r, 's, 'l) ai_world" where
  "logSkip explainer exc reason w =
     writeLog explainer
       \<lparr>ai_ExceptionID = xv_ID exc, ai_PromptVersion = el_PromptVersion explainer, ai_Model = el_ModelName explainer,
        ai_InputSummaryJSON = Some (''{'' @ [CHR 0x22] @ ''skipped_reason'' @ [CHR 0x22] @ '':'' @ go_quote reason @ ''}''),
        ai_OutputText = [], ai_LatencyMS = 0, ai_Succeeded = False, ai_ErrorMessage = reason,
        ai_CreatedAt = el_now explainer (aw_tick w)\<rparr>
       (w\<lparr>aw_tick := aw_tick w + 1\<rparr>)"

text \<open>\<^verbatim>\<open>Duration.Milliseconds\<close>: the quotient towards zero.\<close>

definition milliseconds :: "duration \<Rightarrow> int" where
  "milliseconds d = (if d < 0 then - ((- d) div 1000000) else d div 1000000)"

definition completion_request :: "('r, 's, 'l) Explainer \<Rightarrow> Exception_view \<Rightarrow> CompletionRequest" where
  "completion_request explainer exc =
     \<lparr>cq_SystemPrompt = el_SystemPrompt explainer, cq_UserPrompt = renderPrompt exc, cq_MaxTokens = el_maxTokens explainer\<rparr>"

text \<open>The call of the model, from the prompt on.\<close>

definition call_model ::
  "('r, 's, 'l) Explainer \<Rightarrow> 'l LLMClient \<Rightarrow> Exception_view \<Rightarrow> ('r, 's, 'l) ai_world \<Rightarrow> Explanation result \<times> ('r, 's, 'l) ai_world" where
  "call_model explainer llm exc w =
     (let start = el_now explainer (aw_tick w) in
      case llm (completion_request explainer exc) (el_timeout explainer) (aw_llm w) of
        (response, l) \<Rightarrow>
          (let latency = time_sub (el_now explainer (aw_tick w + 1)) start;
               logEntry = \<lparr>ai_ExceptionID = xv_ID exc, ai_PromptVersion = el_PromptVersion explainer,
                 ai_Model = el_ModelName explainer, ai_InputSummaryJSON = Some (renderPrompt exc),
                 ai_OutputText = [], ai_LatencyMS = milliseconds latency, ai_Succeeded = False, ai_ErrorMessage = [],
                 ai_CreatedAt = el_now explainer (aw_tick w + 2)\<rparr>;
               w = w\<lparr>aw_llm := l, aw_tick := aw_tick w + 4\<rparr>
           in case response of
                Inl err \<Rightarrow>
                  (Inl (ErrWrap ''llm call: '' err []),
                   writeLog explainer (logEntry\<lparr>ai_ErrorMessage := err_text err\<rparr>)
                     (w\<lparr>aw_breaker := RecordFailure (el_now explainer (aw_tick w - 1)) (aw_breaker w)\<rparr>))
              | Inr r \<Rightarrow>
                  (Inr \<lparr>xp_Text = cp_Text r, xp_PromptVersion = el_PromptVersion explainer\<rparr>,
                   writeLog explainer (logEntry\<lparr>ai_Succeeded := True, ai_OutputText := cp_Text r\<rparr>)
                     (w\<lparr>aw_breaker := RecordSuccess (aw_breaker w)\<rparr>))))"

text \<open>From the breaker on.\<close>

definition guarded_call ::
  "('r, 's, 'l) Explainer \<Rightarrow> 'l LLMClient \<Rightarrow> Exception_view \<Rightarrow> ('r, 's, 'l) ai_world \<Rightarrow> Explanation result \<times> ('r, 's, 'l) ai_world" where
  "guarded_call explainer llm exc w =
     (let now = el_now explainer (aw_tick w); w = w\<lparr>aw_tick := aw_tick w + 1\<rparr> in
      if \<not> Allow now (aw_breaker w) then (Inl ErrCircuitOpen, logSkip explainer exc ''circuit breaker open'' w)
      else call_model explainer llm exc w)"

definition Explain ::
  "('r, 's, 'l) Explainer \<Rightarrow> string \<Rightarrow> Exception_view \<Rightarrow> ('r, 's, 'l) ai_world \<Rightarrow> Explanation result \<times> ('r, 's, 'l) ai_world" where
  "Explain explainer batchRunID exc w =
     (case el_LLM explainer of
        None \<Rightarrow> (Inl (ErrText ''ai: explainer has no LLM client configured''), w)
      | Some llm \<Rightarrow>
          (case el_Budget explainer of
             None \<Rightarrow> guarded_call explainer llm exc w
           | Some tracker \<Rightarrow>
               (case CheckAndReserve (Some tracker) batchRunID (el_estCost explainer) (aw_redis w) of
                  (Inl err, r) \<Rightarrow> (Inl (ErrWrap ''check ai budget: '' err []), w\<lparr>aw_redis := r\<rparr>)
                | (Inr ok, r) \<Rightarrow>
                    if ok then guarded_call explainer llm exc (w\<lparr>aw_redis := r\<rparr>)
                    else (Inl ErrBudgetExceeded,
                          logSkip explainer exc ''budget cap reached before this call'' (w\<lparr>aw_redis := r\<rparr>)))))"

section \<open>llm_client.go\<close>

definition defaultGeminiBaseURL :: string where
  "defaultGeminiBaseURL = ''https://generativelanguage.googleapis.com/v1beta/models''"

record GeminiLLMClient =
  gc_apiKey :: string
  gc_model :: string
  gc_baseURL :: string

definition NewGeminiLLMClient :: "string \<Rightarrow> string \<Rightarrow> GeminiLLMClient option" where
  "NewGeminiLLMClient apiKey model =
     (if apiKey = [] \<or> model = [] then None else Some \<lparr>gc_apiKey = apiKey, gc_model = model, gc_baseURL = []\<rparr>)"

text \<open>The HTTP client: whether a request for the URL can be made, and the answer to a POST, its status and body.\<close>

record 'h http_client =
  ht_NewRequest :: "string \<Rightarrow> go_error option"
  ht_Do :: "string \<Rightarrow> string \<Rightarrow> duration \<Rightarrow> 'h \<Rightarrow> (int \<times> string) result \<times> 'h"

definition gemini_payload :: "CompletionRequest \<Rightarrow> json" where
  "gemini_payload req =
     JObj [(''systemInstruction'', JObj [(''parts'', JArr [JObj [(''text'', JStr (cq_SystemPrompt req))]])]),
           (''contents'', JArr [JObj [(''role'', JStr ''user''),
                                      (''parts'', JArr [JObj [(''text'', JStr (cq_UserPrompt req))]])]]),
           (''generationConfig'', JObj [(''maxOutputTokens'', JInt (cq_MaxTokens req))])]"

text \<open>
  The structs of the response have one field each, so a value is that of its field: the candidates,
  for each the texts of its parts.
\<close>

definition gemini_result :: "string list list reader" where
  "gemini_result =
     read_struct [(''candidates'', read_slice
       (read_struct [(''content'', read_struct [(''parts'', read_slice (read_struct [(''text'', read_string)]) [])])]) [])]"

definition Complete ::
  "GeminiLLMClient option \<Rightarrow> 'h http_client \<Rightarrow> 'h LLMClient" where
  "Complete c client req timeout h =
     (case c of
        None \<Rightarrow> (Inl (ErrText ''gemini llm client not configured''), h)
      | Some g \<Rightarrow>
          (let base = (if gc_baseURL g = [] then defaultGeminiBaseURL else gc_baseURL g);
               url = base @ ''/'' @ gc_model g @ '':generateContent?key='' @ gc_apiKey g in
           case json_marshal (gemini_payload req) of
             Inl err \<Rightarrow> (Inl (ErrWrap ''marshal payload: '' err []), h)
           | Inr body \<Rightarrow>
               (case ht_NewRequest client url of
                  Some err \<Rightarrow> (Inl (ErrWrap ''create request: '' err []), h)
                | None \<Rightarrow>
                    (case ht_Do client url body timeout h of
                       (Inl err, h') \<Rightarrow> (Inl (ErrWrap ''do request: '' err []), h')
                     | (Inr (status, answer), h') \<Rightarrow>
                         if status \<noteq> 200 then
                           (Inl (ErrText (''gemini api error (status '' @ itoa status @ ''): '' @ answer)), h')
                         else (case json_decode_limited None gemini_result [] answer of
                                 Inl err \<Rightarrow> (Inl (ErrWrap ''decode response: '' err []), h')
                               | Inr candidates \<Rightarrow>
                                   if candidates = [] \<or> hd candidates = [] then
                                     (Inl (ErrText ''empty response from gemini''), h')
                                   else (Inr \<lparr>cp_Text = concat (hd candidates)\<rparr>, h'))))))"

section \<open>Properties of the explainer\<close>

lemma time_sub_less: "a - b < c \<Longrightarrow> 0 < c \<Longrightarrow> time_sub a b < c"
  by (simp add: time_sub_def int64_defs)

lemma writeLog_sel [simp]:
  "aw_llm (writeLog el row w) = aw_llm w" "aw_redis (writeLog el row w) = aw_redis w"
  "aw_breaker (writeLog el row w) = aw_breaker w" "aw_tick (writeLog el row w) = aw_tick w"
  "el_Store el = Some write \<Longrightarrow> aw_store (writeLog el row w) = snd (write row (aw_store w))"
  by (auto simp: writeLog_def split: option.splits)

lemma logSkip_sel [simp]:
  "aw_llm (logSkip el exc reason w) = aw_llm w" "aw_redis (logSkip el exc reason w) = aw_redis w"
  "aw_breaker (logSkip el exc reason w) = aw_breaker w" "aw_tick (logSkip el exc reason w) = aw_tick w + 1"
  by (simp_all add: logSkip_def)

text \<open>The four ways a configured explainer ends.\<close>

lemma Explain_cases:
  assumes "Explain el batch exc w = (res, w')" and "el_LLM el = Some llm"
  obtains (budget_error) err r where "res = Inl (ErrWrap ''check ai budget: '' err [])" "w' = w\<lparr>aw_redis := r\<rparr>"
  | (over_budget) r where "res = Inl ErrBudgetExceeded"
      "w' = logSkip el exc ''budget cap reached before this call'' (w\<lparr>aw_redis := r\<rparr>)"
  | (open_breaker) r where "res = Inl ErrCircuitOpen" "\<not> Allow (el_now el (aw_tick w)) (aw_breaker w)"
      "w' = logSkip el exc ''circuit breaker open'' (w\<lparr>aw_redis := r, aw_tick := aw_tick w + 1\<rparr>)"
  | (called) r where "Allow (el_now el (aw_tick w)) (aw_breaker w)"
      "(res, w') = call_model el llm exc (w\<lparr>aw_redis := r, aw_tick := aw_tick w + 1\<rparr>)"
proof -
  have guarded: thesis if run: "guarded_call el llm exc (w\<lparr>aw_redis := r\<rparr>) = (res, w')" for r
  proof (cases "Allow (el_now el (aw_tick w)) (aw_breaker w)")
    case True
    then show ?thesis using run by (intro called [of r]) (simp_all add: guarded_call_def)
  next
    case False
    then show ?thesis using run by (intro open_breaker [of r]) (simp_all add: guarded_call_def)
  qed
  show thesis
  proof (cases "el_Budget el")
    case None
    then show ?thesis using assms by (intro guarded [of "aw_redis w"]) (simp add: Explain_def)
  next
    case (Some tracker)
    obtain x r where x: "CheckAndReserve (Some tracker) batch (el_estCost el) (aw_redis w) = (x, r)" by (metis prod.exhaust)
    consider err where "x = Inl err" | "x = Inr False" | "x = Inr True" by (cases x) auto
    then show ?thesis
    proof cases
      case 1
      then show ?thesis using assms Some x by (intro budget_error [of err r]) (simp_all add: Explain_def)
    next
      case 2
      then show ?thesis using assms Some x by (intro over_budget [of r]) (simp_all add: Explain_def)
    next
      case 3
      then show ?thesis using assms Some x by (intro guarded [of r]) (simp add: Explain_def)
    qed
  qed
qed

lemma call_model_cases:
  assumes "(res, w') = call_model el llm exc w" and "llm (completion_request el exc) (el_timeout el) (aw_llm w) = (response, l)"
  shows "aw_llm w' = l" and "aw_redis w' = aw_redis w"
    and "response = Inl err \<Longrightarrow> res = Inl (ErrWrap ''llm call: '' err [])
           \<and> aw_breaker w' = RecordFailure (el_now el (3 + aw_tick w)) (aw_breaker w) \<and> aw_tick w' = aw_tick w + 4"
    and "response = Inr r \<Longrightarrow> res = Inr \<lparr>xp_Text = cp_Text r, xp_PromptVersion = el_PromptVersion el\<rparr>
           \<and> aw_breaker w' = RecordSuccess (aw_breaker w) \<and> aw_tick w' = aw_tick w + 4"
    and "el_Store el = Some write \<Longrightarrow> \<exists>row. aw_store w' = snd (write row (aw_store w))
           \<and> ai_ExceptionID row = xv_ID exc \<and> ai_PromptVersion row = el_PromptVersion el
           \<and> (case res of Inr x \<Rightarrow> ai_Succeeded row \<and> ai_OutputText row = xp_Text x
              | Inl err \<Rightarrow> \<not> ai_Succeeded row \<and> ai_OutputText row = [])"
  using assms by (auto simp: call_model_def Let_def split: sum.splits)


text \<open>
  The model is called at most once and sees nothing but the evidence: a call that is skipped, over
  budget or behind an open breaker, does not reach the model; any other sends exactly one request, made
  of the configured prompt and the fields of the exception, and returns the model's text unchanged or
  its error.
\<close>

theorem model_called_once:
  assumes "Explain el batch exc w = (res, w')" and "el_LLM el = Some llm"
    and "llm \<lparr>cq_SystemPrompt = el_SystemPrompt el, cq_UserPrompt = renderPrompt exc, cq_MaxTokens = el_maxTokens el\<rparr>
           (el_timeout el) (aw_llm w) = (response, l)"
  shows "if res \<in> {Inl ErrBudgetExceeded, Inl ErrCircuitOpen} \<or> (\<exists>err. res = Inl (ErrWrap ''check ai budget: '' err []))
     then aw_llm w' = aw_llm w
     else aw_llm w' = l
       \<and> res = (case response of Inl err \<Rightarrow> Inl (ErrWrap ''llm call: '' err [])
                | Inr r \<Rightarrow> Inr \<lparr>xp_Text = cp_Text r, xp_PromptVersion = el_PromptVersion el\<rparr>)"
  using assms(1,2)
proof (cases rule: Explain_cases)
  case (called r)
  have "llm (completion_request el exc) (el_timeout el) (aw_llm w) = (response, l)"
    using assms(3) by (simp add: completion_request_def)
  with call_model_cases [OF called(2), of response l] show ?thesis by (cases response) auto
qed simp_all

text \<open>Explanations of several exceptions, one after the other.\<close>

fun explain_all ::
  "('r, 's, 'l) Explainer \<Rightarrow> string \<Rightarrow> Exception_view list \<Rightarrow> ('r, 's, 'l) ai_world \<Rightarrow> ('r, 's, 'l) ai_world" where
  "explain_all el batch [] w = w"
| "explain_all el batch (exc # excs) w = explain_all el batch excs (snd (Explain el batch exc w))"

lemma failing_call:
  assumes "el_LLM el = Some llm" and "el_Budget el = None"
    and "\<And>req d l. llm req d l = (Inl err, Suc l)" and "Allow (el_now el (aw_tick w)) (aw_breaker w)"
  shows "\<exists>w'. Explain el batch exc w = (Inl (ErrWrap ''llm call: '' err []), w') \<and> aw_llm w' = Suc (aw_llm w)
       \<and> aw_breaker w' = RecordFailure (el_now el (4 + aw_tick w)) (aw_breaker w)"
proof -
  let ?v = "w\<lparr>aw_tick := aw_tick w + 1\<rparr>"
  obtain res w' where run: "(res, w') = call_model el llm exc ?v" by (metis prod.exhaust)
  moreover have "Explain el batch exc w = call_model el llm exc ?v"
    using assms(1,2,4) by (simp add: Explain_def guarded_call_def)
  moreover have "llm (completion_request el exc) (el_timeout el) (aw_llm ?v) = (Inl err, Suc (aw_llm w))"
    using assms(3) by simp
  note facts = call_model_cases(1) [OF run this] call_model_cases(3) [OF run this refl]
  have "3 + aw_tick ?v = 4 + aw_tick w" by simp
  ultimately show ?thesis using facts by (intro exI [of _ w']) (simp del: add_Suc_right)
qed

lemma outage_run:
  assumes "el_LLM el = Some llm" and "el_Budget el = None" and "\<And>req d l. llm req d l = (Inl err, Suc l)"
    and "0 < cb_failureThreshold new" and "aw_breaker w = Some b" and "tracks new h b"
    and "length (failing h) + length excs \<le> nat (cb_failureThreshold new)"
  shows "\<exists>h' b'. aw_breaker (explain_all el batch excs w) = Some b' \<and> tracks new h' b'
       \<and> length (failing h') = length (failing h) + length excs
       \<and> set (failing h') \<subseteq> set (failing h) \<union> range (el_now el)
       \<and> aw_llm (explain_all el batch excs w) = aw_llm w + length excs"
  using assms(5-7)
proof (induction excs arbitrary: w b h)
  case (Cons exc excs)
  have "cb_consecutiveFail b < cb_failureThreshold b"
    using Cons.prems(2,3) assms(4) by (simp add: tracks_def)
  then have "Allow (el_now el (aw_tick w)) (aw_breaker w)" using Cons.prems(1) by (simp add: Allow_def)
  from failing_call [OF assms(1-3) this, of batch exc] obtain w' where w': "snd (Explain el batch exc w) = w'" "aw_llm w' = Suc (aw_llm w)"
    "aw_breaker w' = RecordFailure (el_now el (4 + aw_tick w)) (aw_breaker w)" by (metis snd_conv)
  obtain b' where b': "aw_breaker w' = Some b'" "tracks new (Failed (el_now el (4 + aw_tick w)) # h) b'"
    using tracks_steps(3) [OF Cons.prems(2)] Cons.prems(1) w'(3) by metis
  from Cons.IH [OF b'] Cons.prems(3) show ?case using w'(1,2) by fastforce
qed auto


text \<open>
  An open breaker still spends the budget: the cost is reserved before the breaker is asked, and
  nothing takes the reservation back, so an explanation that is skipped without reaching the model is
  charged in full.
\<close>

theorem open_breaker_charges_budget:
  assumes "el_LLM el = Some llm" and "el_Budget el = Some tracker" and "float_counter (bt_client tracker) spent"
    and "CheckAndReserve (Some tracker) batch (el_estCost el) (aw_redis w) = (Inr True, r')"
    and "\<not> Allow (el_now el (aw_tick w)) (aw_breaker w)" and "Explain el batch exc w = (res, w')"
  shows "res = Inl ErrCircuitOpen \<and> aw_llm w' = aw_llm w
       \<and> spent (aw_redis w') (bt_keyPrefix tracker @ batch) = spent (aw_redis w) (bt_keyPrefix tracker @ batch) + el_estCost el"
proof -
  have "spent r' (bt_keyPrefix tracker @ batch) = spent (aw_redis w) (bt_keyPrefix tracker @ batch) + el_estCost el"
    using assms(4) float_counter.reserve_spent(1) [OF assms(3) refl]
    by (auto simp: CheckAndReserve_def Let_def split: if_splits prod.splits sum.splits)
  moreover have "res = Inl ErrCircuitOpen \<and> aw_llm w' = aw_llm w \<and> aw_redis w' = r'"
    using assms(1,2,4-6) by (auto simp: Explain_def guarded_call_def Let_def)
  ultimately show ?thesis by simp
qed

section \<open>Examples\<close>

text \<open>A log that keeps its rows, a model that counts its calls and fails or echoes.\<close>

definition log_write :: "AIExplanationLogRow \<Rightarrow> AIExplanationLogRow list act" where
  "log_write row s = (None, row # s)"

definition broken_llm :: "nat LLMClient" where
  "broken_llm req d l = (Inl (ErrText ''timeout''), Suc l)"

definition echo_llm :: "nat LLMClient" where
  "echo_llm req d l = (Inr \<lparr>cp_Text = cq_UserPrompt req\<rparr>, Suc l)"

definition sample_explainer ::
  "nat LLMClient \<Rightarrow> (string \<Rightarrow> rat) BudgetTracker option \<Rightarrow> (string \<Rightarrow> rat, AIExplanationLogRow list, nat) Explainer" where
  "sample_explainer llm budget =
     \<lparr>el_LLM = Some llm, el_Store = Some log_write, el_Budget = budget, el_SystemPrompt = ''explain'',
      el_PromptVersion = ''v1'', el_ModelName = ''m'', el_MaxTokens = 0, el_Timeout = 0, el_EstCostUSD = 1,
      el_now = (\<lambda>n. 0)\<rparr>"

definition sample_world :: "CircuitBreaker option \<Rightarrow> (string \<Rightarrow> rat, AIExplanationLogRow list, nat) ai_world" where
  "sample_world breaker = \<lparr>aw_redis = (\<lambda>_. 0), aw_store = [], aw_llm = 0, aw_breaker = breaker, aw_tick = 0\<rparr>"

definition sample_view :: Exception_view where
  "sample_view = \<lparr>xv_ID = 7, xv_ReasonCode = ''LEDGER_ORPHAN'', xv_EvidenceJSON = None, xv_AmountAtRiskPaise = 500\<rparr>"

lemma sample_sel [simp]:
  "el_LLM (sample_explainer llm budget) = Some llm" "el_Budget (sample_explainer llm budget) = budget"
  "el_Store (sample_explainer llm budget) = Some log_write" "el_now (sample_explainer llm budget) = (\<lambda>n. 0)"
  "el_estCost (sample_explainer llm budget) = 1" "aw_breaker (sample_world breaker) = breaker"
  "aw_llm (sample_world breaker) = 0" "aw_redis (sample_world breaker) = (\<lambda>_. 0)" "aw_tick (sample_world breaker) = 0"
  "aw_store (sample_world breaker) = []"
  by (simp_all add: sample_explainer_def sample_world_def el_estCost_def)


theorem model_called_once_witness:
  "\<exists>res w'. Explain (sample_explainer broken_llm None) ''b'' sample_view (sample_world None) = (res, w')
     \<and> aw_llm w' = 1 \<and> res = Inl (ErrWrap ''llm call: '' (ErrText ''timeout'') [])"
proof -
  obtain w' where w': "Explain (sample_explainer broken_llm None) ''b'' sample_view (sample_world None)
      = (Inl (ErrWrap ''llm call: '' (ErrText ''timeout'') []), w')"
    by (simp add: Explain_def guarded_call_def call_model_def Allow_def broken_llm_def)
  from model_called_once [OF w', of broken_llm "Inl (ErrText ''timeout'')" 1] w' show ?thesis by (simp add: broken_llm_def)
qed


theorem open_breaker_charges_budget_witness:
  "\<exists>w'. Explain (sample_explainer broken_llm (Some (counter_tracker 10))) ''b'' sample_view
          (sample_world (Some \<lparr>cb_failureThreshold = 3, cb_cooldown = 5, cb_consecutiveFail = 3, cb_openedAt = 0\<rparr>))
        = (Inl ErrCircuitOpen, w') \<and> aw_redis w' ''ai_budget:b'' = 1"
proof -
  let ?b = "\<lparr>cb_failureThreshold = 3, cb_cooldown = 5, cb_consecutiveFail = 3, cb_openedAt = 0\<rparr>"
  obtain res w' where run: "Explain (sample_explainer broken_llm (Some (counter_tracker 10))) ''b'' sample_view (sample_world (Some ?b)) = (res, w')"
    by (metis prod.exhaust)
  have "CheckAndReserve (Some (counter_tracker 10)) ''b'' 1 (\<lambda>_. 0) = (Inr True, (\<lambda>_. 0)(''ai_budget:b'' := 1))"
    by (simp add: CheckAndReserve_def) (simp add: counter_tracker_def)
  then have reserved: "\<exists>r'. CheckAndReserve (Some (counter_tracker 10)) ''b'' 1 (\<lambda>_. 0) = (Inr True, r')" by blast
  have key: "bt_keyPrefix (counter_tracker 10) = ''ai_budget:''" by (simp add: counter_tracker_def)
  have closed: "\<not> Allow 0 (Some ?b)" by (simp add: Allow_def time_sub_def int64_defs)
  from open_breaker_charges_budget [of "sample_explainer broken_llm (Some (counter_tracker 10))" broken_llm "counter_tracker 10" "\<lambda>r. r"
      "''b''" "sample_world (Some ?b)" _ sample_view res w'] run reserved closed key counter.float_counter_axioms
  show ?thesis by auto
qed

end
