(* ===== verification/QA_Agent.thy ===== *)
theory QA_Agent
  imports AI_Explainer
begin

text \<open>
  The question answering agent, package \<^verbatim>\<open>internal/ai/qa\<close>: routing of a question (\<^verbatim>\<open>classify.go\<close>) and
  answering it from fixed store queries (\<^verbatim>\<open>answer.go\<close>). The two regular expressions are written out as
  scans; evidence rows are JSON objects. The world of a call is \<open>ai_world\<close>, as for the explainer.
\<close>

section \<open>classify.go\<close>

type_synonym Intent = string

definition IntentWhyNotSettled :: Intent where "IntentWhyNotSettled = ''why_not_settled''"
definition IntentAmountAtRisk :: Intent where "IntentAmountAtRisk = ''amount_at_risk''"
definition IntentWorstMethod :: Intent where "IntentWorstMethod = ''worst_method_by_match_rate''"
definition IntentUnsupported :: Intent where "IntentUnsupported = ''unsupported''"

lemmas intent_defs = IntentWhyNotSettled_def IntentAmountAtRisk_def IntentWorstMethod_def IntentUnsupported_def

record Classification =
  cl_Intent :: Intent
  cl_PaymentID :: string
  cl_WindowDays :: int
  cl_Since :: time

definition defaultWindowDays :: int where "defaultWindowDays = 7"
definition maxWindowDays :: int where "maxWindowDays = 90"

definition is_alnum :: "char \<Rightarrow> bool" where
  "is_alnum c \<longleftrightarrow> is_digit c \<or> in_range 65 90 (byte_of c) \<or> in_range 97 122 (byte_of c)"

definition is_word :: "char \<Rightarrow> bool" where
  "is_word c \<longleftrightarrow> is_alnum c \<or> c = CHR ''_''"

text \<open>
  \<^verbatim>\<open>\bpay_[A-Za-z0-9]+\<close> at the head of the text; the flag tells whether a word character stands before it.
\<close>

definition payment_id_here :: "bool \<Rightarrow> string \<Rightarrow> string option" where
  "payment_id_here after_word s =
     (let tail = takeWhile is_alnum (drop 4 s) in
      if \<not> after_word \<and> prefix ''pay_'' s \<and> tail \<noteq> [] then Some (''pay_'' @ tail) else None)"

text \<open>\<^verbatim>\<open>FindAllString\<close>: the matches from left to right, without overlap.\<close>

function payment_ids :: "bool \<Rightarrow> string \<Rightarrow> string list" where
  "payment_ids after_word [] = []"
| "payment_ids after_word (c # s) =
     (case payment_id_here after_word (c # s) of
        Some found \<Rightarrow> found # payment_ids True (drop (length found - 1) s)
      | None \<Rightarrow> payment_ids (is_word c) s)"
  by pat_completeness auto
termination
  by (relation "measure (\<lambda>(w, s). length s)") auto

text \<open>\<^verbatim>\<open>FindString\<close>: the first match, empty when there is none.\<close>

definition first_payment_id :: "string \<Rightarrow> string" where
  "first_payment_id question = (case payment_ids False question of [] \<Rightarrow> [] | found # rest \<Rightarrow> found)"

text \<open>\<^verbatim>\<open>\blast\s+(\d{1,3})\s+days?\b\<close>: the digits of a match at the head, and the leftmost match.\<close>

definition re_space :: "char \<Rightarrow> bool" where
  "re_space c \<longleftrightarrow> byte_of c \<in> {9, 10, 12, 13, 32}"

definition word_ends :: "string \<Rightarrow> bool" where
  "word_ends s \<longleftrightarrow> s = [] \<or> \<not> is_word (hd s)"

definition last_days_here :: "bool \<Rightarrow> string \<Rightarrow> string option" where
  "last_days_here after_word s =
     (let r = drop 4 s; r1 = dropWhile re_space r; ds = takeWhile is_digit r1;
          r2 = dropWhile is_digit r1; r3 = dropWhile re_space r2; r4 = drop 3 r3
      in if \<not> after_word \<and> prefix ''last'' s \<and> r1 \<noteq> r \<and> 1 \<le> length ds \<and> length ds \<le> 3 \<and> r3 \<noteq> r2
            \<and> prefix ''day'' r3 \<and> (prefix ''s'' r4 \<and> word_ends (tl r4) \<or> word_ends r4)
         then Some ds else None)"

fun find_last_days :: "bool \<Rightarrow> string \<Rightarrow> string option" where
  "find_last_days after_word [] = None"
| "find_last_days after_word (c # s) =
     (case last_days_here after_word (c # s) of
        Some ds \<Rightarrow> Some ds
      | None \<Rightarrow> find_last_days (is_word c) s)"

definition clampDays :: "int \<Rightarrow> int" where
  "clampDays days = (if days < 1 then 1 else if days > maxWindowDays then maxWindowDays else days)"

definition parseWindowDays :: "string \<Rightarrow> int" where
  "parseWindowDays lower =
     (let fallback = (if contains lower ''today'' then 1 else if contains lower ''month'' then 30 else defaultWindowDays) in
      case find_last_days False lower of
        Some ds \<Rightarrow> (case parse_int64 ds of Inr n \<Rightarrow> clampDays n | Inl err \<Rightarrow> fallback)
      | None \<Rightarrow> fallback)"

definition containsAny :: "string \<Rightarrow> string list \<Rightarrow> bool" where
  "containsAny txt needles = list_ex (contains txt) needles"

definition Classify :: "string \<Rightarrow> time \<Rightarrow> Classification" where
  "Classify question now =
     (let lower = to_lower question; ident = first_payment_id question;
          none = \<lparr>cl_Intent = IntentUnsupported, cl_PaymentID = [], cl_WindowDays = 0, cl_Since = zero_time\<rparr> in
      if ident \<noteq> [] then none\<lparr>cl_Intent := IntentWhyNotSettled, cl_PaymentID := ident\<rparr>
      else if containsAny lower [''worst'', ''lowest'', ''poorest'']
              \<and> containsAny lower [''method'', ''match rate'', ''match-rate'', ''matching'']
      then (let days = parseWindowDays lower in
            none\<lparr>cl_Intent := IntentWorstMethod, cl_WindowDays := days, cl_Since := now - days * day\<rparr>)
      else if containsAny lower [''how much'', ''how many'', ''total'', ''at risk'', ''unresolved'', ''outstanding'']
      then none\<lparr>cl_Intent := IntentAmountAtRisk\<rparr>
      else none)"

section \<open>answer.go\<close>

definition SourceLLM :: string where "SourceLLM = ''llm''"
definition SourceDeterministic :: string where "SourceDeterministic = ''deterministic''"

record Answer =
  an_Text :: string
  an_Intent :: Intent
  an_EvidenceRows :: "json list"
  an_AnswerSource :: string
  an_PromptVersion :: string
  an_DegradedReason :: string

text \<open>\<^verbatim>\<open>QAStore\<close>, over the state of the store.\<close>

record 's QAStore =
  qs_WhyNotSettled :: "string \<Rightarrow> 's \<Rightarrow> WhyNotSettledRow list result \<times> 's"
  qs_UnresolvedAmountByReason :: "'s \<Rightarrow> ReasonAggregateRow list result \<times> 's"
  qs_WorstMethodsByMatchRate :: "time \<Rightarrow> int \<Rightarrow> 's \<Rightarrow> MethodMatchRateRow list result \<times> 's"

record ('r, 's, 'l) Agent =
  ag_Store :: "'s QAStore option"
  ag_LLM :: "'l LLMClient option"
  ag_Budget :: "'r BudgetTracker option"
  ag_SystemPrompt :: string
  ag_PromptVersion :: string
  ag_BudgetKey :: string
  ag_MaxTokens :: int
  ag_Timeout :: duration
  ag_EstCostUSD :: rat
  ag_Now :: "nat \<Rightarrow> time"

definition unsupportedText :: string where
  "unsupportedText =
     ''I can only answer three kinds of questions: why a specific payment (give its pay_ ID) '' @
     ''has not settled, how much is currently at risk in unresolved exceptions, and which payment '' @
     ''methods have the worst match rate recently.''"

definition ag_budgetKey :: "('r, 's, 'l) Agent \<Rightarrow> string" where
  "ag_budgetKey agent = (if ag_BudgetKey agent \<noteq> [] then ag_BudgetKey agent else ''api:qa'')"

definition ag_timeout :: "('r, 's, 'l) Agent \<Rightarrow> duration" where
  "ag_timeout agent = (if 0 < ag_Timeout agent then ag_Timeout agent else 5 * 1000000000)"

definition ag_maxTokens :: "('r, 's, 'l) Agent \<Rightarrow> int" where
  "ag_maxTokens agent = (if 0 < ag_MaxTokens agent then ag_MaxTokens agent else 400)"

definition ag_estCost :: "('r, 's, 'l) Agent \<Rightarrow> rat" where
  "ag_estCost agent = (if 0 < ag_EstCostUSD agent then ag_EstCostUSD agent else cent_usd)"

subsection \<open>Summaries\<close>

definition plural :: "nat \<Rightarrow> string \<Rightarrow> string" where
  "plural n noun = (if n = 1 then ''1 '' @ noun else dec_nat n @ '' '' @ noun @ ''s'')"

text \<open>Division of \<^verbatim>\<open>int64\<close> values, towards zero; \<^verbatim>\<open>%02d\<close>.\<close>

definition quot100 :: "int \<Rightarrow> int \<times> int" where
  "quot100 i = (if i < 0 then (- ((- i) div 100), - ((- i) mod 100)) else (i div 100, i mod 100))"

definition two_digits :: "int \<Rightarrow> string" where
  "two_digits i = (if i < 0 then itoa i else pad_left 2 (itoa i))"

definition formatINR :: "int \<Rightarrow> string" where
  "formatINR paise =
     (let sign = (if paise < 0 then ''-'' else []); p = (if paise < 0 then wrap64 (- paise) else paise)
      in sign @ ''INR '' @ itoa (fst (quot100 p)) @ ''.'' @ two_digits (snd (quot100 p)))"

text \<open>Values inside a map of evidence: a raw message, a time, a match rate in ten-thousandths.\<close>

definition json_raw :: "string \<Rightarrow> json" where
  "json_raw s = (if json_valid s then JNum (json_compact s) else JUnsupported)"

definition json_time :: "time option \<Rightarrow> json" where
  "json_time t =
     (case t of
        None \<Rightarrow> JNull
      | Some t \<Rightarrow> (case civil_from_days (t div ns_per_day) of
                     (y, m, d) \<Rightarrow> if 0 \<le> y \<and> y \<le> 9999 then JStr (rfc3339nano t) else JUnsupported))"

definition json_rate :: "int \<Rightarrow> json" where
  "json_rate n =
     JNum (dec_nat (nat (n div 10000)) @
       (if n mod 10000 = 0 then []
        else CHR ''.'' # rev (dropWhile (\<lambda>c. c = CHR ''0'') (rev (pad_left 4 (dec_nat (nat (n mod 10000))))))))"

definition summarizeWhyNotSettled :: "string \<Rightarrow> WhyNotSettledRow list \<Rightarrow> string \<times> json list" where
  "summarizeWhyNotSettled paymentID rows =
     (let evidence = map (\<lambda>row. JObj [(''reason_code'', JStr (wn_ReasonCode row)),
            (''amount_at_risk_paise'', JInt (wn_AmountAtRiskPaise row)), (''resolved_at'', json_time (wn_ResolvedAt row)),
            (''evidence'', json_raw (wn_EvidenceJSON row))]) rows in
      case rows of
        [] \<Rightarrow> (''No exceptions are on record for '' @ paymentID @
               '', so the exception log has nothing to say about it. '' @
               ''That does not by itself confirm the payment settled.'', evidence)
      | latest # rest \<Rightarrow>
          (let state = (case wn_ResolvedAt latest of None \<Rightarrow> ''still unresolved'' | Some t \<Rightarrow> ''resolved at '' @ rfc3339 t) in
           (paymentID @ '' has '' @ plural (length rows) ''exception'' @ '' on record. The most recent has reason '' @
            wn_ReasonCode latest @ '' with '' @ formatINR (wn_AmountAtRiskPaise latest) @ '' at risk and is '' @ state @ ''.'', evidence)))"

definition summarizeAmountAtRisk :: "ReasonAggregateRow list \<Rightarrow> string \<times> json list" where
  "summarizeAmountAtRisk rows =
     (let evidence = map (\<lambda>row. JObj [(''reason_code'', JStr (ra_ReasonCode row)),
            (''total_at_risk_paise'', JInt (ra_TotalAtRiskPaise row)), (''count'', JInt (int (ra_Count row)))]) rows;
          totalPaise = foldl (\<lambda>acc row. wrap64 (acc + ra_TotalAtRiskPaise row)) 0 rows;
          totalCount = sum_list (map ra_Count rows) in
      case rows of
        [] \<Rightarrow> (''There are no unresolved exceptions right now.'', evidence)
      | largest # rest \<Rightarrow>
          (''There are '' @ plural totalCount ''unresolved exception'' @ '' with '' @ formatINR totalPaise @
           '' at risk in total. The largest share is '' @ ra_ReasonCode largest @ '': '' @ formatINR (ra_TotalAtRiskPaise largest) @
           '' across '' @ plural (ra_Count largest) ''exception'' @ ''.'', evidence))"

text \<open>The percentage: the float64 nearest to the rate, times 100 in float64 arithmetic, with one decimal.\<close>

definition percent_text :: "int \<Rightarrow> string" where
  "percent_text rate =
     (let x = double_of (nat rate) 10000 in format_fixed1 (double_of (fst x * 100) (2 ^ snd x)))"

definition summarizeWorstMethods :: "time \<Rightarrow> MethodMatchRateRow list \<Rightarrow> string \<times> json list" where
  "summarizeWorstMethods since rows =
     (let evidence = map (\<lambda>row. JObj [(''method'', JStr (mm_Method row)), (''match_rate'', json_rate (mm_MatchRate row)),
            (''since'', JStr (rfc3339 since))]) rows;
          day = format_date since in
      case rows of
        [] \<Rightarrow> (''No captured payments were found since '' @ day @ '', so no method match rates can be computed.'', evidence)
      | worst # rest \<Rightarrow>
          (''Among payments captured since '' @ day @ '', '' @ mm_Method worst @ '' has the lowest match rate at '' @
           percent_text (mm_MatchRate worst) @ ''% ('' @ dec_nat (length rows) @ '' method(s) compared).'', evidence))"

subsection \<open>Composition\<close>

definition groundedInEvidence :: "string \<Rightarrow> string \<Rightarrow> string \<Rightarrow> bool" where
  "groundedInEvidence txt question payload =
     (let allowed = question @ '' '' @ payload in list_all (contains allowed) (payment_ids False txt))"

definition qa_payload :: "string \<Rightarrow> Intent \<Rightarrow> json list \<Rightarrow> json" where
  "qa_payload question intent evidence =
     JStruct [(''question'', JStr question), (''intent'', JStr intent), (''rows'', JArr evidence)]"

text \<open>The call of the model, from the marshalled payload on.\<close>

definition ask_model ::
  "('r, 's, 'l) Agent \<Rightarrow> 'l LLMClient \<Rightarrow> string \<Rightarrow> string \<Rightarrow> ('r, 's, 'l) ai_world \<Rightarrow> (string \<times> string) \<times> ('r, 's, 'l) ai_world" where
  "ask_model agent llm question payload w =
     (case llm \<lparr>cq_SystemPrompt = ag_SystemPrompt agent, cq_UserPrompt = payload, cq_MaxTokens = ag_maxTokens agent\<rparr>
             (ag_timeout agent) (aw_llm w) of
        (response, l) \<Rightarrow>
          (let now = ag_Now agent (aw_tick w); w = w\<lparr>aw_llm := l, aw_tick := aw_tick w + 1\<rparr> in
           case response of
             Inl err \<Rightarrow> (([], ''answer composition temporarily unavailable''),
                         w\<lparr>aw_breaker := RecordFailure now (aw_breaker w)\<rparr>)
           | Inr r \<Rightarrow>
               (let txt = trim_space (cp_Text r) in
                if txt = [] then (([], ''ai returned an empty answer''), w\<lparr>aw_breaker := RecordFailure now (aw_breaker w)\<rparr>)
                else (let w = w\<lparr>aw_breaker := RecordSuccess (aw_breaker w)\<rparr> in
                      if \<not> groundedInEvidence txt question payload
                      then (([], ''ai answer referenced data outside the evidence rows; showing the deterministic summary instead''), w)
                      else ((txt, []), w)))))"

definition compose_guarded ::
  "('r, 's, 'l) Agent \<Rightarrow> 'l LLMClient \<Rightarrow> string \<Rightarrow> Intent \<Rightarrow> json list \<Rightarrow> ('r, 's, 'l) ai_world \<Rightarrow>
   (string \<times> string) \<times> ('r, 's, 'l) ai_world" where
  "compose_guarded agent llm question intent evidence w =
     (let now = ag_Now agent (aw_tick w); w = w\<lparr>aw_tick := aw_tick w + 1\<rparr> in
      if \<not> Allow now (aw_breaker w) then (([], err_text ErrCircuitOpen), w)
      else (case json_marshal (qa_payload question intent evidence) of
              Inl err \<Rightarrow> (([], ''could not encode evidence rows for the model''), w)
            | Inr payload \<Rightarrow> ask_model agent llm question payload w))"

definition compose ::
  "('r, 's, 'l) Agent \<Rightarrow> string \<Rightarrow> Intent \<Rightarrow> json list \<Rightarrow> ('r, 's, 'l) ai_world \<Rightarrow> (string \<times> string) \<times> ('r, 's, 'l) ai_world" where
  "compose agent question intent evidence w =
     (case ag_LLM agent of
        None \<Rightarrow> (([], ''ai answer composition not configured''), w)
      | Some llm \<Rightarrow>
          (case ag_Budget agent of
             None \<Rightarrow> compose_guarded agent llm question intent evidence w
           | Some tracker \<Rightarrow>
               (case CheckAndReserve (Some tracker) (ag_budgetKey agent) (ag_estCost agent) (aw_redis w) of
                  (Inl err, r) \<Rightarrow> (([], ''ai budget check failed''), w\<lparr>aw_redis := r\<rparr>)
                | (Inr ok, r) \<Rightarrow>
                    if ok then compose_guarded agent llm question intent evidence (w\<lparr>aw_redis := r\<rparr>)
                    else (([], err_text ErrBudgetExceeded), w\<lparr>aw_redis := r\<rparr>))))"

text \<open>The one query of a question, with the summary and the evidence of its rows; \<open>None\<close> for an unsupported one.\<close>

definition lookup_rows :: "'s QAStore \<Rightarrow> Classification \<Rightarrow> 's \<Rightarrow> (string \<times> json list) option result \<times> 's" where
  "lookup_rows store classification s =
     (if cl_Intent classification = IntentWhyNotSettled then
        (case qs_WhyNotSettled store (cl_PaymentID classification) s of
           (Inl err, s') \<Rightarrow> (Inl (ErrWrap ''qa: why not settled: '' err []), s')
         | (Inr rows, s') \<Rightarrow> (Inr (Some (summarizeWhyNotSettled (cl_PaymentID classification) rows)), s'))
      else if cl_Intent classification = IntentAmountAtRisk then
        (case qs_UnresolvedAmountByReason store s of
           (Inl err, s') \<Rightarrow> (Inl (ErrWrap ''qa: unresolved amount by reason: '' err []), s')
         | (Inr rows, s') \<Rightarrow> (Inr (Some (summarizeAmountAtRisk rows)), s'))
      else if cl_Intent classification = IntentWorstMethod then
        (case qs_WorstMethodsByMatchRate store (cl_Since classification) 5 s of
           (Inl err, s') \<Rightarrow> (Inl (ErrWrap ''qa: worst methods by match rate: '' err []), s')
         | (Inr rows, s') \<Rightarrow> (Inr (Some (summarizeWorstMethods (cl_Since classification) rows)), s'))
      else (Inr None, s))"

definition answer_from ::
  "('r, 's, 'l) Agent \<Rightarrow> string \<Rightarrow> Intent \<Rightarrow> string \<times> json list \<Rightarrow> ('r, 's, 'l) ai_world \<Rightarrow> Answer \<times> ('r, 's, 'l) ai_world" where
  "answer_from agent question intent found w =
     (let answer = \<lparr>an_Text = fst found, an_Intent = intent, an_EvidenceRows = snd found,
                    an_AnswerSource = SourceDeterministic, an_PromptVersion = [], an_DegradedReason = []\<rparr> in
      if snd found = [] then (answer, w)
      else (case compose agent question intent (snd found) w of
              ((txt, reason), w') \<Rightarrow>
                if reason \<noteq> [] then (answer\<lparr>an_DegradedReason := reason\<rparr>, w')
                else (answer\<lparr>an_Text := txt, an_AnswerSource := SourceLLM, an_PromptVersion := ag_PromptVersion agent\<rparr>, w')))"

definition Answer_question ::
  "('r, 's, 'l) Agent option \<Rightarrow> string \<Rightarrow> ('r, 's, 'l) ai_world \<Rightarrow> Answer result \<times> ('r, 's, 'l) ai_world" where
  "Answer_question agent question w =
     (case Option.bind agent ag_Store of
        None \<Rightarrow> (Inl (ErrText ''qa: agent has no store configured''), w)
      | Some store \<Rightarrow>
          (let classification = Classify question (ag_Now (the agent) (aw_tick w)) in
           case lookup_rows store classification (aw_store w) of
             (Inl err, s) \<Rightarrow> (Inl err, w\<lparr>aw_store := s, aw_tick := aw_tick w + 1\<rparr>)
           | (Inr None, s) \<Rightarrow>
               (Inr \<lparr>an_Text = unsupportedText, an_Intent = IntentUnsupported, an_EvidenceRows = [],
                     an_AnswerSource = SourceDeterministic, an_PromptVersion = [], an_DegradedReason = []\<rparr>,
                w\<lparr>aw_store := s, aw_tick := aw_tick w + 1\<rparr>)
           | (Inr (Some found), s) \<Rightarrow>
               (case answer_from (the agent) question (cl_Intent classification) found
                       (w\<lparr>aw_store := s, aw_tick := aw_tick w + 1\<rparr>) of
                  (answer, w') \<Rightarrow> (Inr answer, w'))))"

section \<open>Routing\<close>

text \<open>A found identifier has the shape of the pattern and occurs in the text.\<close>

definition payment_id_shape :: "string \<Rightarrow> bool" where
  "payment_id_shape ident \<longleftrightarrow> (\<exists>tail. ident = ''pay_'' @ tail \<and> tail \<noteq> [] \<and> list_all is_alnum tail)"

lemma payment_id_here_Some:
  "payment_id_here w s = Some ident \<Longrightarrow> payment_id_shape ident \<and> prefix ident s"
proof -
  assume "payment_id_here w s = Some ident"
  then have id: "ident = ''pay_'' @ takeWhile is_alnum (drop 4 s)" "takeWhile is_alnum (drop 4 s) \<noteq> []" "prefix ''pay_'' s"
    by (auto simp: payment_id_here_def Let_def split: if_splits)
  then obtain r where s: "s = ''pay_'' @ r" by (auto simp: prefix_def)
  have "prefix (takeWhile is_alnum r) r" by (metis prefix_def takeWhile_dropWhile_id)
  then show ?thesis
    using id s by (auto simp: payment_id_shape_def list_all_iff dest: set_takeWhileD)
qed

lemma payment_ids_sound:
  "ident \<in> set (payment_ids w s) \<Longrightarrow> payment_id_shape ident \<and> contains s ident"
proof (induction w s rule: payment_ids.induct)
  case (2 w c s)
  show ?case
  proof (cases "payment_id_here w (c # s)")
    case None
    then show ?thesis using 2 by auto
  next
    case (Some found)
    then have "payment_id_shape found" "prefix found (c # s)" using payment_id_here_Some by blast+
    moreover have "contains (c # s) ident" if "contains (drop n s) ident" for n
      using that by (metis append_take_drop_id append_Cons append_Nil2 contains_append)
    ultimately show ?thesis using 2 Some by auto
  qed
qed simp

lemma first_payment_id_sound:
  "first_payment_id question \<noteq> [] \<Longrightarrow>
     payment_id_shape (first_payment_id question) \<and> contains question (first_payment_id question)"
  using payment_ids_sound [of "first_payment_id question" False question]
  by (auto simp: first_payment_id_def split: list.splits)

lemma clampDays_range: "1 \<le> clampDays n \<and> clampDays n \<le> 90"
  by (simp add: clampDays_def maxWindowDays_def)

lemma parseWindowDays_range: "1 \<le> parseWindowDays lower \<and> parseWindowDays lower \<le> 90"
  using clampDays_range
  by (auto simp: parseWindowDays_def Let_def defaultWindowDays_def split: option.splits sum.splits)


section \<open>Answers\<close>

lemma ask_model_grounded:
  assumes "ask_model agent llm question payload w = ((txt, reason), w')"
  shows "reason = [] \<Longrightarrow> groundedInEvidence txt question payload" and "aw_store w' = aw_store w"
  using assms by (auto simp: ask_model_def Let_def split: prod.splits sum.splits if_splits)

lemma compose_grounded:
  assumes "compose agent question intent evidence w = ((txt, reason), w')" and "reason = []"
  shows "json_supported (qa_payload question intent evidence)
       \<and> groundedInEvidence txt question (json_text (qa_payload question intent evidence))"
proof -
  have guarded: "json_supported (qa_payload question intent evidence)
      \<and> groundedInEvidence txt question (json_text (qa_payload question intent evidence))"
    if "compose_guarded agent llm question intent evidence v = ((txt, reason), w')" for llm v
    using that assms(2) ask_model_grounded(1)
    by (auto simp: compose_guarded_def Let_def json_marshal_def split: if_splits)
  show ?thesis
  proof (cases "ag_LLM agent")
    case None
    then show ?thesis using assms by (simp add: compose_def)
  next
    case (Some llm)
    show ?thesis
    proof (cases "ag_Budget agent")
      case None
      then show ?thesis using assms Some guarded by (simp add: compose_def)
    next
      case (Some tracker)
      obtain x r where "CheckAndReserve (Some tracker) (ag_budgetKey agent) (ag_estCost agent) (aw_redis w) = (x, r)"
        by (metis prod.exhaust)
      then show ?thesis
        using assms Some \<open>ag_LLM agent = Some llm\<close> guarded by (cases x) (auto simp: compose_def split: if_splits)
    qed
  qed
qed

text \<open>
  C31: the evidence does not depend on the model: whenever the store answers, so does the agent, with the
  rows of the one query of the question, whatever the model, the budget and the breaker do. The text is
  the deterministic summary, or the model's; then there were rows, and every payment identifier in it
  occurs in the question or in the rows.
\<close>

theorem answer_rests_on_rows:
  assumes "ag_Store agent = Some store"
    and "lookup_rows store (Classify question (ag_Now agent (aw_tick w))) (aw_store w) = (Inr (Some (summary, rows)), s)"
  shows "\<exists>a w'. Answer_question (Some agent) question w = (Inr a, w')
     \<and> an_EvidenceRows a = rows \<and> an_Intent a = cl_Intent (Classify question (ag_Now agent (aw_tick w)))
     \<and> (an_AnswerSource a = SourceDeterministic \<and> an_Text a = summary
        \<or> an_AnswerSource a = SourceLLM \<and> rows \<noteq> [] \<and> an_DegradedReason a = []
          \<and> (\<forall>ident \<in> set (payment_ids False (an_Text a)).
               contains (question @ '' '' @ json_text (qa_payload question (an_Intent a) rows)) ident))"
proof -
  let ?c = "Classify question (ag_Now agent (aw_tick w))" and ?w = "w\<lparr>aw_store := s, aw_tick := aw_tick w + 1\<rparr>"
  obtain a w' where a: "answer_from agent question (cl_Intent ?c) (summary, rows) ?w = (a, w')" by (metis prod.exhaust)
  then have run: "Answer_question (Some agent) question w = (Inr a, w')"
    using assms by (simp add: Answer_question_def Let_def)
  obtain said reason v where v: "compose agent question (cl_Intent ?c) rows ?w = ((said, reason), v)" by (metis prod.exhaust)
  consider "rows = []" | "rows \<noteq> []" "reason \<noteq> []" | "rows \<noteq> []" "reason = []" by blast
  then show ?thesis
  proof cases
    case 1
    then show ?thesis using a by (intro exI [of _ a] exI [of _ w'] conjI run) (auto simp: answer_from_def)
  next
    case 2
    then show ?thesis using a v by (intro exI [of _ a] exI [of _ w'] conjI run) (auto simp: answer_from_def)
  next
    case 3
    note grounded = compose_grounded [OF v 3(2)]
    show ?thesis
      using a v 3 grounded
      by (intro exI [of _ a] exI [of _ w'] conjI run) (auto simp: answer_from_def groundedInEvidence_def list_all_iff)
  qed
qed

text \<open>A store with one exception, and an agent over it whose model answers a fixed text.\<close>

definition sample_qa_store :: "nat QAStore" where
  "sample_qa_store =
     \<lparr>qs_WhyNotSettled = (\<lambda>ident s. (Inr [\<lparr>wn_ReasonCode = ''LEDGER_ORPHAN'', wn_EvidenceJSON = ''{}'',
                                             wn_AmountAtRiskPaise = 500, wn_ResolvedAt = None\<rparr>], s)),
      qs_UnresolvedAmountByReason = (\<lambda>s. (Inr [], s)), qs_WorstMethodsByMatchRate = (\<lambda>t n s. (Inr [], s))\<rparr>"

definition sample_agent :: "nat LLMClient option \<Rightarrow> (string \<Rightarrow> rat, nat, nat) Agent" where
  "sample_agent llm =
     \<lparr>ag_Store = Some sample_qa_store, ag_LLM = llm, ag_Budget = None, ag_SystemPrompt = [], ag_PromptVersion = ''v1'',
      ag_BudgetKey = [], ag_MaxTokens = 0, ag_Timeout = 0, ag_EstCostUSD = 0, ag_Now = (\<lambda>n. 0)\<rparr>"

lemma Classify_pay: "Classify ''pay_9?'' now
    = \<lparr>cl_Intent = IntentWhyNotSettled, cl_PaymentID = ''pay_9'', cl_WindowDays = 0, cl_Since = zero_time\<rparr>"
  by (simp add: Classify_def Let_def first_payment_id_def payment_id_here_def is_alnum_def is_digit_def in_range_def)

theorem answer_rests_on_rows_witness:
  "\<exists>a w' rows. Answer_question (Some (sample_agent (Some broken_llm))) ''pay_9?''
        \<lparr>aw_redis = (\<lambda>_. 0), aw_store = 0, aw_llm = 0, aw_breaker = None, aw_tick = 0\<rparr> = (Inr a, w')
     \<and> length rows = 1 \<and> an_EvidenceRows a = rows \<and> an_Intent a = IntentWhyNotSettled"
proof -
  let ?w = "\<lparr>aw_redis = (\<lambda>_. 0), aw_store = 0, aw_llm = 0, aw_breaker = None, aw_tick = 0\<rparr>"
  let ?row = "\<lparr>wn_ReasonCode = ''LEDGER_ORPHAN'', wn_EvidenceJSON = ''{}'', wn_AmountAtRiskPaise = 500, wn_ResolvedAt = None\<rparr>"
  obtain summary rows where sum: "summarizeWhyNotSettled ''pay_9'' [?row] = (summary, rows)" by (metis prod.exhaust)
  then have "length rows = 1" by (auto simp: summarizeWhyNotSettled_def Let_def)
  moreover have "lookup_rows sample_qa_store (Classify ''pay_9?'' 0) 0 = (Inr (Some (summary, rows)), 0)"
    using sum by (simp add: lookup_rows_def Classify_pay sample_qa_store_def)
  ultimately show ?thesis
    using answer_rests_on_rows [of "sample_agent (Some broken_llm)" sample_qa_store "''pay_9?''" ?w summary rows 0]
    by (auto simp: sample_agent_def Classify_pay)
qed

text \<open>
  The grounding check accepts an identifier that is only a part of one in the question: with a
  question about \<^verbatim>\<open>pay_123\<close>, a text about \<^verbatim>\<open>pay_12\<close>, a payment nobody mentioned, passes whatever the rows are.
\<close>

theorem grounding_accepts_truncated_id:
  "groundedInEvidence ''pay_12 has settled'' ''why is pay_123 late'' payload
   \<and> ''pay_12'' \<notin> set (payment_ids False ''why is pay_123 late'')"
proof -
  note eval = payment_id_here_def is_alnum_def is_word_def is_digit_def in_range_def
  have said: "payment_ids False ''pay_12 has settled'' = [''pay_12'']" by (simp add: eval)
  have "payment_ids False ''why is pay_123 late'' = [''pay_123'']" by (simp add: eval)
  moreover have "contains (''why is pay_123 late'' @ rest) ''pay_12''" for rest
    unfolding contains_iff by (intro exI [of _ "''why is ''"] exI [of _ "''3 late'' @ rest"]) simp
  ultimately show ?thesis by (simp add: groundedInEvidence_def said Let_def del: contains.simps payment_ids.simps)
qed

end
