(* ===== verification/MySQL_Store.thy ===== *)
theory MySQL_Store
  imports Store_Rows
begin

text \<open>
  \<^verbatim>\<open>internal/store/mysql.go\<close>, \<^verbatim>\<open>audit_mysql.go\<close> and \<^verbatim>\<open>qa_mysql.go\<close>: the production store. Tables are lists of
  rows in insertion order with the constraints of \<^verbatim>\<open>migrations/*.up.sql\<close> (unique keys, checks, the foreign
  key); every statement the code issues is a function on them, written from its SQL text.

  What the database server and its driver decide is the parameter \<open>engine\<close>:
  \<open>eg_fault n\<close> is the error reported for the \<open>n\<close>-th statement (\<open>None\<close>: it succeeds), \<open>eg_id n\<close> the
  AUTO_INCREMENT value it draws, \<open>eg_key\<close> the collation's sort key of a string, \<open>eg_json\<close> the text a JSON
  column returns for a stored text (\<open>None\<close>: the server rejects the text), \<open>eg_time\<close> what a DATETIME(6) column or argument keeps of a time,
  \<open>eg_perm n k\<close> the order in which the \<open>n\<close>-th statement visits \<open>k\<close> rows, \<open>eg_avg\<close> the SQL average, and
  \<open>eg_float\<close> Go's decoding of a number literal (see \<open>json_unmarshal\<close>). A statement that reports an error,
  a failing commit included, has no effect. Statements of one connection run one after another.
\<close>

section \<open>The database\<close>

record engine =
  eg_fault :: "nat \<Rightarrow> go_error option"
  eg_id :: "nat \<Rightarrow> int"
  eg_key :: "string \<Rightarrow> string"
  eg_json :: "string \<Rightarrow> string option"
  eg_time :: "time \<Rightarrow> time"
  eg_perm :: "nat \<Rightarrow> nat \<Rightarrow> nat list"
  eg_avg :: "nat \<Rightarrow> nat \<Rightarrow> int"
  eg_float :: "string \<Rightarrow> string option"

record LedgerDB =
  ld_id :: int
  ld_row :: LedgerRow
  ld_matched_payment_id :: "string option"

record AuditDB =
  ad_id :: int
  ad_event_type :: string
  ad_payload_json :: string
  ad_previous_hash :: "string option"
  ad_row_hash :: string
  ad_created_at :: time

text \<open>In \<open>tb_payments\<close> the first component is the nullable \<^verbatim>\<open>order_id\<close> column; \<open>db_ops\<close> counts statements.\<close>

record db =
  tb_raw_events :: "RawEvent list"
  tb_payments :: "(string option \<times> PaymentRow) list"
  tb_settlement_lines :: "(int \<times> SettlementRow) list"
  tb_bank_lines :: "(int \<times> BankRow) list"
  tb_ledger_lines :: "LedgerDB list"
  tb_match_results :: "(int \<times> MatchResultRow) list"
  tb_exception_log :: "ExceptionRecord list"
  tb_audit_log :: "AuditDB list"
  tb_ai_explanation_log :: "(string option \<times> AIExplanationLogRow) list"
  db_ops :: nat

definition same_tables :: "db \<Rightarrow> db \<Rightarrow> bool" where
  "same_tables d d' \<longleftrightarrow> d' = d\<lparr>db_ops := db_ops d'\<rparr>"

definition sql_eq :: "engine \<Rightarrow> string \<Rightarrow> string \<Rightarrow> bool" where
  "sql_eq e a b \<longleftrightarrow> eg_key e a = eg_key e b"

text \<open>The rows of a table in the order a statement visits them.\<close>

definition scan_rows :: "engine \<Rightarrow> nat \<Rightarrow> 'a list \<Rightarrow> 'a list" where
  "scan_rows e n xs = map ((!) xs) (eg_perm e n (length xs))"

text \<open>Every scan visits every row once.\<close>

definition full_scans :: "engine \<Rightarrow> bool" where
  "full_scans e \<longleftrightarrow> (\<forall>n k. mset (eg_perm e n k) = mset [0 ..< k])"

lemma mset_scan_rows: "full_scans e \<Longrightarrow> mset (scan_rows e n xs) = mset xs"
proof -
  assume "full_scans e"
  then have "mset (eg_perm e n (length xs)) = mset [0 ..< length xs]"
    unfolding full_scans_def by blast
  then have "mset (map ((!) xs) (eg_perm e n (length xs))) = mset (map ((!) xs) [0 ..< length xs])"
    by (metis mset_map)
  then show ?thesis by (simp add: scan_rows_def map_nth)
qed

lemma set_scan_rows: "full_scans e \<Longrightarrow> set (scan_rows e n xs) = set xs"
  using mset_scan_rows by (metis set_mset_mset)

text \<open>One statement: it draws the next number, and reports the fault of that number or runs.\<close>

definition stmt :: "engine \<Rightarrow> db act \<Rightarrow> db act" where
  "stmt e f d =
     (let d' = d\<lparr>db_ops := Suc (db_ops d)\<rparr> in
      case eg_fault e (db_ops d) of Some err \<Rightarrow> (Some err, d') | None \<Rightarrow> f d')"

text \<open>
  A query: an error of \<^verbatim>\<open>QueryContext\<close> is wrapped with the given text, an error while iterating
  (\<^verbatim>\<open>rows.Err()\<close>) is returned as it is. The scanned columns have the types of their targets.
\<close>

definition query :: "engine \<Rightarrow> string \<Rightarrow> (nat \<Rightarrow> 'a result) \<Rightarrow> db \<Rightarrow> 'a result \<times> db" where
  "query e pre f d =
     (let n = db_ops d; d' = d\<lparr>db_ops := n + 2\<rparr> in
      case eg_fault e n of
        Some err \<Rightarrow> (Inl (ErrWrap pre err []), d')
      | None \<Rightarrow> (case f n of
                   Inl err \<Rightarrow> (Inl err, d')
                 | Inr v \<Rightarrow> (case eg_fault e (n + 1) of Some err \<Rightarrow> (Inl err, d') | None \<Rightarrow> (Inr v, d'))))"

section \<open>mysql.go: the store and its transactions\<close>

record MySQLStore =
  my_db :: engine
  my_beginner :: bool

definition OpenMySQLStore :: "engine \<Rightarrow> MySQLStore" where
  "OpenMySQLStore e = \<lparr>my_db = e, my_beginner = True\<rparr>"

definition rollback :: "db \<Rightarrow> db \<Rightarrow> db" where
  "rollback d d' = d\<lparr>db_ops := db_ops d'\<rparr>"

text \<open>\<^verbatim>\<open>BeginTx\<close> and \<^verbatim>\<open>Commit\<close> change no table.\<close>

definition tx_mark :: "engine \<Rightarrow> db act" where
  "tx_mark e = stmt e (\<lambda>d. (None, d))"

definition my_InTx :: "MySQLStore \<Rightarrow> (MySQLStore \<Rightarrow> db act) \<Rightarrow> db act" where
  "my_InTx store fn d =
     (if \<not> my_beginner store then fn store d
      else (case tx_mark (my_db store) d of
              (Some err, d1) \<Rightarrow> (Some (ErrWrap ''begin ingest tx: '' err []), d1)
            | (None, d1) \<Rightarrow>
                (let nested = \<lparr>my_db = my_db store, my_beginner = False\<rparr> in
                 case fn nested d1 of
                   (Some err, d2) \<Rightarrow> (Some err, rollback d1 d2)
                 | (None, d2) \<Rightarrow>
                     (case tx_mark (my_db store) d2 of
                        (Some err, d3) \<Rightarrow> (Some (ErrWrap ''commit ingest tx: '' err []), rollback d1 d3)
                      | (None, d3) \<Rightarrow> (None, d3)))))"

text \<open>\<^verbatim>\<open>guardedDB.ExecContext\<close> and \<^verbatim>\<open>guardedTx.ExecContext\<close>.\<close>

definition guarded_exec :: "engine \<Rightarrow> string \<Rightarrow> db act \<Rightarrow> db act" where
  "guarded_exec e q f d = (case GuardMutation q of Some err \<Rightarrow> (Some err, d) | None \<Rightarrow> stmt e f d)"

text \<open>\<^verbatim>\<open>errors.As(err, &mysqlErr)\<close>: the number of the first driver error in the chain.\<close>

fun mysql_number :: "go_error \<Rightarrow> nat option" where
  "mysql_number (MySQLError n msg) = Some n"
| "mysql_number (ErrWrap p e q) = mysql_number e"
| "mysql_number _ = None"

definition mapDuplicate :: "go_error option \<Rightarrow> go_error option" where
  "mapDuplicate err =
     (case err of
        None \<Rightarrow> None
      | Some e \<Rightarrow>
          if mysql_number e = Some 1062 then Some ErrDuplicate
          else if contains (to_lower (err_text e)) ''duplicate'' then Some ErrDuplicate
          else Some e)"

definition nullString :: "string \<Rightarrow> string option" where
  "nullString value = (if value = [] then None else Some value)"

section \<open>mysql.go: ingest writes\<close>

text \<open>Line breaks of the statement texts, which are indented with tabs.\<close>

definition ln :: "nat \<Rightarrow> string" where
  "ln k = CHR 0x0A # replicate k (CHR 0x09)"

definition sql_insert_raw_event :: string where
  "sql_insert_raw_event = ln 2 @
   ''INSERT INTO raw_events (source, external_id, event_type, idempotency_key, payload_json, received_at)'' @ ln 2 @
   ''VALUES (?, ?, ?, ?, ?, ?)''"

text \<open>A JSON column: the server checks the text and keeps its own rendering.\<close>

definition json_column :: "engine \<Rightarrow> string \<Rightarrow> (string \<Rightarrow> db act) \<Rightarrow> db act" where
  "json_column e text f d =
     (case eg_json e text of
        None \<Rightarrow> (Some (MySQLError 3140 ''Invalid JSON text.''), d)
      | Some stored \<Rightarrow> f stored d)"

definition raw_stored :: "engine \<Rightarrow> RawEvent \<Rightarrow> RawEvent" where
  "raw_stored e ev =
     ev\<lparr>re_Payload := (case eg_json e (re_Payload ev) of Some t \<Rightarrow> t | None \<Rightarrow> re_Payload ev),
        re_ReceivedAt := eg_time e (re_ReceivedAt ev)\<rparr>"

definition dup_entry :: "string \<Rightarrow> go_error" where
  "dup_entry index = MySQLError 1062 (''Duplicate entry for key '' @ index)"

definition my_InsertRawEvent :: "MySQLStore \<Rightarrow> RawEvent \<Rightarrow> db act" where
  "my_InsertRawEvent store event d =
     (let e = my_db store;
          (err, d') = guarded_exec e sql_insert_raw_event
            (json_column e (re_Payload event) (\<lambda>payload d.
               if list_ex (\<lambda>r. sql_eq e (re_IdempotencyKey r) (re_IdempotencyKey event)) (tb_raw_events d)
               then (Some (dup_entry ''uq_raw_events_idempotency''), d)
               else (None, d\<lparr>tb_raw_events := tb_raw_events d @
                       [event\<lparr>re_Payload := payload, re_ReceivedAt := eg_time e (re_ReceivedAt event)\<rparr>]\<rparr>))) d
      in (mapDuplicate err, d'))"

definition sql_insert_payment :: string where
  "sql_insert_payment = ln 2 @ ''INSERT INTO payments ('' @ ln 3 @
   ''payment_id, order_id, amount_paise, fee_paise, tax_paise, currency, method, status, captured_at, source_event_at''
   @ ln 2 @ '') VALUES (?, ?, ?, ?, ?, ?, ?, ?, ?, ?)'' @ ln 2 @ ''ON DUPLICATE KEY UPDATE payment_id = payment_id''"

definition pay_stored :: "engine \<Rightarrow> PaymentRow \<Rightarrow> PaymentRow" where
  "pay_stored e p = p\<lparr>pr_CapturedAt := map_option (eg_time e) (pr_CapturedAt p),
                      pr_SourceEventAt := eg_time e (pr_SourceEventAt p)\<rparr>"

text \<open>The CHECK constraints of the table \<^verbatim>\<open>payments\<close> come before its key.\<close>

definition my_InsertPayment :: "MySQLStore \<Rightarrow> PaymentRow \<Rightarrow> db act" where
  "my_InsertPayment store payment =
     (let e = my_db store in
      guarded_exec e sql_insert_payment
        (\<lambda>d. if pr_AmountPaise payment < 0 \<or> pr_FeePaise payment < 0 \<or> pr_TaxPaise payment < 0
             then (Some (MySQLError 3819 ''Check constraint is violated.''), d)
             else if list_ex (\<lambda>(o', r). sql_eq e (pr_PaymentID r) (pr_PaymentID payment)) (tb_payments d)
             then (None, d)
             else (None, d\<lparr>tb_payments := tb_payments d @ [(nullString (pr_OrderID payment), pay_stored e payment)]\<rparr>)))"

definition sql_insert_settlement :: string where
  "sql_insert_settlement = ln 2 @ ''INSERT INTO settlement_lines ('' @ ln 3 @
   ''settlement_id, entity_id, line_type, payment_method, credit_paise, debit_paise, fee_paise, tax_paise, settled_at''
   @ ln 2 @ '') VALUES (?, ?, ?, ?, ?, ?, ?, ?, ?)'' @ ln 2 @ ''ON DUPLICATE KEY UPDATE settlement_id = settlement_id''"

definition settlement_sql_key :: "engine \<Rightarrow> SettlementRow \<Rightarrow> string \<times> string \<times> string" where
  "settlement_sql_key e l = (eg_key e (sr_SettlementID l), eg_key e (sr_EntityID l), eg_key e (sr_LineType l))"

definition set_stored :: "engine \<Rightarrow> SettlementRow \<Rightarrow> SettlementRow" where
  "set_stored e l = l\<lparr>sr_SettledAt := eg_time e (sr_SettledAt l)\<rparr>"

definition my_InsertSettlement :: "MySQLStore \<Rightarrow> SettlementRow \<Rightarrow> db act" where
  "my_InsertSettlement store line =
     (let e = my_db store in
      guarded_exec e sql_insert_settlement
        (\<lambda>d. if list_ex (\<lambda>(i, r). settlement_sql_key e r = settlement_sql_key e line) (tb_settlement_lines d)
             then (None, d)
             else (None, d\<lparr>tb_settlement_lines := tb_settlement_lines d @ [(eg_id e (db_ops d), set_stored e line)]\<rparr>)))"

definition sql_insert_bank_line :: string where
  "sql_insert_bank_line = ln 2 @ ''INSERT INTO bank_lines (reference_id, credit_paise, booked_at)'' @ ln 2 @
   ''VALUES (?, ?, ?)'' @ ln 2 @ ''ON DUPLICATE KEY UPDATE reference_id = reference_id''"

definition bank_stored :: "engine \<Rightarrow> BankRow \<Rightarrow> BankRow" where
  "bank_stored e b = b\<lparr>br_BookedAt := eg_time e (br_BookedAt b)\<rparr>"

definition my_InsertBankLine :: "MySQLStore \<Rightarrow> BankRow \<Rightarrow> db act" where
  "my_InsertBankLine store line =
     (let e = my_db store in
      guarded_exec e sql_insert_bank_line
        (\<lambda>d. if list_ex (\<lambda>(i, r). sql_eq e (br_ReferenceID r) (br_ReferenceID line)) (tb_bank_lines d)
             then (None, d)
             else (None, d\<lparr>tb_bank_lines := tb_bank_lines d @ [(eg_id e (db_ops d), bank_stored e line)]\<rparr>)))"

definition sql_insert_ledger_line :: string where
  "sql_insert_ledger_line = ln 2 @ ''INSERT INTO ledger_lines (reference_id, amount_paise, booked_at)'' @ ln 2 @
   ''VALUES (?, ?, ?)'' @ ln 2 @ ''ON DUPLICATE KEY UPDATE reference_id = reference_id''"

definition led_stored :: "engine \<Rightarrow> LedgerRow \<Rightarrow> LedgerRow" where
  "led_stored e l = l\<lparr>lr_BookedAt := eg_time e (lr_BookedAt l)\<rparr>"

text \<open>The unique key on \<^verbatim>\<open>ledger_lines.reference_id\<close> comes from migration 0002.\<close>

definition my_InsertLedgerLine :: "MySQLStore \<Rightarrow> LedgerRow \<Rightarrow> db act" where
  "my_InsertLedgerLine store line =
     (let e = my_db store in
      guarded_exec e sql_insert_ledger_line
        (\<lambda>d. if list_ex (\<lambda>r. sql_eq e (lr_ReferenceID (ld_row r)) (lr_ReferenceID line)) (tb_ledger_lines d)
             then (None, d)
             else (None, d\<lparr>tb_ledger_lines := tb_ledger_lines d @
                     [\<lparr>ld_id = eg_id e (db_ops d), ld_row = led_stored e line, ld_matched_payment_id = None\<rparr>]\<rparr>)))"

text \<open>\<^verbatim>\<open>QueryRowContext(...).Scan\<close> of a count; its error is returned unwrapped.\<close>

definition count_rows :: "engine \<Rightarrow> nat \<Rightarrow> (nat \<Rightarrow> db \<Rightarrow> Counts result \<times> db) \<Rightarrow> db \<Rightarrow> Counts result \<times> db" where
  "count_rows e k next d =
     (case stmt e (\<lambda>d. (None, d)) d of (Some err, d') \<Rightarrow> (Inl err, d') | (None, d') \<Rightarrow> next k d')"

definition my_Count :: "MySQLStore \<Rightarrow> db \<Rightarrow> Counts result \<times> db" where
  "my_Count store d =
     (let e = my_db store in
      count_rows e (length (tb_raw_events d)) (\<lambda>raw.
      count_rows e (length (tb_payments d)) (\<lambda>payments.
      count_rows e (length (tb_settlement_lines d)) (\<lambda>settlements.
      count_rows e (length (tb_bank_lines d)) (\<lambda>banks.
      count_rows e (length (tb_ledger_lines d)) (\<lambda>ledgers d'.
        (Inr \<lparr>ct_RawEvents = raw, ct_Payments = payments, ct_Settlements = settlements,
              ct_BankLines = banks, ct_LedgerLines = ledgers\<rparr>, d')))))) d)"

section \<open>mysql.go: reads for matching\<close>

definition has_match :: "engine \<Rightarrow> db \<Rightarrow> string \<Rightarrow> bool" where
  "has_match e d paymentID \<longleftrightarrow>
     list_ex (\<lambda>(i, mr). sql_eq e (mw_RecordType mr) ''payment'' \<and> sql_eq e (mw_RecordID mr) paymentID)
       (tb_match_results d)"

definition has_open_exception :: "engine \<Rightarrow> db \<Rightarrow> string \<Rightarrow> bool" where
  "has_open_exception e d paymentID \<longleftrightarrow>
     list_ex (\<lambda>x. sql_eq e (er_RecordType x) ''payment'' \<and> sql_eq e (er_RecordID x) paymentID
                  \<and> er_ResolvedAt x = None) (tb_exception_log d)"

text \<open>\<^verbatim>\<open>captured_at IS NOT NULL AND captured_at >= start AND captured_at < end\<close>.\<close>

definition captured_in :: "engine \<Rightarrow> time \<Rightarrow> time \<Rightarrow> PaymentRow \<Rightarrow> bool" where
  "captured_in e start end' p \<longleftrightarrow>
     (case pr_CapturedAt p of None \<Rightarrow> False | Some c \<Rightarrow> eg_time e start \<le> c \<and> c < eg_time e end')"

text \<open>The select list, with \<^verbatim>\<open>COALESCE(order_id, '')\<close>.\<close>

definition payment_candidate :: "string option \<times> PaymentRow \<Rightarrow> PaymentCandidate" where
  "payment_candidate op =
     (case op of (order_id, p) \<Rightarrow>
        \<lparr>pc_PaymentID = pr_PaymentID p, pc_OrderID = (case order_id of Some s \<Rightarrow> s | None \<Rightarrow> []),
         pc_AmountPaise = pr_AmountPaise p, pc_FeePaise = pr_FeePaise p, pc_TaxPaise = pr_TaxPaise p,
         pc_Method = pr_Method p,
         pc_CapturedAt = (case pr_CapturedAt p of Some c \<Rightarrow> c | None \<Rightarrow> 0)\<rparr>)"

definition my_GetUnmatchedPaymentsInWindow ::
  "MySQLStore \<Rightarrow> time \<Rightarrow> time \<Rightarrow> db \<Rightarrow> PaymentCandidate list result \<times> db" where
  "my_GetUnmatchedPaymentsInWindow store start end' d =
     (let e = my_db store in
      query e ''query unmatched payments: '' (\<lambda>n.
        Inr (sort_key pc_CapturedAt (map payment_candidate
          (filter (\<lambda>(order_id, p). captured_in e start end' p \<and> \<not> has_match e d (pr_PaymentID p)
                     \<and> \<not> has_open_exception e d (pr_PaymentID p))
            (scan_rows e n (tb_payments d)))))) d)"

definition my_GetPaymentsInWindow ::
  "MySQLStore \<Rightarrow> time \<Rightarrow> time \<Rightarrow> db \<Rightarrow> PaymentCandidate list result \<times> db" where
  "my_GetPaymentsInWindow store start end' d =
     (let e = my_db store in
      query e ''query payments in window: '' (\<lambda>n.
        Inr (sort_key pc_CapturedAt (map payment_candidate
          (filter (\<lambda>(order_id, p). captured_in e start end' p) (scan_rows e n (tb_payments d)))))) d)"

definition settlement_candidate :: "int \<times> SettlementRow \<Rightarrow> SettlementCandidate" where
  "settlement_candidate il =
     (case il of (i, l) \<Rightarrow>
        \<lparr>sc_ID = i, sc_EntityID = sr_EntityID l, sc_CreditPaise = sr_CreditPaise l,
         sc_Method = sr_PaymentMethod l, sc_SettledAt = sr_SettledAt l\<rparr>)"

definition my_GetSettlementCandidates ::
  "MySQLStore \<Rightarrow> string \<Rightarrow> time \<Rightarrow> time \<Rightarrow> db \<Rightarrow> SettlementCandidate list result \<times> db" where
  "my_GetSettlementCandidates store method start end' d =
     (let e = my_db store in
      query e ''query settlement candidates: '' (\<lambda>n.
        Inr (sort_key sc_SettledAt (map settlement_candidate
          (filter (\<lambda>(i, l). sql_eq e (sr_PaymentMethod l) method
                     \<and> eg_time e start \<le> sr_SettledAt l \<and> sr_SettledAt l < eg_time e end')
            (scan_rows e n (tb_settlement_lines d)))))) d)"

definition ledger_candidate :: "LedgerDB \<Rightarrow> LedgerCandidate" where
  "ledger_candidate l =
     \<lparr>lc_ID = ld_id l, lc_ReferenceID = lr_ReferenceID (ld_row l), lc_AmountPaise = lr_AmountPaise (ld_row l),
      lc_BookedAt = lr_BookedAt (ld_row l)\<rparr>"

definition my_GetUnmatchedLedgerLines ::
  "MySQLStore \<Rightarrow> time \<Rightarrow> time \<Rightarrow> db \<Rightarrow> LedgerCandidate list result \<times> db" where
  "my_GetUnmatchedLedgerLines store start end' d =
     (let e = my_db store in
      query e ''query unmatched ledger lines: '' (\<lambda>n.
        Inr (sort_key lc_BookedAt (map ledger_candidate
          (filter (\<lambda>l. ld_matched_payment_id l = None
                     \<and> eg_time e start \<le> lr_BookedAt (ld_row l) \<and> lr_BookedAt (ld_row l) < eg_time e end')
            (scan_rows e n (tb_ledger_lines d)))))) d)"

section \<open>mysql.go: outcomes\<close>

definition or_empty_object :: "string option \<Rightarrow> string" where
  "or_empty_object raw = (case raw of None \<Rightarrow> ''{}'' | Some t \<Rightarrow> t)"

definition sql_write_match_result :: string where
  "sql_write_match_result = ln 2 @
   ''INSERT INTO match_results (match_group_id, record_type, record_id, confidence, rule_id, evidence_json, created_at)''
   @ ln 2 @ ''VALUES (?, ?, ?, ?, ?, ?, ?)''"

definition my_WriteMatchResult :: "MySQLStore \<Rightarrow> MatchResultRow \<Rightarrow> db act" where
  "my_WriteMatchResult store match =
     (let e = my_db store; evidence = or_empty_object (mw_EvidenceJSON match) in
      wrap_err ''write match result: '' (guarded_exec e sql_write_match_result
        (json_column e evidence (\<lambda>stored d.
           (None, d\<lparr>tb_match_results := tb_match_results d @
              [(eg_id e (db_ops d), match\<lparr>mw_EvidenceJSON := Some stored,
                                         mw_CreatedAt := eg_time e (mw_CreatedAt match)\<rparr>)]\<rparr>)))))"

definition sql_write_exception_log :: string where
  "sql_write_exception_log = ln 2 @
   ''INSERT INTO exception_log (record_type, record_id, reason_code, amount_at_risk_paise, evidence_json, created_at)''
   @ ln 2 @ ''VALUES (?, ?, ?, ?, ?, ?)''"

definition my_WriteExceptionLog :: "MySQLStore \<Rightarrow> ExceptionRow \<Rightarrow> db act" where
  "my_WriteExceptionLog store exn =
     (let e = my_db store; evidence = or_empty_object (xr_EvidenceJSON exn) in
      wrap_err ''write exception log: '' (guarded_exec e sql_write_exception_log
        (json_column e evidence (\<lambda>stored d.
           (None, d\<lparr>tb_exception_log := tb_exception_log d @
              [\<lparr>er_ID = eg_id e (db_ops d), er_RecordType = xr_RecordType exn, er_RecordID = xr_RecordID exn,
                er_ReasonCode = xr_ReasonCode exn, er_AmountAtRiskPaise = xr_AmountAtRiskPaise exn,
                er_EvidenceJSON = stored, er_ResolvedAt = None,
                er_CreatedAt = eg_time e (xr_CreatedAt exn)\<rparr>]\<rparr>)))))"

text \<open>
  \<^verbatim>\<open>WriteAuditEntry\<close>: the transaction body reads the last row hash, seals the entry against it and
  inserts it; the statement inside is not guarded.
\<close>

definition last_row_hash :: "db \<Rightarrow> string option" where
  "last_row_hash d = (if tb_audit_log d = [] then None else Some (ad_row_hash (last (sort_key ad_id (tb_audit_log d)))))"

definition insert_audit :: "engine \<Rightarrow> Entry \<Rightarrow> string \<Rightarrow> string option \<Rightarrow> db act" where
  "insert_audit e sealed payload previousHash =
     stmt e (json_column e payload (\<lambda>stored d.
       if list_ex (\<lambda>r. sql_eq e (ad_row_hash r) (en_RowHash sealed)) (tb_audit_log d)
       then (Some (dup_entry ''uq_audit_hash''), d)
       else (None, d\<lparr>tb_audit_log := tb_audit_log d @
              [\<lparr>ad_id = eg_id e (db_ops d), ad_event_type = en_EventType sealed, ad_payload_json = stored,
                ad_previous_hash = previousHash, ad_row_hash = en_RowHash sealed,
                ad_created_at = eg_time e (en_CreatedAt sealed)\<rparr>]\<rparr>)))"

definition audit_body :: "engine \<Rightarrow> AuditEntryRow \<Rightarrow> db act" where
  "audit_body e entry d =
     (case stmt e (\<lambda>d. (None, d)) d of
        (Some err, d1) \<Rightarrow> (Some (ErrWrap ''read previous audit hash: '' err []), d1)
      | (None, d1) \<Rightarrow>
          (let previousHash = last_row_hash d1; payload = or_empty_object (ae_PayloadJSON entry) in
           case json_unmarshal (eg_float e) payload of
             Inl err \<Rightarrow> (Some (ErrWrap ''decode audit payload: '' err []), d1)
           | Inr decoded \<Rightarrow>
               (case Seal \<lparr>en_EventType = ae_EventType entry, en_Payload = decoded,
                           en_PreviousHash = (case previousHash of Some h \<Rightarrow> h | None \<Rightarrow> []),
                           en_CreatedAt = truncate_us (ae_CreatedAt entry), en_RowHash = []\<rparr> of
                  Inl err \<Rightarrow> (Some (ErrWrap ''seal audit entry: '' err []), d1)
                | Inr sealed \<Rightarrow>
                    wrap_err ''write audit entry: '' (insert_audit e sealed payload previousHash) d1)))"

definition my_WriteAuditEntry :: "MySQLStore \<Rightarrow> AuditEntryRow \<Rightarrow> db act" where
  "my_WriteAuditEntry store entry d =
     (let e = my_db store in
      if \<not> my_beginner store
      then (Some (ErrText ''audit entry requires a MySQLStore opened with a database handle''), d)
      else (case tx_mark e d of
              (Some err, d1) \<Rightarrow> (Some (ErrWrap ''begin audit tx: '' err []), d1)
            | (None, d1) \<Rightarrow>
                (case audit_body e entry d1 of
                   (Some err, d2) \<Rightarrow> (Some err, rollback d1 d2)
                 | (None, d2) \<Rightarrow> (case tx_mark e d2 of
                                   (Some err, d3) \<Rightarrow> (Some err, rollback d1 d3)
                                 | (None, d3) \<Rightarrow> (None, d3)))))"

definition sql_set_ledger_matched :: string where
  "sql_set_ledger_matched = ln 2 @
   ''UPDATE ledger_lines SET matched_payment_id = ? WHERE id = ? AND matched_payment_id IS NULL''"

text \<open>The foreign key to \<^verbatim>\<open>payments\<close> is checked when a row is changed.\<close>

definition my_SetLedgerMatchedPayment :: "MySQLStore \<Rightarrow> int \<Rightarrow> string \<Rightarrow> db act" where
  "my_SetLedgerMatchedPayment store ledgerLineID paymentID =
     (let e = my_db store; hit = (\<lambda>l. ld_id l = ledgerLineID \<and> ld_matched_payment_id l = None) in
      wrap_err ''set ledger matched payment: '' (guarded_exec e sql_set_ledger_matched
        (\<lambda>d. if list_ex hit (tb_ledger_lines d)
                \<and> \<not> list_ex (\<lambda>(order_id, p). sql_eq e (pr_PaymentID p) paymentID) (tb_payments d)
             then (Some (MySQLError 1452 ''a foreign key constraint fails''), d)
             else (None, d\<lparr>tb_ledger_lines :=
                     map (\<lambda>l. if hit l then l\<lparr>ld_matched_payment_id := Some paymentID\<rparr> else l)
                       (tb_ledger_lines d)\<rparr>))))"

section \<open>mysql.go: exceptions and AI log\<close>

definition my_GetExceptionByID :: "MySQLStore \<Rightarrow> int \<Rightarrow> db \<Rightarrow> ExceptionRecord result \<times> db" where
  "my_GetExceptionByID store i d =
     (case stmt (my_db store) (\<lambda>d. (None, d)) d of
        (Some err, d') \<Rightarrow> (Inl (ErrWrap ''get exception by id: '' err []), d')
      | (None, d') \<Rightarrow>
          (case find (\<lambda>x. er_ID x = i) (tb_exception_log d) of
             None \<Rightarrow> (Inl ErrExceptionNotFound, d')
           | Some x \<Rightarrow> (Inr x, d')))"

definition exception_cursor :: "ExceptionRecord \<Rightarrow> ExceptionCursor" where
  "exception_cursor x = ExceptionCursor (er_AmountAtRiskPaise x) (er_ID x)"

definition my_ListUnresolvedExceptions ::
  "MySQLStore \<Rightarrow> int \<Rightarrow> ExceptionCursor option \<Rightarrow> db \<Rightarrow> ExceptionRecord list result \<times> db" where
  "my_ListUnresolvedExceptions store limit cursor d =
     (let e = my_db store; limit = (if limit \<le> 0 then 50 else limit) in
      query e ''list unresolved exceptions: '' (\<lambda>n.
        Inr (take (nat limit) (rev (sort_key exception_cursor
          (filter (\<lambda>x. er_ResolvedAt x = None
                     \<and> (case cursor of None \<Rightarrow> True | Some c \<Rightarrow> exception_cursor x < c))
            (scan_rows e n (tb_exception_log d))))))) d)"

definition sql_write_ai_log :: string where
  "sql_write_ai_log = ln 2 @ ''INSERT INTO ai_explanation_log ('' @ ln 3 @
   ''exception_id, prompt_version, model, input_summary_json, output_text, latency_ms, succeeded, error_message, created_at''
   @ ln 2 @ '') VALUES (?, ?, ?, ?, ?, ?, ?, ?, ?)''"

definition my_WriteAIExplanationLog :: "MySQLStore \<Rightarrow> AIExplanationLogRow \<Rightarrow> db act" where
  "my_WriteAIExplanationLog store log =
     (let e = my_db store; input = or_empty_object (ai_InputSummaryJSON log) in
      wrap_err ''write ai explanation log: '' (guarded_exec e sql_write_ai_log
        (json_column e input (\<lambda>stored d.
           (None, d\<lparr>tb_ai_explanation_log := tb_ai_explanation_log d @
              [(nullString (ai_ErrorMessage log),
                log\<lparr>ai_InputSummaryJSON := Some stored, ai_CreatedAt := eg_time e (ai_CreatedAt log)\<rparr>)]\<rparr>)))))"

section \<open>audit\_mysql.go and qa\_mysql.go\<close>

definition audit_entry :: "(string \<Rightarrow> string option) \<Rightarrow> AuditDB \<Rightarrow> Entry result" where
  "audit_entry ft r =
     (case json_unmarshal ft (ad_payload_json r) of
        Inl err \<Rightarrow> Inl (ErrWrap ''decode audit_log payload_json: '' err [])
      | Inr payload \<Rightarrow>
          Inr \<lparr>en_EventType = ad_event_type r, en_Payload = payload,
               en_PreviousHash = (case ad_previous_hash r of Some h \<Rightarrow> h | None \<Rightarrow> []),
               en_CreatedAt = ad_created_at r, en_RowHash = ad_row_hash r\<rparr>)"

fun audit_entries :: "(string \<Rightarrow> string option) \<Rightarrow> AuditDB list \<Rightarrow> Entry list result" where
  "audit_entries ft [] = Inr []"
| "audit_entries ft (r # rs) =
     (case audit_entry ft r of
        Inl err \<Rightarrow> Inl err
      | Inr x \<Rightarrow> (case audit_entries ft rs of Inl err \<Rightarrow> Inl err | Inr xs \<Rightarrow> Inr (x # xs)))"

definition my_LoadAuditEntries :: "MySQLStore \<Rightarrow> db \<Rightarrow> Entry list result \<times> db" where
  "my_LoadAuditEntries store d =
     (let e = my_db store in
      query e ''query audit_log: ''
        (\<lambda>n. audit_entries (eg_float e) (sort_key ad_id (scan_rows e n (tb_audit_log d)))) d)"

definition maxWhyNotSettledRows :: nat where "maxWhyNotSettledRows = 20"

definition my_WhyNotSettled :: "MySQLStore \<Rightarrow> string \<Rightarrow> db \<Rightarrow> WhyNotSettledRow list result \<times> db" where
  "my_WhyNotSettled store paymentID d =
     (let e = my_db store in
      query e ''query why-not-settled: '' (\<lambda>n.
        Inr (map (\<lambda>x. \<lparr>wn_ReasonCode = er_ReasonCode x, wn_EvidenceJSON = er_EvidenceJSON x,
                       wn_AmountAtRiskPaise = er_AmountAtRiskPaise x, wn_ResolvedAt = er_ResolvedAt x\<rparr>)
          (take maxWhyNotSettledRows (rev (sort_key er_ID
            (filter (\<lambda>x. sql_eq e (er_RecordType x) ''payment'' \<and> sql_eq e (er_RecordID x) paymentID)
              (scan_rows e n (tb_exception_log d)))))))) d)"

text \<open>
  \<^verbatim>\<open>GROUP BY\<close> under the collation: one group per sort key, named by the first row visited. A sum that
  does not fit its \<^verbatim>\<open>int64\<close> target is a scan error.
\<close>

definition group_rows :: "('a \<Rightarrow> string) \<Rightarrow> 'a list \<Rightarrow> 'a list list" where
  "group_rows kf xs = map (\<lambda>k. filter (\<lambda>x. kf x = k) xs) (remdups (map kf xs))"

definition reason_aggregate :: "ExceptionRecord list \<Rightarrow> ReasonAggregateRow" where
  "reason_aggregate xs =
     \<lparr>ra_ReasonCode = er_ReasonCode (hd xs), ra_TotalAtRiskPaise = sum_list (map er_AmountAtRiskPaise xs),
      ra_Count = length xs\<rparr>"

definition my_UnresolvedAmountByReason :: "MySQLStore \<Rightarrow> db \<Rightarrow> ReasonAggregateRow list result \<times> db" where
  "my_UnresolvedAmountByReason store d =
     (let e = my_db store in
      query e ''query unresolved amount by reason: '' (\<lambda>n.
        (let rows = sort_key (\<lambda>r. (- ra_TotalAtRiskPaise r, eg_key e (ra_ReasonCode r)))
               (map reason_aggregate (group_rows (\<lambda>x. eg_key e (er_ReasonCode x))
                 (filter (\<lambda>x. er_ResolvedAt x = None) (scan_rows e n (tb_exception_log d)))))
         in if list_all (\<lambda>r. is_int64 (ra_TotalAtRiskPaise r)) rows then Inr rows
            else Inl (ErrWrap ''scan unresolved amount row: '' (ErrText ''value out of range'') []))) d)"

definition method_rate :: "engine \<Rightarrow> db \<Rightarrow> PaymentRow list \<Rightarrow> MethodMatchRateRow" where
  "method_rate e d ps =
     \<lparr>mm_Method = pr_Method (hd ps),
      mm_MatchRate = eg_avg e (length (filter (\<lambda>p. has_match e d (pr_PaymentID p)) ps)) (length ps)\<rparr>"

definition my_WorstMethodsByMatchRate ::
  "MySQLStore \<Rightarrow> time \<Rightarrow> int \<Rightarrow> db \<Rightarrow> MethodMatchRateRow list result \<times> db" where
  "my_WorstMethodsByMatchRate store since limit d =
     (let e = my_db store; limit = (if limit \<le> 0 then 5 else limit) in
      query e ''query worst methods by match rate: '' (\<lambda>n.
        Inr (take (nat limit) (sort_key (\<lambda>r. (mm_MatchRate r, eg_key e (mm_Method r)))
          (map (method_rate e d) (group_rows (\<lambda>p. eg_key e (pr_Method p))
            (filter (\<lambda>p. case pr_CapturedAt p of None \<Rightarrow> False | Some c \<Rightarrow> eg_time e since \<le> c)
              (map snd (scan_rows e n (tb_payments d))))))))) d)"

end
