(* ===== verification/MySQL_Laws.thy ===== *)
theory MySQL_Laws
  imports MySQL_Store
begin

text \<open>
  What the MySQL store guarantees: its statements pass the guard, it satisfies the contract
  \<open>ingest_store\<close>, appending to the audit log keeps the stored chain verifiable, and keyset pagination
  tiles the listing of exceptions. \<open>sound_engine\<close> collects what is assumed of the database.
\<close>

section \<open>Assumptions on the database\<close>

text \<open>
  AUTO_INCREMENT values increase, scans are complete, a time without sub-microsecond digits is stored
  exactly, and the text of a JSON column decodes to the same value as the text written.
\<close>

definition sound_engine :: "engine \<Rightarrow> bool" where
  "sound_engine e \<longleftrightarrow>
     strict_mono (eg_id e) \<and> full_scans e \<and> (\<forall>t. t mod 1000 = 0 \<longrightarrow> eg_time e t = t)
     \<and> (\<forall>t t'. eg_json e t = Some t' \<longrightarrow> json_unmarshal (eg_float e) t' = json_unmarshal (eg_float e) t)"

definition ideal_engine :: engine where
  "ideal_engine =
     \<lparr>eg_fault = (\<lambda>n. None), eg_id = int, eg_key = (\<lambda>s. s), eg_json = Some, eg_time = truncate_us,
      eg_perm = (\<lambda>n k. [0 ..< k]), eg_avg = (\<lambda>m n. int (10000 * m div n)), eg_float = Some\<rparr>"

lemma sound_ideal_engine: "sound_engine ideal_engine"
  by (simp add: sound_engine_def ideal_engine_def full_scans_def strict_mono_def truncate_us_def)

lemma sound_engineD:
  assumes "sound_engine e"
  shows "strict_mono (eg_id e)" and "full_scans e" and "t mod 1000 = 0 \<Longrightarrow> eg_time e t = t"
    and "eg_json e x = Some y \<Longrightarrow> json_unmarshal (eg_float e) y = json_unmarshal (eg_float e) x"
  using assms by (auto simp: sound_engine_def)

definition empty_db :: db where
  "empty_db = \<lparr>tb_raw_events = [], tb_payments = [], tb_settlement_lines = [], tb_bank_lines = [],
     tb_ledger_lines = [], tb_match_results = [], tb_exception_log = [], tb_audit_log = [],
     tb_ai_explanation_log = [], db_ops = 0\<rparr>"

section \<open>The guard and the statements\<close>

lemma guard_insert_passes:
  assumes "is_ascii rest"
  shows "GuardMutation (ln k @ CHR ''I'' # rest) = None"
proof -
  let ?s = "CHR ''I'' # rest"
  have "trim_left (replicate j (CHR 0x09) @ ?s) = ?s" for j
    by (induction j) (simp_all add: trim_left_ascii unicode_is_space_def in_range_def)
  then have left: "trim_left (ln k @ ?s) = ?s"
    by (simp add: ln_def trim_left_ascii unicode_is_space_def in_range_def)
  have "prefix (trim_right ?s) ?s" by (rule trim_right_prefix)
  then consider "trim_right ?s = []" | r where "trim_right ?s = CHR ''I'' # r" "prefix r rest"
    by (cases "trim_right ?s") auto
  then show ?thesis
  proof cases
    case 1
    then show ?thesis
      by (simp add: GuardMutation_def trim_space_def left to_lower_def remove_byte_def)
  next
    case (2 r)
    then have "is_ascii r" using assms by (auto simp: prefix_def)
    with 2 have "to_lower (trim_space (ln k @ ?s)) = CHR ''i'' # map lower_char r"
      by (simp add: trim_space_def left to_lower_def lower_char_upper)
    then show ?thesis by (simp add: GuardMutation_def remove_byte_def)
  qed
qed

lemma is_ascii_ln [simp]: "is_ascii (ln k)"
  by (simp add: ln_def is_ascii_def list_all_iff)

lemma guard_inserts [simp]:
  "GuardMutation sql_insert_raw_event = None" "GuardMutation sql_insert_payment = None"
  "GuardMutation sql_insert_settlement = None" "GuardMutation sql_insert_bank_line = None"
  "GuardMutation sql_insert_ledger_line = None" "GuardMutation sql_write_match_result = None"
  "GuardMutation sql_write_exception_log = None" "GuardMutation sql_write_ai_log = None"
  unfolding sql_insert_raw_event_def sql_insert_payment_def sql_insert_settlement_def
    sql_insert_bank_line_def sql_insert_ledger_line_def sql_write_match_result_def
    sql_write_exception_log_def sql_write_ai_log_def append_Cons append_Nil
  by (rule guard_insert_passes, simp)+

lemma update_ledger_normalized:
  "remove_byte (CHR 0x60) (to_lower (trim_space sql_set_ledger_matched))
   = ''update ledger_lines set matched_payment_id = ? where id = ? and matched_payment_id is null''"
proof -
  let ?q = "''UPDATE ledger_lines SET matched_payment_id = ? WHERE id = ? AND matched_payment_id IS NULL''"
  have "trim_left sql_set_ledger_matched = ?q"
    by (simp add: sql_set_ledger_matched_def ln_def trim_left_ascii unicode_is_space_def in_range_def
        numeral_2_eq_2)
  moreover have "trim_left ?q = ?q"
    by (simp add: trim_left_ascii unicode_is_space_def in_range_def)
  ultimately have "trim_space sql_set_ledger_matched = trim_space ?q"
    by (simp only: trim_space_def)
  also have "trim_space ?q = ?q"
    by (rule trim_space_solid) (simp_all add: unicode_is_space_def in_range_def)
  finally show ?thesis by (simp add: ascii_eval)
qed

lemma guard_set_ledger [simp]: "GuardMutation sql_set_ledger_matched = None"
  by (simp add: GuardMutation_def update_ledger_normalized mutationTargetsTable_iff appendOnlyTables_def
      suffix_to_prefix)

section \<open>Tables\<close>

lemma same_tables_refl [simp]: "same_tables d d"
  by (simp add: same_tables_def)

lemma same_tables_ops [simp]: "same_tables d (d\<lparr>db_ops := n\<rparr>)"
  by (simp add: same_tables_def)

lemma same_tables_rollback [simp]: "same_tables d (rollback d d')"
  by (simp add: rollback_def)

lemma same_tablesE:
  assumes "same_tables d d'"
  obtains n where "d' = d\<lparr>db_ops := n\<rparr>"
  using assms unfolding same_tables_def by blast

lemma same_tables_trans: "same_tables a b \<Longrightarrow> same_tables b c \<Longrightarrow> same_tables a c"
  by (elim same_tablesE) simp

lemma same_tablesD:
  assumes "same_tables d d'"
  shows "tb_raw_events d' = tb_raw_events d" "tb_payments d' = tb_payments d"
    "tb_settlement_lines d' = tb_settlement_lines d" "tb_bank_lines d' = tb_bank_lines d"
    "tb_ledger_lines d' = tb_ledger_lines d" "tb_match_results d' = tb_match_results d"
    "tb_exception_log d' = tb_exception_log d" "tb_audit_log d' = tb_audit_log d"
    "tb_ai_explanation_log d' = tb_ai_explanation_log d"
  using assms by (auto elim!: same_tablesE)

text \<open>A query that returns rows met no fault and left the tables alone.\<close>

lemma query_Inr:
  "query e pre f d = (Inr v, d') \<Longrightarrow> f (db_ops d) = Inr v \<and> d' = d\<lparr>db_ops := db_ops d + 2\<rparr>"
  by (auto simp: query_def Let_def split: option.splits sum.splits)

lemma query_same: "query e pre f d = (r, d') \<Longrightarrow> d' = d\<lparr>db_ops := db_ops d + 2\<rparr>"
  by (auto simp: query_def Let_def split: option.splits sum.splits)

section \<open>The ingest contract\<close>

definition mysql_store :: "engine \<Rightarrow> db IngestStore" where
  "mysql_store e =
     (let store = OpenMySQLStore e in
      \<lparr>is_InTx = (\<lambda>fn. my_InTx store (\<lambda>nested. fn)), is_InsertRawEvent = my_InsertRawEvent store,
       is_InsertPayment = my_InsertPayment store, is_InsertSettlement = my_InsertSettlement store,
       is_InsertBankLine = my_InsertBankLine store, is_InsertLedgerLine = my_InsertLedgerLine store,
       is_Count = my_Count store\<rparr>)"

text \<open>Inside a transaction the nested store issues the same statements.\<close>

lemma nested_inserts:
  "my_InsertRawEvent \<lparr>my_db = e, my_beginner = b\<rparr> = is_InsertRawEvent (mysql_store e)"
  "my_InsertPayment \<lparr>my_db = e, my_beginner = b\<rparr> = is_InsertPayment (mysql_store e)"
  "my_InsertSettlement \<lparr>my_db = e, my_beginner = b\<rparr> = is_InsertSettlement (mysql_store e)"
  "my_InsertBankLine \<lparr>my_db = e, my_beginner = b\<rparr> = is_InsertBankLine (mysql_store e)"
  "my_InsertLedgerLine \<lparr>my_db = e, my_beginner = b\<rparr> = is_InsertLedgerLine (mysql_store e)"
  by (simp_all add: mysql_store_def OpenMySQLStore_def my_InsertRawEvent_def my_InsertPayment_def
      my_InsertSettlement_def my_InsertBankLine_def my_InsertLedgerLine_def Let_def fun_eq_iff)

text \<open>The first row with a given key.\<close>

definition first_by :: "('a \<Rightarrow> 'k) \<Rightarrow> 'a list \<Rightarrow> 'k \<rightharpoonup> 'a" where
  "first_by kf xs k = find (\<lambda>x. kf x = k) xs"

lemma first_by_append:
  "kf x = k \<Longrightarrow> first_by kf (xs @ [x]) = (if list_ex (\<lambda>y. kf y = k) xs then first_by kf xs else (first_by kf xs)(k \<mapsto> x))"
  by (induction xs) (auto simp: first_by_def fun_eq_iff)

lemma first_by_None_iff: "first_by kf xs k = None \<longleftrightarrow> \<not> list_ex (\<lambda>y. kf y = k) xs"
  by (auto simp: first_by_def find_None_iff list_ex_iff)

definition my_view :: "engine \<Rightarrow> db \<Rightarrow> (string \<times> string \<times> string) ingest_view" where
  "my_view e d =
     \<lparr>iv_raw = first_by (\<lambda>r. eg_key e (re_IdempotencyKey r)) (tb_raw_events d),
      iv_payments = first_by (\<lambda>r. eg_key e (pr_PaymentID r)) (map snd (tb_payments d)),
      iv_settlements = first_by (settlement_sql_key e) (map snd (tb_settlement_lines d)),
      iv_banks = first_by (\<lambda>r. eg_key e (br_ReferenceID r)) (map snd (tb_bank_lines d)),
      iv_ledgers = first_by (\<lambda>r. eg_key e (lr_ReferenceID r)) (map ld_row (tb_ledger_lines d))\<rparr>"

lemma my_view_same_tables: "same_tables d d' \<Longrightarrow> my_view e d' = my_view e d"
  by (auto simp: my_view_def elim!: same_tablesE)

lemma my_view_ops [simp]: "my_view e (d\<lparr>db_ops := n\<rparr>) = my_view e d"
  by (simp add: my_view_def)

lemma mapDuplicate_None [simp]: "mapDuplicate None = None" "mapDuplicate r = None \<longleftrightarrow> r = None"
  by (auto simp: mapDuplicate_def split: option.splits)

text \<open>A statement that is not refused by the guard either reports its fault or runs on the same tables.\<close>

lemma guarded_cases:
  assumes "guarded_exec e q f d = (r, d')" and "GuardMutation q = None"
  obtains err where "r = Some err" "d' = d\<lparr>db_ops := Suc (db_ops d)\<rparr>" "eg_fault e (db_ops d) = Some err"
    | "f (d\<lparr>db_ops := Suc (db_ops d)\<rparr>) = (r, d')" "eg_fault e (db_ops d) = None"
proof (cases "eg_fault e (db_ops d)")
  case None
  with assms have "f (d\<lparr>db_ops := Suc (db_ops d)\<rparr>) = (r, d')"
    by (simp add: guarded_exec_def stmt_def Let_def)
  then show thesis using None by (rule that(2))
next
  case (Some err)
  with assms have "r = Some err" "d' = d\<lparr>db_ops := Suc (db_ops d)\<rparr>"
    by (simp_all add: guarded_exec_def stmt_def Let_def)
  then show thesis using Some by (rule that(1))
qed

lemma stored_keys [simp]:
  "re_IdempotencyKey (raw_stored e ev) = re_IdempotencyKey ev"
  "pr_PaymentID (pay_stored e p) = pr_PaymentID p"
  "settlement_sql_key e (set_stored e l) = settlement_sql_key e l"
  "br_ReferenceID (bank_stored e b) = br_ReferenceID b"
  "lr_ReferenceID (led_stored e g) = lr_ReferenceID g"
  by (simp_all add: raw_stored_def pay_stored_def settlement_sql_key_def set_stored_def bank_stored_def led_stored_def)

lemma list_ex_map_snd: "list_ex (\<lambda>(i, r). P r) xs \<longleftrightarrow> list_ex P (map snd xs)"
  by (induction xs) auto

lemmas my_view_simps = my_view_def first_by_append first_by_None_iff keep_first_def sql_eq_def
  list_ex_map_snd

lemma my_raw_ok:
  assumes "my_InsertRawEvent store ev d = (None, d')" and "my_db store = e"
  shows "iv_raw (my_view e d) (eg_key e (re_IdempotencyKey ev)) = None
       \<and> my_view e d' = (my_view e d)\<lparr>iv_raw := (iv_raw (my_view e d))(eg_key e (re_IdempotencyKey ev) \<mapsto> raw_stored e ev)\<rparr>"
  using assms unfolding my_InsertRawEvent_def
  by (auto simp: Let_def json_column_def my_view_simps raw_stored_def split: prod.splits option.splits if_splits
      elim!: guarded_cases)

lemma my_raw_err:
  "my_InsertRawEvent store ev d = (Some err, d') \<Longrightarrow> same_tables d d'"
  unfolding my_InsertRawEvent_def
  by (auto simp: Let_def json_column_def split: prod.splits option.splits if_splits elim!: guarded_cases)

lemma my_pay_ok:
  assumes "my_InsertPayment store p d = (None, d')" and "my_db store = e"
  shows "my_view e d' = (my_view e d)\<lparr>iv_payments := keep_first (eg_key e (pr_PaymentID p)) (pay_stored e p) (iv_payments (my_view e d))\<rparr>"
  using assms unfolding my_InsertPayment_def
  by (auto simp: Let_def my_view_simps split: prod.splits option.splits if_splits elim!: guarded_cases)

lemma my_set_ok:
  assumes "my_InsertSettlement store l d = (None, d')" and "my_db store = e"
  shows "my_view e d' = (my_view e d)\<lparr>iv_settlements := keep_first (settlement_sql_key e l) (set_stored e l) (iv_settlements (my_view e d))\<rparr>"
  using assms unfolding my_InsertSettlement_def
  by (auto simp: Let_def my_view_simps split: prod.splits option.splits if_splits elim!: guarded_cases)

lemma my_bank_ok:
  assumes "my_InsertBankLine store b d = (None, d')" and "my_db store = e"
  shows "my_view e d' = (my_view e d)\<lparr>iv_banks := keep_first (eg_key e (br_ReferenceID b)) (bank_stored e b) (iv_banks (my_view e d))\<rparr>"
  using assms unfolding my_InsertBankLine_def
  by (auto simp: Let_def my_view_simps split: prod.splits option.splits if_splits elim!: guarded_cases)

lemma my_led_ok:
  assumes "my_InsertLedgerLine store g d = (None, d')" and "my_db store = e"
  shows "my_view e d' = (my_view e d)\<lparr>iv_ledgers := keep_first (eg_key e (lr_ReferenceID g)) (led_stored e g) (iv_ledgers (my_view e d))\<rparr>"
  using assms unfolding my_InsertLedgerLine_def
  by (auto simp: Let_def my_view_simps list_ex_iff split: prod.splits option.splits if_splits elim!: guarded_cases)

lemma my_normalized_err:
  "my_InsertPayment store p d = (Some err, d') \<Longrightarrow> same_tables d d'"
  "my_InsertSettlement store l d = (Some err, d') \<Longrightarrow> same_tables d d'"
  "my_InsertBankLine store b d = (Some err, d') \<Longrightarrow> same_tables d d'"
  "my_InsertLedgerLine store g d = (Some err, d') \<Longrightarrow> same_tables d d'"
  unfolding my_InsertPayment_def my_InsertSettlement_def my_InsertBankLine_def my_InsertLedgerLine_def
  by (auto simp: Let_def split: prod.splits option.splits if_splits elim!: guarded_cases)

lemma tx_mark_same: "tx_mark e d = (r, d') \<Longrightarrow> d' = d\<lparr>db_ops := Suc (db_ops d)\<rparr>"
  by (auto simp: tx_mark_def stmt_def Let_def split: option.splits)

lemma my_tx_ok:
  assumes "my_InTx (OpenMySQLStore e) fn d = (None, d')"
  obtains d1 d2 where "same_tables d d1" "fn \<lparr>my_db = e, my_beginner = False\<rparr> d1 = (None, d2)" "same_tables d2 d'"
proof -
  obtain d2 where d2: "fn \<lparr>my_db = e, my_beginner = False\<rparr> (d\<lparr>db_ops := Suc (db_ops d)\<rparr>) = (None, d2)"
      "d' = d2\<lparr>db_ops := Suc (db_ops d2)\<rparr>"
    using assms
    by (auto simp: my_InTx_def OpenMySQLStore_def Let_def dest!: tx_mark_same split: prod.splits option.splits)
  show ?thesis by (rule that [OF _ d2(1)]) (simp_all add: d2(2))
qed

lemma my_tx_err:
  assumes "my_InTx (OpenMySQLStore e) fn d = (Some err, d')"
  shows "same_tables d d'"
  using assms
  by (auto simp: my_InTx_def OpenMySQLStore_def Let_def rollback_def dest!: tx_mark_same
      split: prod.splits option.splits)

interpretation my: ingest_store "mysql_store e" "my_view e" "eg_key e" "settlement_sql_key e" "raw_stored e"
    "pay_stored e" "set_stored e" "bank_stored e" "led_stored e"
  for e
proof (unfold_locales, goal_cases)
  case (11 f d d')
  then obtain d1 d2 where "same_tables d d1" "f d1 = (None, d2)" "same_tables d2 d'"
    by (auto simp: mysql_store_def Let_def elim: my_tx_ok)
  then show ?case using my_view_same_tables by metis
qed (auto simp: mysql_store_def Let_def OpenMySQLStore_def my_raw_ok my_pay_ok my_set_ok my_bank_ok my_led_ok
    dest: my_raw_err my_normalized_err my_tx_err [unfolded OpenMySQLStore_def] intro!: my_view_same_tables)

section \<open>The audit log\<close>

text \<open>
  \<open>audit_rows_ok\<close>: the identifiers of the audit rows increase and were drawn by past statements.
  \<open>audit_ok\<close>: moreover the rows decode, and the decoded log verifies.
\<close>

definition audit_rows_ok :: "engine \<Rightarrow> db \<Rightarrow> bool" where
  "audit_rows_ok e d \<longleftrightarrow>
     sorted_wrt (<) (map ad_id (tb_audit_log d))
     \<and> list_all (\<lambda>r. ad_id r \<le> eg_id e (db_ops d)) (tb_audit_log d)"

definition audit_ok :: "engine \<Rightarrow> db \<Rightarrow> bool" where
  "audit_ok e d \<longleftrightarrow>
     audit_rows_ok e d
     \<and> (case audit_entries (eg_float e) (tb_audit_log d) of Inl err \<Rightarrow> False | Inr es \<Rightarrow> Verify es = (- 1, None))"

lemma audit_okE:
  assumes "audit_ok e d"
  obtains es where "audit_rows_ok e d" "audit_entries (eg_float e) (tb_audit_log d) = Inr es"
    "Verify es = (- 1, None)"
  using assms by (auto simp: audit_ok_def split: sum.splits)

lemma eg_id_mono: "sound_engine e \<Longrightarrow> m \<le> n \<Longrightarrow> eg_id e m \<le> eg_id e n"
  using sound_engineD(1) strict_mono_less_eq by blast

lemma audit_rows_ok_later:
  assumes "sound_engine e" "audit_rows_ok e d" "tb_audit_log d' = tb_audit_log d" "db_ops d \<le> db_ops d'"
  shows "audit_rows_ok e d'"
  using assms eg_id_mono [OF assms(1,4)] by (auto simp: audit_rows_ok_def list_all_iff intro: order_trans)

lemma audit_ok_later:
  assumes "sound_engine e" "audit_ok e d" "tb_audit_log d' = tb_audit_log d" "db_ops d \<le> db_ops d'"
  shows "audit_ok e d'"
  using assms audit_rows_ok_later [OF assms(1)] by (auto simp: audit_ok_def)

lemma sorted_ids:
  assumes "sorted_wrt (<) (map ad_id rs)"
  shows "sorted (map ad_id rs)" and "inj_on ad_id (set rs)"
proof -
  have "sorted (map ad_id rs) \<and> distinct (map ad_id rs)"
    using assms strict_sorted_iff by blast
  then show "sorted (map ad_id rs)" "inj_on ad_id (set rs)" by (auto simp: distinct_map)
qed

lemma sort_audit_rows:
  assumes "sorted_wrt (<) (map ad_id rs)" and "mset qs = mset rs"
  shows "sort_key ad_id qs = rs"
proof (rule sort_key_inj_key_eq [OF assms(2)])
  show "inj_on ad_id (set qs)" using sorted_ids(2) [OF assms(1)] assms(2) by (metis set_mset_mset)
  show "sorted (map ad_id rs)" by (rule sorted_ids(1) [OF assms(1)])
qed

lemma audit_entries_append:
  "audit_entries ft (rs @ [r]) =
     (case audit_entries ft rs of
        Inl err \<Rightarrow> Inl err
      | Inr es \<Rightarrow> (case audit_entry ft r of Inl err \<Rightarrow> Inl err | Inr x \<Rightarrow> Inr (es @ [x])))"
  by (induction rs) (auto split: sum.splits)

lemma audit_entries_hashes:
  "audit_entries ft rs = Inr es \<Longrightarrow> map en_RowHash es = map ad_row_hash rs"
proof (induction rs arbitrary: es)
  case (Cons r rs)
  then show ?case by (auto simp: audit_entry_def split: sum.splits)
qed simp

lemma last_row_hash_chain:
  assumes "audit_rows_ok e d" and "audit_entries ft (tb_audit_log d) = Inr es"
  shows "(case last_row_hash d of Some h \<Rightarrow> h | None \<Rightarrow> []) = last_hash en_RowHash [] es"
proof (cases "tb_audit_log d = []")
  case True
  with assms(2) show ?thesis by (simp add: last_row_hash_def)
next
  case False
  have sorted: "sort_key ad_id (tb_audit_log d) = tb_audit_log d"
    using assms(1) by (intro sort_audit_rows) (simp_all add: audit_rows_ok_def)
  have hashes: "map en_RowHash es = map ad_row_hash (tb_audit_log d)"
    by (rule audit_entries_hashes [OF assms(2)])
  with False have "es \<noteq> []" by auto
  then have "last_hash en_RowHash [] es = last (map en_RowHash es)"
    by (simp add: ac.last_stored last_map)
  with False show ?thesis by (simp add: last_row_hash_def sorted hashes last_map)
qed

text \<open>A successful write adds exactly one sealed row at the end.\<close>

lemma stmt_cases:
  assumes "stmt e f d = (r, d')"
  obtains err where "r = Some err" "d' = d\<lparr>db_ops := Suc (db_ops d)\<rparr>" "eg_fault e (db_ops d) = Some err"
    | "f (d\<lparr>db_ops := Suc (db_ops d)\<rparr>) = (r, d')" "eg_fault e (db_ops d) = None"
proof (cases "eg_fault e (db_ops d)")
  case None
  with assms have "f (d\<lparr>db_ops := Suc (db_ops d)\<rparr>) = (r, d')" by (simp add: stmt_def Let_def)
  then show thesis using None by (rule that(2))
next
  case (Some err)
  with assms have "r = Some err" "d' = d\<lparr>db_ops := Suc (db_ops d)\<rparr>" by (simp_all add: stmt_def Let_def)
  then show thesis using Some by (rule that(1))
qed

definition new_audit_row :: "engine \<Rightarrow> db \<Rightarrow> int \<Rightarrow> AuditEntryRow \<Rightarrow> string \<Rightarrow> json \<Rightarrow> AuditDB" where
  "new_audit_row e d i entry stored decoded =
     \<lparr>ad_id = i, ad_event_type = ae_EventType entry, ad_payload_json = stored,
      ad_previous_hash = last_row_hash d,
      ad_row_hash = sha256_hex (seal_input \<lparr>en_EventType = ae_EventType entry, en_Payload = decoded,
         en_PreviousHash = (case last_row_hash d of Some h \<Rightarrow> h | None \<Rightarrow> []),
         en_CreatedAt = truncate_us (ae_CreatedAt entry), en_RowHash = []\<rparr>),
      ad_created_at = eg_time e (truncate_us (ae_CreatedAt entry))\<rparr>"

lemma last_row_hash_ops [simp]: "last_row_hash (d\<lparr>db_ops := n\<rparr>) = last_row_hash d"
  by (simp add: last_row_hash_def)

lemma audit_body_ok:
  assumes "audit_body e entry d = (None, d')"
  obtains stored decoded where
    "eg_json e (or_empty_object (ae_PayloadJSON entry)) = Some stored"
    "json_unmarshal (eg_float e) (or_empty_object (ae_PayloadJSON entry)) = Inr decoded"
    "json_supported decoded"
    "d' = d\<lparr>db_ops := db_ops d + 2,
            tb_audit_log := tb_audit_log d @ [new_audit_row e d (eg_id e (db_ops d + 2)) entry stored decoded]\<rparr>"
  using assms unfolding audit_body_def
  by (auto simp: Let_def wrap_err_def insert_audit_def json_column_def Seal_Inr_iff new_audit_row_def
      split: prod.splits option.splits sum.splits if_splits elim!: stmt_cases)

lemma WriteAuditEntry_ok:
  assumes "my_WriteAuditEntry (OpenMySQLStore e) entry d = (None, d')"
  obtains stored decoded where
    "eg_json e (or_empty_object (ae_PayloadJSON entry)) = Some stored"
    "json_unmarshal (eg_float e) (or_empty_object (ae_PayloadJSON entry)) = Inr decoded"
    "json_supported decoded"
    "d' = d\<lparr>db_ops := db_ops d + 4,
            tb_audit_log := tb_audit_log d @ [new_audit_row e d (eg_id e (db_ops d + 3)) entry stored decoded]\<rparr>"
proof -
  obtain d2 where body: "audit_body e entry (d\<lparr>db_ops := Suc (db_ops d)\<rparr>) = (None, d2)"
      "d' = d2\<lparr>db_ops := Suc (db_ops d2)\<rparr>"
    using assms
    by (auto simp: my_WriteAuditEntry_def OpenMySQLStore_def Let_def dest!: tx_mark_same
        split: prod.splits option.splits)
  obtain stored decoded where row:
    "eg_json e (or_empty_object (ae_PayloadJSON entry)) = Some stored"
    "json_unmarshal (eg_float e) (or_empty_object (ae_PayloadJSON entry)) = Inr decoded"
    "json_supported decoded"
    "d2 = d\<lparr>db_ops := db_ops d + 3,
            tb_audit_log := tb_audit_log d @ [new_audit_row e d (eg_id e (db_ops d + 3)) entry stored decoded]\<rparr>"
    using body(1) by (rule audit_body_ok) (simp add: new_audit_row_def numeral_3_eq_3)
  show thesis by (rule that [OF row(1-3)]) (simp add: body(2) row(4))
qed

lemma audit_body_ops: "audit_body e entry d = (r, d') \<Longrightarrow> db_ops d \<le> db_ops d'"
  unfolding audit_body_def
  by (auto simp: Let_def wrap_err_def insert_audit_def json_column_def
      split: prod.splits option.splits sum.splits if_splits elim!: stmt_cases)

lemma WriteAuditEntry_err:
  assumes "my_WriteAuditEntry store entry d = (Some err, d')"
  shows "same_tables d d'" and "db_ops d \<le> db_ops d'"
  using assms unfolding my_WriteAuditEntry_def
  by (auto simp: Let_def rollback_def dest!: tx_mark_same audit_body_ops split: prod.splits option.splits if_splits)

lemma WriteAuditEntry_cases:
  assumes "my_WriteAuditEntry (OpenMySQLStore e) entry d = (r, d')"
  obtains err n where "r = Some err" "d' = d\<lparr>db_ops := n\<rparr>" "db_ops d \<le> n"
    | row where "r = None" "d' = d\<lparr>db_ops := db_ops d + 4, tb_audit_log := tb_audit_log d @ [row]\<rparr>"
proof (cases r)
  case None
  then show thesis using assms that(2) by (auto elim: WriteAuditEntry_ok)
next
  case (Some err)
  then show thesis
    using WriteAuditEntry_err [of "OpenMySQLStore e" entry d err d'] assms that(1)
    by (auto elim!: same_tablesE)
qed

text \<open>On the ideal database a flat payload is always written as the first audit row.\<close>

lemma ideal_first_audit:
  assumes "kvs \<noteq> []" and "list_all (\<lambda>(k, v). plain k) kvs" and "distinct (map fst kvs)"
    and "tb_audit_log d = []"
  shows "\<exists>row. my_WriteAuditEntry (OpenMySQLStore ideal_engine)
      \<lparr>ae_EventType = ty, ae_PayloadJSON = Some (json_text (JObj (map (\<lambda>(k, v). (k, JStr v)) kvs))), ae_CreatedAt = at\<rparr> d
      = (None, d\<lparr>db_ops := db_ops d + 4, tb_audit_log := [row]\<rparr>)"
proof -
  let ?p = "JObj (map (\<lambda>(k, v). (k, JStr v)) kvs)"
  obtain decoded where dec: "json_unmarshal Some (json_text ?p) = Inr decoded" "json_supported decoded"
    using unmarshal_flat [OF assms(1-3)] by (simp add: list_all_iff split_beta)
  show ?thesis
    using dec assms(4)
    by (simp del: json_text.simps add: my_WriteAuditEntry_def OpenMySQLStore_def ideal_engine_def tx_mark_def stmt_def audit_body_def
        or_empty_object_def Seal_def json_marshal_def wrap_err_def insert_audit_def json_column_def Let_def)
       (rule exI, rule db.equality, simp_all)
qed

text \<open>The decoded form of a row the store has just written.\<close>

definition written_entry :: "AuditEntryRow \<Rightarrow> string \<Rightarrow> json \<Rightarrow> Entry" where
  "written_entry entry prev decoded =
     sealed_row \<lparr>en_EventType = ae_EventType entry, en_Payload = decoded, en_PreviousHash = prev,
                 en_CreatedAt = truncate_us (ae_CreatedAt entry), en_RowHash = []\<rparr>"

lemma truncate_us_exact: "sound_engine e \<Longrightarrow> eg_time e (truncate_us t) = truncate_us t"
  by (rule sound_engineD(3)) (simp_all add: truncate_us_def minus_mod_eq_mult_div)

lemma new_audit_row_entry:
  assumes "sound_engine e" and "eg_json e p = Some stored" and "json_unmarshal (eg_float e) p = Inr decoded"
    and "(case last_row_hash d of Some h \<Rightarrow> h | None \<Rightarrow> []) = prev"
  shows "audit_entry (eg_float e) (new_audit_row e d i entry stored decoded) = Inr (written_entry entry prev decoded)"
proof -
  have "json_unmarshal (eg_float e) stored = Inr decoded"
    using sound_engineD(4) [OF assms(1,2)] assms(3) by simp
  then show ?thesis
    using assms(4) truncate_us_exact [OF assms(1)]
    by (simp add: audit_entry_def new_audit_row_def written_entry_def sealed_row_def seal_input_def seal_value_def)
qed

lemma audit_ok_write:
  assumes "sound_engine e" and "audit_ok e d"
    and "my_WriteAuditEntry (OpenMySQLStore e) entry d = (r, d')"
  shows "audit_ok e d'"
proof (cases r)
  case (Some err)
  then show ?thesis
    using WriteAuditEntry_err [of "OpenMySQLStore e" entry d err d'] assms
    by (intro audit_ok_later [OF assms(1,2)]) (auto simp: same_tablesD)
next
  case None
  obtain es where es: "audit_rows_ok e d" "audit_entries (eg_float e) (tb_audit_log d) = Inr es"
    "Verify es = (- 1, None)" using assms(2) by (rule audit_okE)
  obtain stored decoded where row:
    "eg_json e (or_empty_object (ae_PayloadJSON entry)) = Some stored"
    "json_unmarshal (eg_float e) (or_empty_object (ae_PayloadJSON entry)) = Inr decoded"
    "json_supported decoded"
    "d' = d\<lparr>db_ops := db_ops d + 4,
            tb_audit_log := tb_audit_log d @ [new_audit_row e d (eg_id e (db_ops d + 3)) entry stored decoded]\<rparr>"
    using assms(3) unfolding None by (rule WriteAuditEntry_ok)
  let ?x = "written_entry entry (last_hash en_RowHash [] es) decoded"
  have "audit_entry (eg_float e) (new_audit_row e d (eg_id e (db_ops d + 3)) entry stored decoded) = Inr ?x"
    using new_audit_row_entry [OF assms(1) row(1,2) last_row_hash_chain [OF es(1,2)]] .
  then have decoded: "audit_entries (eg_float e) (tb_audit_log d') = Inr (es @ [?x])"
    using es(2) by (simp add: row(4) audit_entries_append)
  have "Verify (es @ [?x]) = (- 1, None)"
    using es(3) row(3) by (simp add: Verify_ok_iff links_append written_entry_def sealed_row_def
        seal_input_def seal_value_def)
  moreover have "audit_rows_ok e d'"
  proof -
    have "eg_id e (db_ops d) < eg_id e (db_ops d + 3)" "eg_id e (db_ops d + 3) \<le> eg_id e (db_ops d + 4)"
      using sound_engineD(1) [OF assms(1)] by (simp_all add: strict_mono_less strict_mono_less_eq)
    then show ?thesis
      using es(1) by (auto simp: audit_rows_ok_def row(4) sorted_wrt_append list_all_iff new_audit_row_def)
  qed
  ultimately show ?thesis by (simp add: audit_ok_def decoded)
qed

lemma LoadAuditEntries_decodes:
  assumes "sound_engine e" and "audit_rows_ok e d" and "my_LoadAuditEntries store d = (Inr es, d')" and "my_db store = e"
  shows "audit_entries (eg_float e) (tb_audit_log d) = Inr es"
proof -
  have "sort_key ad_id (scan_rows e n (tb_audit_log d)) = tb_audit_log d" for n
    using assms(2) mset_scan_rows [OF sound_engineD(2) [OF assms(1)]]
    by (intro sort_audit_rows) (simp_all add: audit_rows_ok_def)
  then show ?thesis
    using assms(3,4) by (auto simp: my_LoadAuditEntries_def Let_def dest!: query_Inr)
qed

section \<open>Listing exceptions page by page\<close>

text \<open>The whole listing: unresolved exceptions, worst amount first, newest first among equal amounts.\<close>

definition exception_listing :: "db \<Rightarrow> ExceptionRecord list" where
  "exception_listing d = rev (sort_key exception_cursor (filter (\<lambda>x. er_ResolvedAt x = None) (tb_exception_log d)))"

lemma sort_key_scan:
  assumes "mset qs = mset xs" and "inj_on f (set xs)"
  shows "sort_key f qs = sort_key f xs"
proof (rule sort_key_inj_key_eq)
  show "mset qs = mset (sort_key f xs)" using assms(1) by simp
  show "inj_on f (set qs)" using assms by (metis set_mset_mset)
  show "sorted (map f (sort_key f xs))" by simp
qed

lemma inj_exception_cursor:
  "distinct (map er_ID xs) \<Longrightarrow> inj_on exception_cursor (set xs)"
  by (auto simp: exception_cursor_def inj_on_def distinct_map)

lemma listing_decreasing:
  assumes "distinct (map er_ID (tb_exception_log d))"
  shows "sorted_wrt (>) (map exception_cursor (exception_listing d))"
proof -
  let ?u = "filter (\<lambda>x. er_ResolvedAt x = None) (tb_exception_log d)"
  have "inj_on exception_cursor (set ?u)"
    using inj_exception_cursor [OF assms] by (rule inj_on_subset) auto
  moreover have "distinct ?u" using assms by (simp add: distinct_map)
  ultimately have "distinct (map exception_cursor (sort_key exception_cursor ?u))"
    by (simp add: distinct_map)
  then have "sorted_wrt (<) (map exception_cursor (sort_key exception_cursor ?u))"
    by (simp add: strict_sorted_iff)
  then show ?thesis
    by (simp add: exception_listing_def rev_map [symmetric] sorted_wrt_rev)
qed

text \<open>In a strictly decreasing list the elements below the one at a position are those after it.\<close>

lemma filter_below_eq_drop:
  assumes "sorted_wrt (>) (map f xs)" and "k < length xs"
  shows "filter (\<lambda>x. f x < (f (xs ! k) :: 'b :: linorder)) xs = drop (Suc k) xs"
proof -
  have lt: "f (xs ! j) < f (xs ! i)" if "i < j" "j < length xs" for i j
    using assms(1) that by (auto simp: sorted_wrt_map sorted_wrt_iff_nth_less)
  have "filter (\<lambda>x. f x < f (xs ! k)) (take (Suc k) xs) = []"
  proof (rule filter_False, rule ballI)
    fix x assume "x \<in> set (take (Suc k) xs)"
    then obtain i where "i < Suc k" "x = xs ! i"
      using assms(2) by (auto simp: in_set_conv_nth)
    then show "\<not> f x < f (xs ! k)"
      using lt [of i k] assms(2) by (cases "i = k") auto
  qed
  moreover have "filter (\<lambda>x. f x < f (xs ! k)) (drop (Suc k) xs) = drop (Suc k) xs"
  proof (rule filter_True, rule ballI)
    fix x assume "x \<in> set (drop (Suc k) xs)"
    then obtain i where "x = xs ! (Suc k + i)" "Suc k + i < length xs"
      by (auto simp: in_set_conv_nth)
    then show "f x < f (xs ! k)" using lt [of k "Suc k + i"] by simp
  qed
  ultimately show ?thesis
    by (metis append_Nil append_take_drop_id filter_append)
qed

lemma List_page:
  assumes "sound_engine (my_db store)" and "distinct (map er_ID (tb_exception_log d))"
    and "my_ListUnresolvedExceptions store limit cursor d = (Inr page, d')"
  shows "page = take (nat (if limit \<le> 0 then 50 else limit))
           (filter (\<lambda>x. case cursor of None \<Rightarrow> True | Some c \<Rightarrow> exception_cursor x < c) (exception_listing d))"
proof -
  let ?e = "my_db store"
  let ?P = "\<lambda>x. case cursor of None \<Rightarrow> True | Some c \<Rightarrow> exception_cursor x < c"
  have scan: "sort_key exception_cursor (scan_rows ?e n (tb_exception_log d))
      = sort_key exception_cursor (tb_exception_log d)" for n
    using mset_scan_rows [OF sound_engineD(2) [OF assms(1)]] inj_exception_cursor [OF assms(2)]
    by (rule sort_key_scan)
  have "page = take (nat (if limit \<le> 0 then 50 else limit)) (rev (sort_key exception_cursor
      (filter (\<lambda>x. er_ResolvedAt x = None \<and> ?P x) (scan_rows ?e (db_ops d) (tb_exception_log d)))))"
    using assms(3) unfolding my_ListUnresolvedExceptions_def Let_def by (auto dest!: query_Inr)
  also have "rev (sort_key exception_cursor
      (filter (\<lambda>x. er_ResolvedAt x = None \<and> ?P x) (scan_rows ?e (db_ops d) (tb_exception_log d))))
      = filter ?P (exception_listing d)"
    by (simp only: exception_listing_def filter_sort [symmetric] scan rev_filter [symmetric] filter_filter)
  finally show ?thesis .
qed

lemma List_page_at:
  assumes "sound_engine e" and "distinct (map er_ID (tb_exception_log d))"
    and "k \<le> length (exception_listing d)"
    and "my_ListUnresolvedExceptions (OpenMySQLStore e) limit
           (if k = 0 then None else Some (exception_cursor (exception_listing d ! (k - 1)))) d = (Inr page, d')"
  shows "page = take (nat (if limit \<le> 0 then 50 else limit)) (drop k (exception_listing d))"
proof (cases k)
  case 0
  then show ?thesis using List_page [OF _ assms(2,4)] assms(1) by (simp add: OpenMySQLStore_def)
next
  case (Suc j)
  have "filter (\<lambda>x. exception_cursor x < exception_cursor (exception_listing d ! j)) (exception_listing d)
      = drop (Suc j) (exception_listing d)"
    using listing_decreasing [OF assms(2)] assms(3) Suc by (intro filter_below_eq_drop) simp_all
  then show ?thesis using List_page [OF _ assms(2,4)] assms(1) Suc by (simp add: OpenMySQLStore_def)
qed

section \<open>Properties\<close>

text \<open>
  C11: the stored audit log stays verifiable: if the rows of the table decode to a log that \<^verbatim>\<open>Verify\<close>
  accepts, the same holds after any call of \<^verbatim>\<open>WriteAuditEntry\<close>, whether it succeeds or reports an error,
  for any fault the database reports, and a log loaded after the call verifies.
\<close>

theorem audit_log_stays_verifiable:
  assumes "sound_engine e" and "audit_ok e d"
    and "my_WriteAuditEntry (OpenMySQLStore e) entry d = (r, d')"
  shows "audit_ok e d'
       \<and> (\<forall>es d''. my_LoadAuditEntries (OpenMySQLStore e) d' = (Inr es, d'') \<longrightarrow> Verify es = (- 1, None))"
proof -
  have ok: "audit_ok e d'" using assms by (rule audit_ok_write)
  then show ?thesis
    using LoadAuditEntries_decodes [OF assms(1)] by (auto simp: audit_ok_def OpenMySQLStore_def)
qed

definition sample_audit :: AuditEntryRow where
  "sample_audit = \<lparr>ae_EventType = ''MATCH_RECORDED'', ae_PayloadJSON = Some ''{}'', ae_CreatedAt = 1234567\<rparr>"

lemma audit_ok_empty: "audit_ok e empty_db"
  by (simp add: audit_ok_def audit_rows_ok_def empty_db_def Verify_def)

theorem audit_log_stays_verifiable_witness:
  "\<exists>r d'. my_WriteAuditEntry (OpenMySQLStore ideal_engine) sample_audit empty_db = (r, d') \<and> audit_ok ideal_engine d'"
proof -
  obtain r d' where w: "my_WriteAuditEntry (OpenMySQLStore ideal_engine) sample_audit empty_db = (r, d')"
    by (cases "my_WriteAuditEntry (OpenMySQLStore ideal_engine) sample_audit empty_db")
  from audit_log_stays_verifiable [OF sound_ideal_engine audit_ok_empty this] w show ?thesis by blast
qed

text \<open>
  What a successful \<^verbatim>\<open>WriteAuditEntry\<close> records: one new row at the end, whose decoded form has the
  given event type, the payload's value, the timestamp truncated to microseconds, the hash of the
  previous last row as predecessor and its own seal as row hash; no other table changes. After an error
  no table changes at all.
\<close>

theorem audit_write_effect:
  assumes "sound_engine e" and "audit_ok e d"
    and "my_WriteAuditEntry (OpenMySQLStore e) entry d = (r, d')"
  shows "(r \<noteq> None \<longrightarrow> same_tables d d')
       \<and> (r = None \<longrightarrow>
            (\<exists>es decoded row. audit_entries (eg_float e) (tb_audit_log d) = Inr es
               \<and> json_unmarshal (eg_float e) (or_empty_object (ae_PayloadJSON entry)) = Inr decoded
               \<and> audit_entry (eg_float e) row = Inr (written_entry entry (last_hash en_RowHash [] es) decoded)
               \<and> same_tables (d\<lparr>tb_audit_log := tb_audit_log d @ [row]\<rparr>) d'))"
proof (cases r)
  case (Some err)
  then show ?thesis using WriteAuditEntry_err(1) assms(3) by auto
next
  case None
  obtain es where es: "audit_rows_ok e d" "audit_entries (eg_float e) (tb_audit_log d) = Inr es"
    using assms(2) by (rule audit_okE)
  obtain stored decoded where row:
    "eg_json e (or_empty_object (ae_PayloadJSON entry)) = Some stored"
    "json_unmarshal (eg_float e) (or_empty_object (ae_PayloadJSON entry)) = Inr decoded"
    "d' = d\<lparr>db_ops := db_ops d + 4,
            tb_audit_log := tb_audit_log d @ [new_audit_row e d (eg_id e (db_ops d + 3)) entry stored decoded]\<rparr>"
    using assms(3) unfolding None by (rule WriteAuditEntry_ok)
  have "audit_entry (eg_float e) (new_audit_row e d (eg_id e (db_ops d + 3)) entry stored decoded)
        = Inr (written_entry entry (last_hash en_RowHash [] es) decoded)"
    using new_audit_row_entry [OF assms(1) row(1,2) last_row_hash_chain [OF es]] .
  moreover have "same_tables (d\<lparr>tb_audit_log := tb_audit_log d @
      [new_audit_row e d (eg_id e (db_ops d + 3)) entry stored decoded]\<rparr>) d'"
    by (simp add: same_tables_def row(3))
  ultimately show ?thesis using es(2) row(2) None by auto
qed

lemma unmarshal_empty_object: "json_unmarshal ft ''{}'' = Inr (JObj [])"
  by (simp add: json_unmarshal_def parse_value.simps skip_ws_def is_json_space_def)

theorem audit_write_effect_witness:
  "\<exists>d'. my_WriteAuditEntry (OpenMySQLStore ideal_engine) sample_audit empty_db = (None, d')
       \<and> length (tb_audit_log d') = 1"
proof -
  have "\<exists>d'. my_WriteAuditEntry (OpenMySQLStore ideal_engine) sample_audit empty_db = (None, d')"
    by (simp add: my_WriteAuditEntry_def OpenMySQLStore_def ideal_engine_def tx_mark_def stmt_def audit_body_def
        sample_audit_def or_empty_object_def unmarshal_empty_object Seal_def json_marshal_def wrap_err_def
        insert_audit_def json_column_def empty_db_def Let_def)
  then obtain d' where w: "my_WriteAuditEntry (OpenMySQLStore ideal_engine) sample_audit empty_db = (None, d')"
    by blast
  from audit_write_effect [OF sound_ideal_engine audit_ok_empty w] w show ?thesis
    by (auto dest!: same_tablesD(8)) (simp add: empty_db_def)
qed

text \<open>
  Keyset pagination tiles the listing: the page that follows the \<open>k\<close>-th row of the listing (or the
  first page, for \<open>k = 0\<close>) is exactly the next rows of the listing, so paging with the cursor of the
  last row seen neither skips nor repeats an exception, also among equal amounts.
\<close>

theorem exception_pages_tile:
  assumes "sound_engine e" and "distinct (map er_ID (tb_exception_log d))"
    and "k \<le> length (exception_listing d)"
    and "my_ListUnresolvedExceptions (OpenMySQLStore e) limit
           (if k = 0 then None else Some (exception_cursor (exception_listing d ! (k - 1)))) d = (Inr page, d')"
  shows "page = take (nat (if limit \<le> 0 then 50 else limit)) (drop k (exception_listing d))"
  using assms by (rule List_page_at)

definition sample_exception :: "int \<Rightarrow> int \<Rightarrow> ExceptionRecord" where
  "sample_exception i amount =
     \<lparr>er_ID = i, er_RecordType = ''payment'', er_RecordID = ''pay_1'', er_ReasonCode = ReasonNoCandidate,
      er_AmountAtRiskPaise = amount, er_EvidenceJSON = ''{}'', er_ResolvedAt = None, er_CreatedAt = 0\<rparr>"

definition sample_exceptions_db :: db where
  "sample_exceptions_db = empty_db\<lparr>tb_exception_log :=
     [sample_exception 1 500, sample_exception 2 900, sample_exception 3 500]\<rparr>"

lemma sample_listing:
  "exception_listing sample_exceptions_db = [sample_exception 2 900, sample_exception 3 500, sample_exception 1 500]"
  by (simp add: exception_listing_def sample_exceptions_db_def sample_exception_def exception_cursor_def
      empty_db_def)

theorem exception_pages_tile_witness:
  "fst (my_ListUnresolvedExceptions (OpenMySQLStore ideal_engine) 1
      (Some (exception_cursor (sample_exception 2 900))) sample_exceptions_db)
   = Inr [sample_exception 3 500]"
proof -
  let ?c = "if (1::nat) = 0 then None else Some (exception_cursor (exception_listing sample_exceptions_db ! (1 - 1)))"
  have "\<exists>page d'. my_ListUnresolvedExceptions (OpenMySQLStore ideal_engine) 1 ?c sample_exceptions_db = (Inr page, d')"
    by (simp add: my_ListUnresolvedExceptions_def query_def OpenMySQLStore_def ideal_engine_def Let_def)
  then obtain page d' where p: "my_ListUnresolvedExceptions (OpenMySQLStore ideal_engine) 1 ?c sample_exceptions_db = (Inr page, d')"
    by blast
  have "page = take (nat (if (1::int) \<le> 0 then 50 else 1)) (drop 1 (exception_listing sample_exceptions_db))"
    by (rule exception_pages_tile [OF sound_ideal_engine _ _ p])
       (simp_all add: sample_listing, simp add: sample_exceptions_db_def sample_exception_def empty_db_def)
  with p show ?thesis by (simp add: sample_listing)
qed

end
