(* ===== verification/API_Server.thy ===== *)
theory API_Server
  imports QA_Agent MySQL_Laws
begin

text \<open>
  \<^verbatim>\<open>internal/api/server.go\<close>: the handlers of the operator interface. A handler is given what it reads of the
  request (query values, empty when missing; the path value; the bytes of the body that arrive) and the
  world of the AI layer, whose store is the one the server reads; it returns the status code and the body.
  Routing is the standard library's.
\<close>

section \<open>The server\<close>

definition maxQARequestBytes :: nat where "maxQARequestBytes = 8192"
definition maxQuestionRunes :: nat where "maxQuestionRunes = 500"

text \<open>
  \<open>sv_Lister\<close> is the store seen as an \<^verbatim>\<open>ExceptionLister\<close>, \<open>None\<close> when it is none; \<open>sv_Exceptions\<close> is
  \<open>None\<close> for the nil slice.
\<close>

record ('r, 's, 'l) Server =
  sv_Exceptions :: "Exception list option"
  sv_Store :: "(int \<Rightarrow> 's \<Rightarrow> ExceptionRecord result \<times> 's) option"
  sv_Lister :: "(int \<Rightarrow> ExceptionCursor option \<Rightarrow> 's \<Rightarrow> ExceptionRecord list result \<times> 's) option"
  sv_Explainer :: "('r, 's, 'l) Explainer option"
  sv_AdHocBatchRunID :: string
  sv_QA :: "(string \<Rightarrow> ('r, 's, 'l) ai_world \<Rightarrow> Answer result \<times> ('r, 's, 'l) ai_world) option"
  sv_Audit :: "('s \<Rightarrow> Entry list result \<times> 's) option"

type_synonym response = "int \<times> string"

text \<open>The status is sent first; a value that cannot be encoded leaves the body empty.\<close>

definition writeJSON :: "int \<Rightarrow> json \<Rightarrow> response" where
  "writeJSON status v = (status, case json_marshal v of Inl err \<Rightarrow> [] | Inr s \<Rightarrow> s @ [CHR 0x0A])"

definition json_failure :: "int \<Rightarrow> string \<Rightarrow> response" where
  "json_failure status message = writeJSON status (JObj [(''error'', JStr message)])"

definition health :: response where
  "health = writeJSON 200 (JObj [(''status'', JStr ''ok'')])"

section \<open>Cursors\<close>

record exceptionCursorPayload =
  ecp_AmountAtRiskPaise :: int
  ecp_ID :: int

definition encodeExceptionCursor :: "ExceptionCursor \<Rightarrow> string" where
  "encodeExceptionCursor cursor =
     (let payload = json_text (JStruct [(''amount_at_risk_paise'', JInt (cur_AmountAtRiskPaise cursor)),
                                        (''id'', JInt (cur_ID cursor))])
      in b64_encode (map of_char payload))"

definition cursor_fields :: "exceptionCursorPayload reader" where
  "cursor_fields =
     read_struct
       [(''amount_at_risk_paise'', field_of ecp_AmountAtRiskPaise (\<lambda>x r. r\<lparr>ecp_AmountAtRiskPaise := x\<rparr>) read_int64),
        (''id'', field_of ecp_ID (\<lambda>x r. r\<lparr>ecp_ID := x\<rparr>) read_int64)]"

definition decodeExceptionCursor :: "string \<Rightarrow> ExceptionCursor result" where
  "decodeExceptionCursor raw =
     (case b64_decode raw of
        Inl err \<Rightarrow> Inl err
      | Inr decoded \<Rightarrow>
          (case json_unmarshal_into cursor_fields \<lparr>ecp_AmountAtRiskPaise = 0, ecp_ID = 0\<rparr> (map char_of decoded) of
             Inl err \<Rightarrow> Inl err
           | Inr payload \<Rightarrow> Inr (ExceptionCursor (ecp_AmountAtRiskPaise payload) (ecp_ID payload))))"

section \<open>Listing exceptions\<close>

definition page_limit :: "string \<Rightarrow> int" where
  "page_limit raw =
     (if raw = [] then 50
      else (case parse_int64 raw of Inr parsed \<Rightarrow> if 0 < parsed \<and> parsed \<le> 200 then parsed else 50 | Inl err \<Rightarrow> 50))"

definition page_cursor :: "string \<Rightarrow> ExceptionCursor option result" where
  "page_cursor raw =
     (if raw = [] then Inr None
      else (case decodeExceptionCursor raw of Inl err \<Rightarrow> Inl err | Inr cursor \<Rightarrow> Inr (Some cursor)))"

text \<open>The page a request asks for, with the cursor of the next one; or the failure that is answered.\<close>

definition exception_page ::
  "(int \<Rightarrow> ExceptionCursor option \<Rightarrow> 's \<Rightarrow> ExceptionRecord list result \<times> 's) \<Rightarrow> string \<Rightarrow> string \<Rightarrow> 's \<Rightarrow>
   ((int \<times> string) + (ExceptionRecord list \<times> string option)) \<times> 's" where
  "exception_page lister limit_value cursor_value s =
     (let limit = page_limit limit_value in
      case page_cursor cursor_value of
        Inl err \<Rightarrow> (Inl (400, ''invalid cursor''), s)
      | Inr cursor \<Rightarrow>
          (case lister (limit + 1) cursor s of
             (Inl err, s') \<Rightarrow> (Inl (500, ''failed to load exceptions''), s')
           | (Inr records, s') \<Rightarrow>
               (let hasMore = nat limit < length records;
                    records = (if hasMore then take (nat limit) records else records)
                in (Inr (records, if hasMore then Some (encodeExceptionCursor
                          (ExceptionCursor (er_AmountAtRiskPaise (last records)) (er_ID (last records)))) else None), s'))))"

definition exception_json :: "ExceptionRecord \<Rightarrow> json" where
  "exception_json record =
     JObj [(''id'', JInt (er_ID record)), (''reason_code'', JStr (er_ReasonCode record)),
           (''amount_at_risk_paise'', JInt (er_AmountAtRiskPaise record)),
           (''evidence'', json_raw (er_EvidenceJSON record)), (''resolved_at'', json_time (er_ResolvedAt record))]"

definition fallback_json :: "Exception \<Rightarrow> json" where
  "fallback_json x =
     JStruct [(''RecordType'', JStr (ex_RecordType x)), (''RecordID'', JStr (ex_RecordID x)),
              (''ReasonCode'', JStr (ex_ReasonCode x)), (''AmountAtRiskPaise'', JInt (ex_AmountAtRiskPaise x)),
              (''Evidence'', JObj (ex_Evidence x))]"

definition listExceptions ::
  "('r, 's, 'l) Server \<Rightarrow> string \<Rightarrow> string \<Rightarrow> ('r, 's, 'l) ai_world \<Rightarrow> response \<times> ('r, 's, 'l) ai_world" where
  "listExceptions server limit_value cursor_value w =
     (case sv_Lister server of
        None \<Rightarrow> (writeJSON 200 (JObj [(''exceptions'',
                   case sv_Exceptions server of None \<Rightarrow> JNull | Some xs \<Rightarrow> JArr (map fallback_json xs))]), w)
      | Some lister \<Rightarrow>
          (case exception_page lister limit_value cursor_value (aw_store w) of
             (Inl (status, message), s) \<Rightarrow> (json_failure status message, w\<lparr>aw_store := s\<rparr>)
           | (Inr (records, next), s) \<Rightarrow>
               (writeJSON 200 (JObj ((''exceptions'', JArr (map exception_json records))
                  # (case next of None \<Rightarrow> [] | Some c \<Rightarrow> [(''next_cursor'', JStr c)]))), w\<lparr>aw_store := s\<rparr>)))"

section \<open>Resolving and explaining\<close>

definition resolveException :: "string \<Rightarrow> response" where
  "resolveException body =
     (case json_decode_limited None (read_struct [(''actor'', read_string)]) [] body of
        Inl err \<Rightarrow> json_failure 400 ''invalid json''
      | Inr actor \<Rightarrow>
          if prefix ''ai:'' (to_lower actor) then json_failure 400 ''actor must be human or deterministic rule''
          else json_failure 501 ''resolution persistence is pending store integration'')"

definition explain_response :: "ExceptionRecord \<Rightarrow> Explanation result \<Rightarrow> response" where
  "explain_response record outcome =
     writeJSON 200 (JObj ([(''reason_code'', JStr (er_ReasonCode record)), (''evidence'', json_raw (er_EvidenceJSON record))]
       @ (case outcome of
            Inr explanation \<Rightarrow> [(''text'', JStr (xp_Text explanation)), (''prompt_version'', JStr (xp_PromptVersion explanation))]
          | Inl err \<Rightarrow>
              [(''explanation_skipped'',
                JStr (if errors_is err ErrBudgetExceeded \<or> errors_is err ErrCircuitOpen then err_text err
                      else ''explanation temporarily unavailable''))])))"

definition exception_view :: "ExceptionRecord \<Rightarrow> Exception_view" where
  "exception_view record =
     \<lparr>xv_ID = er_ID record, xv_ReasonCode = er_ReasonCode record, xv_EvidenceJSON = Some (er_EvidenceJSON record),
      xv_AmountAtRiskPaise = er_AmountAtRiskPaise record\<rparr>"

definition explainException ::
  "('r, 's, 'l) Server \<Rightarrow> string \<Rightarrow> ('r, 's, 'l) ai_world \<Rightarrow> response \<times> ('r, 's, 'l) ai_world" where
  "explainException server path_id w =
     (case (sv_Store server, sv_Explainer server) of
        (Some get, Some explainer) \<Rightarrow>
          (case parse_int64 path_id of
             Inl err \<Rightarrow> (json_failure 400 ''invalid exception id'', w)
           | Inr i \<Rightarrow>
               (case get i (aw_store w) of
                  (Inl err, s) \<Rightarrow>
                    (if errors_is err ErrExceptionNotFound then json_failure 404 ''exception not found''
                     else json_failure 500 ''failed to load exception'', w\<lparr>aw_store := s\<rparr>)
                | (Inr record, s) \<Rightarrow>
                    (let batchRunID = (if sv_AdHocBatchRunID server = [] then ''api:adhoc'' else sv_AdHocBatchRunID server) in
                     case Explain explainer batchRunID (exception_view record) (w\<lparr>aw_store := s\<rparr>) of
                       (outcome, w') \<Rightarrow> (explain_response record outcome, w'))))
      | _ \<Rightarrow> (json_failure 503 ''ai explainer not configured'', w))"

section \<open>Questions and the audit log\<close>

text \<open>A struct with fields that are left out when empty.\<close>

definition answer_json :: "Answer \<Rightarrow> json" where
  "answer_json a =
     JStruct ([(''answer'', JStr (an_Text a)), (''intent'', JStr (an_Intent a)),
               (''evidence_rows'', JArr (an_EvidenceRows a)), (''answer_source'', JStr (an_AnswerSource a))]
       @ (if an_PromptVersion a = [] then [] else [(''prompt_version'', JStr (an_PromptVersion a))])
       @ (if an_DegradedReason a = [] then [] else [(''degraded_reason'', JStr (an_DegradedReason a))]))"

definition askQuestion ::
  "('r, 's, 'l) Server \<Rightarrow> string \<Rightarrow> ('r, 's, 'l) ai_world \<Rightarrow> response \<times> ('r, 's, 'l) ai_world" where
  "askQuestion server body w =
     (case sv_QA server of
        None \<Rightarrow> (json_failure 503 ''qa agent not configured'', w)
      | Some answer \<Rightarrow>
          (case json_decode_limited (Some maxQARequestBytes) (read_struct [(''question'', read_string)]) [] body of
             Inl err \<Rightarrow> (json_failure 400 ''invalid json'', w)
           | Inr raw \<Rightarrow>
               (let question = trim_space raw in
                if question = [] then (json_failure 400 ''question is required'', w)
                else if maxQuestionRunes < length (go_range question) then (json_failure 400 ''question is too long'', w)
                else (case answer question w of
                        (Inl err, w') \<Rightarrow> (json_failure 500 ''failed to answer question'', w')
                      | (Inr a, w') \<Rightarrow> (writeJSON 200 (answer_json a), w')))))"

definition verifyChain ::
  "('r, 's, 'l) Server \<Rightarrow> ('r, 's, 'l) ai_world \<Rightarrow> response \<times> ('r, 's, 'l) ai_world" where
  "verifyChain server w =
     (case sv_Audit server of
        None \<Rightarrow> (json_failure 503 ''audit log not configured'', w)
      | Some load \<Rightarrow>
          (case load (aw_store w) of
             (Inl err, s) \<Rightarrow> (json_failure 500 ''failed to read audit log'', w\<lparr>aw_store := s\<rparr>)
           | (Inr entries, s) \<Rightarrow>
               (case Verify entries of
                  (brokenAt, Some verifyErr) \<Rightarrow>
                    (writeJSON 200 (JObj [(''verified'', JBool False), (''first_break_at_row'', JInt brokenAt),
                                          (''detail'', JStr (err_text verifyErr))]), w\<lparr>aw_store := s\<rparr>)
                | (brokenAt, None) \<Rightarrow>
                    (writeJSON 200 (JObj [(''verified'', JBool True), (''rows_checked'', JInt (int (length entries)))]),
                     w\<lparr>aw_store := s\<rparr>))))"

end
