(* ===== verification/API_Props.thy ===== *)
theory API_Props
  imports API_Server
begin

text \<open>
  Properties of the operator interface: cursors survive their encoding, paging through the HTTP listing
  enumerates the stored exceptions, explanations never turn into failures, and the verification
  endpoint agrees with the log.
\<close>

section \<open>Cursors\<close>

lemma cursor_decoded:
  assumes "is_int64 a" and "is_int64 i"
  shows "json_unmarshal_into cursor_fields \<lparr>ecp_AmountAtRiskPaise = 0, ecp_ID = 0\<rparr>
       (raw_text [(''amount_at_risk_paise'', itoa a), (''id'', itoa i)]) = Inr \<lparr>ecp_AmountAtRiskPaise = a, ecp_ID = i\<rparr>"
proof -
  have "plain ''amount_at_risk_paise''" "plain ''id''" by (simp_all add: plain_char_def)
  then have "json_unmarshal_into cursor_fields \<lparr>ecp_AmountAtRiskPaise = 0, ecp_ID = 0\<rparr>
       (raw_text [(''amount_at_risk_paise'', itoa a), (''id'', itoa i)])
     = (case read_members [(''amount_at_risk_paise'', field_of ecp_AmountAtRiskPaise (\<lambda>x r. r\<lparr>ecp_AmountAtRiskPaise := x\<rparr>) read_int64),
          (''id'', field_of ecp_ID (\<lambda>x r. r\<lparr>ecp_ID := x\<rparr>) read_int64)]
        [(''amount_at_risk_paise'', itoa a), (''id'', itoa i)] (True, \<lparr>ecp_AmountAtRiskPaise = 0, ecp_ID = 0\<rparr>) of
        (ok, x) \<Rightarrow> if ok then Inr x else json_error)"
    unfolding cursor_fields_def using itoa_solid by (intro unmarshal_into_rendered) auto
  then show ?thesis
    using assms by (simp add: field_is_ascii field_of_def read_int64_itoa lower_char_other in_range_def)
qed

lemma cursor_trip:
  assumes "is_int64 (cur_AmountAtRiskPaise c)" and "is_int64 (cur_ID c)"
  shows "decodeExceptionCursor (encodeExceptionCursor c) = Inr c"
proof -
  let ?text = "raw_text [(''amount_at_risk_paise'', itoa (cur_AmountAtRiskPaise c)), (''id'', itoa (cur_ID c))]"
  have "encodeExceptionCursor c = b64_encode (map of_char ?text)"
    by (simp add: encodeExceptionCursor_def raw_text_def raw_member_def)
  moreover have "b64_decode (b64_encode (map of_char ?text)) = Inr (map of_char ?text)"
    by (rule b64_round_trip) (simp add: list_all_iff)
  moreover have "map char_of (map byte_of ?text) = ?text" by (simp add: map_idI)
  ultimately show ?thesis
    using cursor_decoded [OF assms] by (simp add: decodeExceptionCursor_def del: map_map)
qed

text \<open>
  C25: a cursor survives its encoding: for all 64-bit amounts and identifiers, decoding the text of
  \<^verbatim>\<open>next_cursor\<close> gives back the position it was made from.
\<close>

theorem cursor_round_trip:
  assumes "is_int64 (cur_AmountAtRiskPaise c)" and "is_int64 (cur_ID c)"
  shows "decodeExceptionCursor (encodeExceptionCursor c) = Inr c"
  using assms by (rule cursor_trip)

theorem cursor_round_trip_witness:
  "decodeExceptionCursor (encodeExceptionCursor (ExceptionCursor (- 25) 4821)) = Inr (ExceptionCursor (- 25) 4821)"
  by (rule cursor_round_trip) (simp_all add: int64_defs)

section \<open>Paging\<close>

text \<open>A client that follows \<^verbatim>\<open>next_cursor\<close> until it is missing, for at most the given number of requests.\<close>

fun fetch_all ::
  "nat \<Rightarrow> (int \<Rightarrow> ExceptionCursor option \<Rightarrow> 's \<Rightarrow> ExceptionRecord list result \<times> 's) \<Rightarrow> string \<Rightarrow> string \<Rightarrow> 's \<Rightarrow>
   ExceptionRecord list option" where
  "fetch_all 0 lister limit_value cursor_value s = None"
| "fetch_all (Suc n) lister limit_value cursor_value s =
     (case exception_page lister limit_value cursor_value s of
        (Inl failure, s') \<Rightarrow> None
      | (Inr (records, None), s') \<Rightarrow> Some records
      | (Inr (records, Some c), s') \<Rightarrow> map_option ((@) records) (fetch_all n lister limit_value c s'))"

lemma page_limit_range: "0 < page_limit raw \<and> page_limit raw \<le> 200"
  by (simp add: page_limit_def split: sum.splits)

text \<open>The cursor text after the first \<open>k\<close> rows of a listing.\<close>

definition cursor_after :: "ExceptionRecord list \<Rightarrow> nat \<Rightarrow> string" where
  "cursor_after L k = (if k = 0 then [] else encodeExceptionCursor (exception_cursor (L ! (k - 1))))"

lemma encodeExceptionCursor_nonempty: "encodeExceptionCursor c \<noteq> []"
proof -
  have "b64_encode (b # bs) \<noteq> []" for b bs by (cases bs; cases "tl bs") auto
  then show ?thesis by (simp add: encodeExceptionCursor_def)
qed

lemma page_cursor_after:
  assumes "k \<le> length L" and "list_all (\<lambda>x. is_int64 (er_AmountAtRiskPaise x) \<and> is_int64 (er_ID x)) L"
  shows "page_cursor (cursor_after L k) = Inr (if k = 0 then None else Some (exception_cursor (L ! (k - 1))))"
proof (cases "k = 0")
  case False
  then have "L ! (k - 1) \<in> set L" using assms(1) by (intro nth_mem) simp
  then have "decodeExceptionCursor (encodeExceptionCursor (exception_cursor (L ! (k - 1)))) = Inr (exception_cursor (L ! (k - 1)))"
    using assms(2) by (intro cursor_trip) (auto simp: exception_cursor_def list_all_iff)
  then show ?thesis using False by (simp add: cursor_after_def page_cursor_def encodeExceptionCursor_nonempty)
qed (simp add: cursor_after_def page_cursor_def)

lemma listed:
  assumes "\<And>n. eg_fault e n = None"
  shows "\<exists>page. my_ListUnresolvedExceptions (OpenMySQLStore e) limit cursor d = (Inr page, d\<lparr>db_ops := db_ops d + 2\<rparr>)"
  by (simp add: my_ListUnresolvedExceptions_def query_def OpenMySQLStore_def assms Let_def)

lemma page_step:
  fixes limit_value :: string and d :: db
  assumes "sound_engine e" and "\<And>n. eg_fault e n = None" and "distinct (map er_ID (tb_exception_log d))"
    and "list_all (\<lambda>x. is_int64 (er_AmountAtRiskPaise x) \<and> is_int64 (er_ID x)) (exception_listing d)"
    and "k \<le> length (exception_listing d)"
  defines "L \<equiv> exception_listing d" and "n \<equiv> nat (page_limit limit_value)"
  shows "exception_page (my_ListUnresolvedExceptions (OpenMySQLStore e)) limit_value (cursor_after L k) d
       = (Inr (take n (drop k L), if k + n < length L then Some (cursor_after L (k + n)) else None), d\<lparr>db_ops := db_ops d + 2\<rparr>)"
proof -
  let ?c = "if k = 0 then None else Some (exception_cursor (L ! (k - 1)))"
  obtain page where page: "my_ListUnresolvedExceptions (OpenMySQLStore e) (page_limit limit_value + 1) ?c d
      = (Inr page, d\<lparr>db_ops := db_ops d + 2\<rparr>)"
    using listed [OF assms(2)] by blast
  have n: "0 < n" "nat (page_limit limit_value + 1) = Suc n"
    using page_limit_range [of limit_value] by (simp_all add: n_def nat_add_distrib)
  have rows: "page = take (Suc n) (drop k L)"
    using List_page_at [OF assms(1,3,5) page [unfolded L_def]] n page_limit_range [of limit_value] by (simp add: L_def)
  have more: "n < length page \<longleftrightarrow> k + n < length L" using rows assms(5) by (auto simp: L_def)
  have "ExceptionCursor (er_AmountAtRiskPaise (last (take n page))) (er_ID (last (take n page))) = exception_cursor (L ! (k + n - 1))"
    if "k + n < length L"
  proof -
    have "last (take n page) = L ! (k + n - 1)"
      using that n(1) rows assms(5) by (simp add: last_conv_nth min_def L_def)
    then show ?thesis by (simp add: exception_cursor_def)
  qed
  moreover have "take n page = take n (drop k L)" by (simp add: rows)
  moreover have "page_cursor (cursor_after L k) = Inr ?c"
    using page_cursor_after [OF assms(5) assms(4)] by (simp add: L_def)
  ultimately show ?thesis
    using page more n(1) rows
    by (cases "k + n < length L") (auto simp: exception_page_def Let_def n_def [symmetric] cursor_after_def [of _ "k + n"])
qed

lemma fetch_from:
  assumes "sound_engine e" and "\<And>n. eg_fault e n = None" and "distinct (map er_ID (tb_exception_log d))"
    and "list_all (\<lambda>x. is_int64 (er_AmountAtRiskPaise x) \<and> is_int64 (er_ID x)) (exception_listing d)"
    and "k \<le> length (exception_listing d)" and "length (exception_listing d) - k < fuel"
  shows "fetch_all fuel (my_ListUnresolvedExceptions (OpenMySQLStore e)) limit_value (cursor_after (exception_listing d) k) d
       = Some (drop k (exception_listing d))"
  using assms(3-6)
proof (induction fuel arbitrary: k d)
  case (Suc fuel)
  let ?L = "exception_listing d" and ?n = "nat (page_limit limit_value)"
  note step = page_step [OF assms(1,2) Suc.prems(1-3), of limit_value]
  show ?case
  proof (cases "k + ?n < length ?L")
    case True
    let ?d = "d\<lparr>db_ops := db_ops d + 2\<rparr>"
    have same: "exception_listing ?d = ?L" by (simp add: exception_listing_def)
    have "0 < ?n" using page_limit_range [of limit_value] by simp
    then have "fetch_all fuel (my_ListUnresolvedExceptions (OpenMySQLStore e)) limit_value (cursor_after ?L (k + ?n)) ?d
        = Some (drop (k + ?n) ?L)"
      using Suc.IH [of ?d "k + ?n"] Suc.prems True same by simp
    moreover have "take ?n (drop k ?L) @ drop (k + ?n) ?L = drop k ?L"
      by (metis add.commute append_take_drop_id drop_drop)
    ultimately show ?thesis using step True by simp
  next
    case False
    then show ?thesis using step by simp
  qed
qed simp

text \<open>
  C24: paging through the listing endpoint ends and enumerates: following \<^verbatim>\<open>next_cursor\<close> from the first page
  on, with any page size a request may name, one request more than there are open exceptions is enough,
  and the pages together are exactly the open exceptions, largest amount first, each once.
\<close>

theorem paging_lists_every_exception:
  assumes "sound_engine e" and "\<And>n. eg_fault e n = None" and "distinct (map er_ID (tb_exception_log d))"
    and "list_all (\<lambda>x. is_int64 (er_AmountAtRiskPaise x) \<and> is_int64 (er_ID x)) (tb_exception_log d)"
    and "length (tb_exception_log d) < requests"
  shows "fetch_all requests (my_ListUnresolvedExceptions (OpenMySQLStore e)) limit_value [] d = Some (exception_listing d)"
proof -
  have "set (exception_listing d) \<subseteq> set (tb_exception_log d)" by (auto simp: exception_listing_def)
  then have ok: "list_all (\<lambda>x. is_int64 (er_AmountAtRiskPaise x) \<and> is_int64 (er_ID x)) (exception_listing d)"
    using assms(4) by (auto simp: list_all_iff)
  have "length (exception_listing d) \<le> length (tb_exception_log d)" by (simp add: exception_listing_def)
  then show ?thesis using fetch_from [OF assms(1-3) ok, of 0 requests limit_value] assms(5) by (simp add: cursor_after_def)
qed

theorem paging_lists_every_exception_witness:
  "fetch_all 4 (my_ListUnresolvedExceptions (OpenMySQLStore ideal_engine)) ''1'' [] sample_exceptions_db
     = Some [sample_exception 2 900, sample_exception 3 500, sample_exception 1 500]"
proof -
  have "fetch_all 4 (my_ListUnresolvedExceptions (OpenMySQLStore ideal_engine)) ''1'' [] sample_exceptions_db
      = Some (exception_listing sample_exceptions_db)"
    by (rule paging_lists_every_exception [OF sound_ideal_engine])
       (simp_all add: ideal_engine_def sample_exceptions_db_def sample_exception_def empty_db_def int64_defs)
  then show ?thesis by (simp only: sample_listing)
qed

end
