(* ===== verification/Migrations.thy ===== *)
theory Migrations
  imports MySQL_Store
begin

text \<open>
  \<^verbatim>\<open>internal/store/migrate.go\<close>: the runner that brings a database to the current schema. The database is a
  record of the four statements the runner sends (creating the tracking table, counting and recording a
  file in it, and a statement of a migration); the directory is the list of its entries, each a name, a
  flag for directories and the outcome of reading it. Both are outside the repository's Go code.
\<close>

section \<open>migrate.go\<close>

definition isAlreadyAppliedError :: "go_error \<Rightarrow> bool" where
  "isAlreadyAppliedError err =
     (case mysql_number err of None \<Rightarrow> False | Some n \<Rightarrow> n \<in> {1050, 1060, 1061, 1091, 1826})"

text \<open>\<^verbatim>\<open>strings.Split(body, sep)\<close> for one byte.\<close>

fun split_byte :: "char \<Rightarrow> string \<Rightarrow> string list" where
  "split_byte sep [] = [[]]"
| "split_byte sep (c # s) =
     (if c = sep then [] # split_byte sep s
      else (case split_byte sep s of p # ps \<Rightarrow> (c # p) # ps | [] \<Rightarrow> [[c]]))"

definition splitSQL :: "string \<Rightarrow> string list" where
  "splitSQL body = filter (\<lambda>statement. statement \<noteq> []) (map trim_space (split_byte (CHR '';'') body))"

record 'd migration_client =
  mc_CreateTracker :: "'d act"
  mc_Count :: "string \<Rightarrow> 'd \<Rightarrow> int result \<times> 'd"
  mc_Exec :: "string \<Rightarrow> 'd act"
  mc_Record :: "string \<Rightarrow> time \<Rightarrow> 'd act"

record dir_entry =
  de_Name :: string
  de_IsDir :: bool
  de_Body :: "string result"

definition migration_names :: "dir_entry list \<Rightarrow> string list" where
  "migration_names entries =
     sort (map de_Name (filter (\<lambda>x. \<not> (de_IsDir x \<or> \<not> suffix ''.up.sql'' (de_Name x))) entries))"

definition read_migration :: "dir_entry list \<Rightarrow> string \<Rightarrow> string result" where
  "read_migration entries name =
     (case find (\<lambda>x. de_Name x = name) entries of
        None \<Rightarrow> Inl (ErrText ''no such file'')
      | Some x \<Rightarrow> de_Body x)"

text \<open>The statements of one file; one whose effect is there already is passed over.\<close>

definition apply_statement :: "'d migration_client \<Rightarrow> string \<Rightarrow> string \<Rightarrow> 'd act" where
  "apply_statement client name statement d =
     (case mc_Exec client statement d of
        (None, d') \<Rightarrow> (None, d')
      | (Some err, d') \<Rightarrow>
          if isAlreadyAppliedError err then (None, d')
          else (Some (ErrWrap (''apply '' @ name @ '': '') err []), d'))"

definition apply_file :: "'d migration_client \<Rightarrow> (string \<Rightarrow> time) \<Rightarrow> dir_entry list \<Rightarrow> string \<Rightarrow> 'd act" where
  "apply_file client now entries name d =
     (case mc_Count client name d of
        (Inl err, d') \<Rightarrow> (Some err, d')
      | (Inr n, d') \<Rightarrow>
          if 0 < n then (None, d')
          else (case read_migration entries name of
                  Inl err \<Rightarrow> (Some (ErrWrap (''read '' @ name @ '': '') err []), d')
                | Inr body \<Rightarrow>
                    act_then (for_each (apply_statement client name) (splitSQL body))
                      (wrap_err (''record '' @ name @ '': '') (mc_Record client name (now name))) d'))"

definition ApplyMigrations ::
  "'d migration_client \<Rightarrow> (string \<Rightarrow> time) \<Rightarrow> dir_entry list result \<Rightarrow> 'd act" where
  "ApplyMigrations client now directory d =
     (case mc_CreateTracker client d of
        (Some err, d') \<Rightarrow> (Some (ErrWrap ''create settletrace_schema_migrations: '' err []), d')
      | (None, d') \<Rightarrow>
          (case directory of
             Inl err \<Rightarrow> (Some (ErrWrap ''read migrations: '' err []), d')
           | Inr entries \<Rightarrow> for_each (apply_file client now entries) (migration_names entries) d'))"

section \<open>What a run does\<close>

text \<open>The statements a file contributes: none when it was applied before.\<close>

definition pending :: "dir_entry list \<Rightarrow> string set \<Rightarrow> string \<Rightarrow> string list" where
  "pending entries done_before name =
     (if name \<in> done_before then [] else (case read_migration entries name of Inl err \<Rightarrow> [] | Inr body \<Rightarrow> splitSQL body))"

text \<open>
  What the runner relies on: the tracking table holds a set of file names, which creating it anew,
  counting and the statements of migrations leave alone, and recording a file adds its name or fails and adds nothing. \<open>sent\<close> is
  the statements sent so far.
\<close>

locale migration_db =
  fixes client :: "'d migration_client" and applied :: "'d \<Rightarrow> string set" and sent :: "'d \<Rightarrow> string list"
  assumes create: "mc_CreateTracker client d = (r, d') \<Longrightarrow> applied d' = applied d \<and> sent d' = sent d"
    and counted: "mc_Count client name d = (Inr n, d') \<Longrightarrow> 0 < n \<longleftrightarrow> name \<in> applied d"
    and count_keeps: "mc_Count client name d = (c, d') \<Longrightarrow> applied d' = applied d \<and> sent d' = sent d"
    and exec: "mc_Exec client statement d = (r, d') \<Longrightarrow> applied d' = applied d \<and> sent d' = sent d @ [statement]"
    and recorded: "mc_Record client name t d = (r, d') \<Longrightarrow>
          applied d' = (if r = None then insert name (applied d) else applied d) \<and> sent d' = sent d"
begin

lemma statement_ran:
  "apply_statement client name statement d = (None, d') \<Longrightarrow> applied d' = applied d \<and> sent d' = sent d @ [statement]"
  by (auto simp: apply_statement_def dest: exec split: prod.splits option.splits if_splits)

lemma statements_ran:
  "for_each (apply_statement client name) statements d = (None, d') \<Longrightarrow> applied d' = applied d \<and> sent d' = sent d @ statements"
proof (induction statements arbitrary: d)
  case (Cons s ss)
  then show ?case by (auto simp: act_then_None_iff dest!: statement_ran)
qed simp

lemma file_ran:
  assumes "apply_file client now entries name d = (None, d')"
  shows "applied d' = insert name (applied d) \<and> sent d' = sent d @ pending entries (applied d) name"
proof -
  obtain n d1 where n: "mc_Count client name d = (Inr n, d1)"
    using assms by (cases "mc_Count client name d"; cases "fst (mc_Count client name d)") (auto simp: apply_file_def)
  note c = counted [OF n] count_keeps [OF n]
  show ?thesis
  proof (cases "0 < n")
    case True
    then show ?thesis using assms n c by (auto simp: apply_file_def pending_def)
  next
    case False
    obtain body where body: "read_migration entries name = Inr body"
      using assms n False by (cases "read_migration entries name") (auto simp: apply_file_def)
    then obtain d2 where "for_each (apply_statement client name) (splitSQL body) d1 = (None, d2)"
      "mc_Record client name (now name) d2 = (None, d')"
      using assms n False by (auto simp: apply_file_def act_then_None_iff)
    then show ?thesis using statements_ran recorded c False body by (fastforce simp: pending_def)
  qed
qed

lemma files_ran:
  "for_each (apply_file client now entries) names d = (None, d') \<Longrightarrow> distinct names \<Longrightarrow>
   applied d' = applied d \<union> set names \<and> sent d' = sent d @ concat (map (pending entries (applied d)) names)"
proof (induction names arbitrary: d)
  case (Cons name names)
  then obtain d1 where d1: "apply_file client now entries name d = (None, d1)"
    "for_each (apply_file client now entries) names d1 = (None, d')" by (auto simp: act_then_None_iff)
  note f = file_ran [OF d1(1)]
  have "pending entries (applied d1) m = pending entries (applied d) m" if "m \<in> set names" for m
    using that Cons.prems(2) f by (auto simp: pending_def)
  then have p: "concat (map (pending entries (applied d1)) names) = concat (map (pending entries (applied d)) names)"
    by (intro arg_cong [where f = concat]) simp
  show ?case using Cons.IH [OF d1(2)] Cons.prems(2) f unfolding p by auto
qed simp

lemma run_ran:
  assumes "ApplyMigrations client now (Inr entries) d = (None, d')" and "distinct (map de_Name entries)"
  shows "applied d' = applied d \<union> set (migration_names entries)"
    and "sent d' = sent d @ concat (map (pending entries (applied d)) (migration_names entries))"
proof -
  obtain d1 where d1: "mc_CreateTracker client d = (None, d1)"
    "for_each (apply_file client now entries) (migration_names entries) d1 = (None, d')"
    using assms(1) by (auto simp: ApplyMigrations_def split: prod.splits option.splits)
  have "distinct (migration_names entries)"
    using assms(2) by (simp add: migration_names_def distinct_map inj_on_def)
  then show "applied d' = applied d \<union> set (migration_names entries)"
    "sent d' = sent d @ concat (map (pending entries (applied d)) (migration_names entries))"
    using files_ran [OF d1(2)] create [OF d1(1)] by auto
qed

text \<open>A run that stops has recorded the files before the one that failed.\<close>

lemma statements_keep: "keeps (\<lambda>d. applied d = A) (for_each (apply_statement client name) statements)"
proof (rule keeps_for_each)
  fix s
  show "keeps (\<lambda>d. applied d = A) (apply_statement client name s)"
    using exec by (auto simp: keeps_def apply_statement_def split: prod.splits option.splits)
qed

lemma file_failed:
  assumes "apply_file client now entries name d = (Some err, d')" shows "applied d' = applied d"
proof -
  obtain c d1 where c: "mc_Count client name d = (c, d1)" by force
  note k = count_keeps [OF c]
  show ?thesis
  proof (cases "\<exists>n body. c = Inr n \<and> \<not> 0 < n \<and> read_migration entries name = Inr body")
    case True
    then obtain n body where n: "c = Inr n" "\<not> 0 < n" "read_migration entries name = Inr body" by blast
    obtain r d2 where s: "for_each (apply_statement client name) (splitSQL body) d1 = (r, d2)" by force
    then have "applied d2 = applied d" using keepsD [OF statements_keep _ s] k by simp
    then show ?thesis
      using assms c n s recorded
      by (fastforce simp: apply_file_def act_then_def wrap_err_def split: option.splits prod.splits)
  next
    case False
    then show ?thesis using assms c k by (auto simp: apply_file_def split: sum.splits if_splits)
  qed
qed

lemma files_recorded:
  "for_each (apply_file client now entries) names d = (r, d') \<Longrightarrow>
   \<exists>k. applied d' = applied d \<union> set (take k names) \<and> (r = None \<longrightarrow> k = length names)"
proof (induction names arbitrary: d)
  case (Cons name names)
  obtain q d1 where d1: "apply_file client now entries name d = (q, d1)" by force
  show ?case
  proof (cases q)
    case None
    then have "for_each (apply_file client now entries) names d1 = (r, d')"
      using Cons.prems d1 by (simp add: act_then_def)
    from Cons.IH [OF this] obtain k where
      "applied d' = applied d1 \<union> set (take k names)" "r = None \<longrightarrow> k = length names" by blast
    then show ?thesis using file_ran [of now entries name d d1] d1 None by (intro exI [of _ "Suc k"]) auto
  next
    case (Some err)
    then have "r = Some err" "applied d' = applied d"
      using Cons.prems d1 file_failed by (auto simp: act_then_def)
    then show ?thesis by (intro exI [of _ 0]) simp
  qed
qed simp

text \<open>On files that are all recorded a run sends no statement, whether it succeeds or not.\<close>

lemma recorded_skipped:
  assumes "\<forall>name \<in> set names. name \<in> applied d" and "for_each (apply_file client now entries) names d = (r, d')"
  shows "applied d' = applied d \<and> sent d' = sent d"
  using assms
proof (induction names arbitrary: d)
  case (Cons name names)
  obtain c d1 where c: "mc_Count client name d = (c, d1)" by force
  note k = count_keeps [OF c]
  have one: "\<exists>q. apply_file client now entries name d = (q, d1)"
    using c counted [of name d _ d1] Cons.prems(1) by (cases c) (auto simp: apply_file_def)
  then obtain q where q: "apply_file client now entries name d = (q, d1)" by blast
  show ?case
  proof (cases q)
    case None
    then have "for_each (apply_file client now entries) names d1 = (r, d')"
      using Cons.prems(2) q by (simp add: act_then_def)
    from Cons.IH [OF _ this] Cons.prems(1) k show ?thesis by simp
  next
    case (Some err)
    then show ?thesis using Cons.prems(2) q k by (simp add: act_then_def)
  qed
qed simp

lemma run_recorded:
  assumes "ApplyMigrations client now (Inr entries) d = (r, d')"
  shows "\<exists>k. applied d' = applied d \<union> set (take k (migration_names entries))
           \<and> (r = None \<longrightarrow> k = length (migration_names entries))"
proof -
  obtain q d1 where q: "mc_CreateTracker client d = (q, d1)" by force
  note k = create [OF q]
  show ?thesis
  proof (cases q)
    case None
    then show ?thesis using files_recorded [of now entries "migration_names entries" d1 r d'] assms q k
      by (simp add: ApplyMigrations_def)
  next
    case (Some err)
    then show ?thesis using assms q k by (intro exI [of _ 0]) (auto simp: ApplyMigrations_def)
  qed
qed

lemma run_again:
  assumes "set (migration_names entries) \<subseteq> applied d" and "ApplyMigrations client now (Inr entries) d = (r, d')"
  shows "applied d' = applied d \<and> sent d' = sent d"
proof -
  obtain q d1 where q: "mc_CreateTracker client d = (q, d1)" by force
  note k = create [OF q]
  show ?thesis
  proof (cases q)
    case None
    then show ?thesis using recorded_skipped [of "migration_names entries" d1 now entries r d'] assms q k
      by (auto simp: ApplyMigrations_def)
  next
    case (Some err)
    then show ?thesis using assms(2) q k by (auto simp: ApplyMigrations_def)
  qed
qed

end

section \<open>A database that keeps the tracking table\<close>

text \<open>
  The contract can be met: a database with the tracking table as a list of names and the statements it
  was sent, which refuses a statement it has executed before with MySQL's error 1050.
\<close>

record tracked_db =
  td_Applied :: "string list"
  td_Ran :: "string list"

definition tracked_client :: "tracked_db migration_client" where
  "tracked_client =
     \<lparr>mc_CreateTracker = (\<lambda>d. (None, d)),
      mc_Count = (\<lambda>name d. (Inr (int (length (filter ((=) name) (td_Applied d)))), d)),
      mc_Exec = (\<lambda>statement d.
        (if statement \<in> set (td_Ran d) then Some (MySQLError 1050 ''already exists'') else None,
         d\<lparr>td_Ran := td_Ran d @ [statement]\<rparr>)),
      mc_Record = (\<lambda>name t d.
        if name \<in> set (td_Applied d) then (Some (MySQLError 1062 ''duplicate entry''), d)
        else (None, d\<lparr>td_Applied := name # td_Applied d\<rparr>))\<rparr>"

interpretation tracked: migration_db tracked_client "\<lambda>d. set (td_Applied d)" td_Ran
  by unfold_locales (auto simp: tracked_client_def filter_empty_conv split: if_splits)

text \<open>
  C35: a run of the migrations is resumable and idempotent. Whatever it returns, the files recorded as
  applied are those recorded before and an initial segment of the directory's \<^verbatim>\<open>.up.sql\<close> files in
  lexical order, all of them when it returns without error; it has then sent exactly the statements of
  the files that were not recorded, in that order; and a further run over the same directory sends no
  statement and changes no record, even when it fails.
\<close>

theorem migrations_run_once:
  assumes "migration_db client applied sent" and "distinct (map de_Name entries)"
    and "ApplyMigrations client now (Inr entries) d = (r, d1)"
  shows "(\<exists>k. applied d1 = applied d \<union> set (take k (migration_names entries))
            \<and> (r = None \<longrightarrow> k = length (migration_names entries)))
       \<and> (r = None \<longrightarrow>
            sent d1 = sent d @ concat (map (pending entries (applied d)) (migration_names entries))
          \<and> (\<forall>now' r' d2. ApplyMigrations client now' (Inr entries) d1 = (r', d2) \<longrightarrow>
                applied d2 = applied d1 \<and> sent d2 = sent d1))"
proof (intro conjI impI allI)
  show "\<exists>k. applied d1 = applied d \<union> set (take k (migration_names entries))
          \<and> (r = None \<longrightarrow> k = length (migration_names entries))"
    by (rule migration_db.run_recorded [OF assms(1,3)])
next
  assume "r = None"
  then have ok: "ApplyMigrations client now (Inr entries) d = (None, d1)" using assms(3) by simp
  note all = migration_db.run_ran [OF assms(1) ok assms(2)]
  show "sent d1 = sent d @ concat (map (pending entries (applied d)) (migration_names entries))" by (rule all(2))
  fix now' r' d2
  assume "ApplyMigrations client now' (Inr entries) d1 = (r', d2)"
  from migration_db.run_again [OF assms(1) _ this] all(1)
  show "applied d2 = applied d1" "sent d2 = sent d1" by simp_all
qed

definition two_migrations :: "dir_entry list" where
  "two_migrations =
     [\<lparr>de_Name = ''2.up.sql'', de_IsDir = False, de_Body = Inr ''c''\<rparr>,
      \<lparr>de_Name = ''1.up.sql'', de_IsDir = False, de_Body = Inr ''a; b ;''\<rparr>,
      \<lparr>de_Name = ''1.down.sql'', de_IsDir = False, de_Body = Inr ''x''\<rparr>]"

lemma two_migrations_eval [simp]:
  "migration_names two_migrations = [''1.up.sql'', ''2.up.sql'']"
  "read_migration two_migrations ''1.up.sql'' = Inr ''a; b ;''"
  "splitSQL ''a; b ;'' = [''a'', ''b'']"
  by code_simp+

lemma two_migrations_run:
  "ApplyMigrations tracked_client now (Inr two_migrations) \<lparr>td_Applied = [''2.up.sql''], td_Ran = [''c'']\<rparr>
     = (None, \<lparr>td_Applied = [''1.up.sql'', ''2.up.sql''], td_Ran = [''c'', ''a'', ''b'']\<rparr>)"
  by (simp add: ApplyMigrations_def tracked_client_def apply_file_def act_then_def apply_statement_def wrap_err_def)

theorem migrations_run_once_witness:
  "distinct (map de_Name two_migrations)
   \<and> ApplyMigrations tracked_client (\<lambda>name. 0) (Inr two_migrations) \<lparr>td_Applied = [''2.up.sql''], td_Ran = [''c'']\<rparr>
       = (None, \<lparr>td_Applied = [''1.up.sql'', ''2.up.sql''], td_Ran = [''c'', ''a'', ''b'']\<rparr>)
   \<and> concat (map (pending two_migrations {''2.up.sql''}) (migration_names two_migrations)) = [''a'', ''b'']"
proof -
  have d: "distinct (map de_Name two_migrations)" by (simp add: two_migrations_def)
  from migrations_run_once [OF tracked.migration_db_axioms d two_migrations_run [of "\<lambda>name. 0"]]
  show ?thesis using d two_migrations_run by simp
qed

end
