(* ===== verification/API_Main.thy ===== *)
theory API_Main
  imports API_Server Migrations
begin

text \<open>
  \<^verbatim>\<open>cmd/api/main.go\<close>: how the operator interface is put together from its configuration, and what it may
  change. The environment variables, the prompt files, \<^verbatim>\<open>strconv.ParseFloat\<close> (zero on an error), the Redis
  and HTTP clients and the clock are the record \<open>api_env\<close>.
\<close>

section \<open>Wiring\<close>

record ('r, 'h) api_env =
  ev_Getenv :: "string \<Rightarrow> string"
  ev_ReadFile :: "string \<Rightarrow> string result"
  ev_ParseFloat :: "string \<Rightarrow> rat"
  ev_Redis :: "string \<Rightarrow> 'r budgetClient"
  ev_HTTP :: "'h http_client"
  ev_Now :: "nat \<Rightarrow> time"

fun main_firstNonEmpty :: "string list \<Rightarrow> string" where
  "main_firstNonEmpty [] = []"
| "main_firstNonEmpty (v # vs) = (if v \<noteq> [] then v else main_firstNonEmpty vs)"

definition prompt_file :: "('r, 'h) api_env \<Rightarrow> string \<Rightarrow> string" where
  "prompt_file env path = (case ev_ReadFile env path of Inr raw \<Rightarrow> raw | Inl err \<Rightarrow> [])"

text \<open>
  The model client is never a nil interface: an unconfigured one is a nil pointer inside it, whose
  \<open>Complete\<close> answers with an error.
\<close>

definition buildExplainer :: "('r, 'h) api_env \<Rightarrow> (AIExplanationLogRow \<Rightarrow> 's act) \<Rightarrow> ('r, 's, 'h) Explainer" where
  "buildExplainer env logWriter =
     (let addr = ev_Getenv env ''REDIS_ADDR'';
          redisClient = (if addr \<noteq> [] then Some (ev_Redis env addr) else None);
          capUSD = ev_ParseFloat env (ev_Getenv env ''AI_BUDGET_PER_BATCH_USD'');
          model = ev_Getenv env ''LLM_MODEL''
      in \<lparr>el_LLM = Some (Complete (NewGeminiLLMClient (ev_Getenv env ''GEMINI_API_KEY'') model) (ev_HTTP env)),
          el_Store = Some logWriter, el_Budget = NewBudgetTracker redisClient capUSD,
          el_SystemPrompt = prompt_file env ''internal/ai/prompts/v1/explainer_system.txt'',
          el_PromptVersion = ''v1'', el_ModelName = main_firstNonEmpty [model, ''unknown''], el_MaxTokens = 0,
          el_Timeout = 5 * 1000000000, el_EstCostUSD = 0, el_now = ev_Now env\<rparr>)"

text \<open>The breaker of the explainer, which the agent shares.\<close>

definition api_breaker :: "CircuitBreaker option" where
  "api_breaker = Some (NewCircuitBreaker 3 (30 * 1000000000))"

definition buildQAAgent :: "('r, 'h) api_env \<Rightarrow> 's QAStore \<Rightarrow> ('r, 's, 'h) Explainer \<Rightarrow> ('r, 's, 'h) Agent" where
  "buildQAAgent env qaStore explainer =
     \<lparr>ag_Store = Some qaStore, ag_LLM = el_LLM explainer, ag_Budget = el_Budget explainer,
      ag_SystemPrompt = prompt_file env ''internal/ai/prompts/v1/qa_system.txt'', ag_PromptVersion = ''v1'',
      ag_BudgetKey = [], ag_MaxTokens = 0, ag_Timeout = 5 * 1000000000, ag_EstCostUSD = 0, ag_Now = ev_Now env\<rparr>"

definition mysql_qa :: "MySQLStore \<Rightarrow> db QAStore" where
  "mysql_qa store =
     \<lparr>qs_WhyNotSettled = my_WhyNotSettled store, qs_UnresolvedAmountByReason = my_UnresolvedAmountByReason store,
      qs_WorstMethodsByMatchRate = my_WorstMethodsByMatchRate store\<rparr>"

text \<open>The server that \<^verbatim>\<open>main\<close> starts, without and with a database.\<close>

definition unconfigured_server :: "('r, 's, 'h) Server" where
  "unconfigured_server =
     \<lparr>sv_Exceptions = None, sv_Store = None, sv_Lister = None, sv_Explainer = None, sv_AdHocBatchRunID = [],
      sv_QA = None, sv_Audit = None\<rparr>"

definition api_server :: "('r, 'h) api_env \<Rightarrow> engine \<Rightarrow> ('r, db, 'h) Server" where
  "api_server env e =
     (let mysqlStore = OpenMySQLStore e;
          explainer = buildExplainer env (my_WriteAIExplanationLog mysqlStore)
      in \<lparr>sv_Exceptions = None, sv_Store = Some (my_GetExceptionByID mysqlStore),
          sv_Lister = Some (my_ListUnresolvedExceptions mysqlStore), sv_Explainer = Some explainer,
          sv_AdHocBatchRunID = [], sv_QA = Some (Answer_question (Some (buildQAAgent env (mysql_qa mysqlStore) explainer))),
          sv_Audit = Some (my_LoadAuditEntries mysqlStore)\<rparr>)"

text \<open>
  \<^verbatim>\<open>main\<close> up to the call that serves: the address and the server. A database that cannot be opened ends the
  program, an error of the migrations does not.
\<close>

definition api_main ::
  "('r, 'h) api_env \<Rightarrow> (string \<Rightarrow> dir_entry list result) \<Rightarrow> db migration_client \<Rightarrow> (string \<Rightarrow> time) \<Rightarrow>
   engine result \<Rightarrow> db \<Rightarrow> (string \<times> ('r, db, 'h) Server) result \<times> db" where
  "api_main env readDir client now opened d =
     (let address = (if ev_Getenv env ''API_ADDR'' = [] then '':8080'' else ev_Getenv env ''API_ADDR'')
      in if ev_Getenv env ''DB_DSN'' = [] then (Inr (address, unconfigured_server), d)
         else (case opened of
                 Inl err \<Rightarrow> (Inl (ErrWrap ''open database: '' err []), d)
               | Inr e \<Rightarrow>
                   (let directory = readDir (main_firstNonEmpty [ev_Getenv env ''MIGRATIONS_DIR'', ''migrations'']);
                        d' = snd (ApplyMigrations client now directory d)
                    in (Inr (address, api_server env e), d'))))"

section \<open>Requests\<close>

text \<open>The routes of \<^verbatim>\<open>Routes\<close>, each with what its handler reads of the request.\<close>

datatype request =
    GetHealth
  | GetExceptions string string   \<comment> \<open>the query values \<^verbatim>\<open>limit\<close> and \<^verbatim>\<open>cursor\<close>\<close>
  | PostResolve string            \<comment> \<open>the body\<close>
  | PostExplain string            \<comment> \<open>the path value \<^verbatim>\<open>id\<close>\<close>
  | PostQA string                 \<comment> \<open>the body\<close>
  | PostVerifyChain

fun Routes :: "('r, 's, 'l) Server \<Rightarrow> request \<Rightarrow> ('r, 's, 'l) ai_world \<Rightarrow> response \<times> ('r, 's, 'l) ai_world" where
  "Routes server GetHealth w = (health, w)"
| "Routes server (GetExceptions limit_value cursor_value) w = listExceptions server limit_value cursor_value w"
| "Routes server (PostResolve body) w = (resolveException body, w)"
| "Routes server (PostExplain path_id) w = explainException server path_id w"
| "Routes server (PostQA body) w = askQuestion server body w"
| "Routes server PostVerifyChain w = verifyChain server w"

fun serve_all :: "('r, 's, 'l) Server \<Rightarrow> request list \<Rightarrow> ('r, 's, 'l) ai_world \<Rightarrow> ('r, 's, 'l) ai_world" where
  "serve_all server [] w = w"
| "serve_all server (q # qs) w = serve_all server qs (snd (Routes server q w))"

section \<open>What the interface may change\<close>

text \<open>Only the explanation log differs, and it has only grown.\<close>

definition only_logs :: "db \<Rightarrow> db \<Rightarrow> bool" where
  "only_logs d d' \<longleftrightarrow>
     (\<exists>rows. same_tables (d\<lparr>tb_ai_explanation_log := tb_ai_explanation_log d @ rows\<rparr>) d')"

lemma only_logs_same: "same_tables d d' \<Longrightarrow> only_logs d d'"
  unfolding only_logs_def by (intro exI [of _ "[]"]) simp

lemma only_logs_trans: "only_logs a b \<Longrightarrow> only_logs b c \<Longrightarrow> only_logs a c"
  unfolding only_logs_def by (elim exE same_tablesE) (auto simp: same_tables_def)

named_theorems only_logs_rules \<open>operations that change nothing but the explanation log\<close>

lemma query_only_logs: "query e pre f d = (r, d') \<Longrightarrow> only_logs d d'"
  by (drule query_same) (simp add: only_logs_same)

lemma reads_only_logs [only_logs_rules]:
  "my_ListUnresolvedExceptions store limit cursor d = (r1, d') \<Longrightarrow> only_logs d d'"
  "my_WhyNotSettled store ident d = (r2, d') \<Longrightarrow> only_logs d d'"
  "my_UnresolvedAmountByReason store d = (r3, d') \<Longrightarrow> only_logs d d'"
  "my_WorstMethodsByMatchRate store since n d = (r4, d') \<Longrightarrow> only_logs d d'"
  "my_LoadAuditEntries store d = (r5, d') \<Longrightarrow> only_logs d d'"
  "my_GetExceptionByID store i d = (r6, d') \<Longrightarrow> only_logs d d'"
proof -
  show "my_GetExceptionByID store i d = (r6, d') \<Longrightarrow> only_logs d d'"
    by (auto simp: my_GetExceptionByID_def stmt_def Let_def intro!: only_logs_same split: option.splits)
qed (simp_all add: my_ListUnresolvedExceptions_def my_WhyNotSettled_def my_UnresolvedAmountByReason_def
       my_WorstMethodsByMatchRate_def my_LoadAuditEntries_def Let_def query_only_logs)

lemma log_only_logs: "only_logs d (snd (my_WriteAIExplanationLog store row d))"
proof -
  have "only_logs d (d\<lparr>db_ops := n, tb_ai_explanation_log := tb_ai_explanation_log d @ rows\<rparr>)" for n rows
    unfolding only_logs_def by (intro exI [of _ rows]) (simp add: same_tables_def)
  then show ?thesis
    by (simp add: my_WriteAIExplanationLog_def guarded_exec_def stmt_def json_column_def Let_def only_logs_same
        split: option.splits)
qed

lemma writeLog_only_logs:
  "el_Store el = Some (my_WriteAIExplanationLog store) \<Longrightarrow> only_logs (aw_store w) (aw_store (writeLog el row w))"
  by (simp add: writeLog_def log_only_logs)

lemma Explain_only_logs:
  assumes "el_Store el = Some (my_WriteAIExplanationLog store)" and "Explain el batch exc w = (res, w')"
  shows "only_logs (aw_store w) (aw_store w')"
proof (cases "el_LLM el")
  case None
  then show ?thesis using assms(2) by (auto simp: Explain_def intro: only_logs_same)
next
  case (Some llm)
  from assms(2) Some show ?thesis
  proof (cases rule: Explain_cases)
    case (called r)
    obtain response l where "llm (completion_request el exc) (el_timeout el) (aw_llm w) = (response, l)" by (metis prod.exhaust)
    with call_model_cases(5) [OF called(2), of response l] assms(1) show ?thesis by (auto simp: log_only_logs)
  qed (auto simp: logSkip_def writeLog_def assms(1) log_only_logs intro: only_logs_same)
qed

lemma compose_store:
  assumes "compose agent question intent evidence w = (x, w')"
  shows "aw_store w' = aw_store w"
proof -
  have guarded: "aw_store v' = aw_store v" if "compose_guarded agent llm question intent evidence v = (x, v')" for llm v v'
    using that ask_model_grounded(2) [of agent llm question _ "v\<lparr>aw_tick := aw_tick v + 1\<rparr>"]
    by (cases x) (auto simp: compose_guarded_def Let_def split: if_splits sum.splits)
  show ?thesis
  proof (cases "ag_LLM agent")
    case None
    then show ?thesis using assms by (simp add: compose_def)
  next
    case (Some llm)
    then show ?thesis
      using assms guarded by (auto simp: compose_def split: option.splits prod.splits sum.splits if_splits)
  qed
qed

lemma lookup_only_logs:
  "lookup_rows (mysql_qa store) c d = (r, d') \<Longrightarrow> only_logs d d'"
  by (auto simp: lookup_rows_def mysql_qa_def intro: only_logs_rules only_logs_same
      split: if_splits prod.splits sum.splits)

lemma Answer_only_logs:
  assumes "ag_Store agent = Some (mysql_qa store)" and "Answer_question (Some agent) question w = (r, w')"
  shows "only_logs (aw_store w) (aw_store w')"
proof -
  let ?c = "Classify question (ag_Now agent (aw_tick w))"
  obtain found d where found: "lookup_rows (mysql_qa store) ?c (aw_store w) = (found, d)" by (metis prod.exhaust)
  have "aw_store w' = d"
  proof (cases found)
    case (Inr x)
    then show ?thesis
      using assms found by (cases x) (auto simp: Answer_question_def answer_from_def Let_def dest!: compose_store
          split: prod.splits if_splits)
  qed (use assms found in \<open>auto simp: Answer_question_def Let_def\<close>)
  then show ?thesis using lookup_only_logs [OF found] by simp
qed

text \<open>A server whose every dependency is the given MySQL store.\<close>

definition mysql_backed :: "MySQLStore \<Rightarrow> ('r, db, 'l) Server \<Rightarrow> bool" where
  "mysql_backed store server \<longleftrightarrow>
     sv_Store server \<in> {None, Some (my_GetExceptionByID store)}
     \<and> sv_Lister server \<in> {None, Some (my_ListUnresolvedExceptions store)}
     \<and> sv_Audit server \<in> {None, Some (my_LoadAuditEntries store)}
     \<and> (\<forall>el. sv_Explainer server = Some el \<longrightarrow> el_Store el = Some (my_WriteAIExplanationLog store))
     \<and> (\<forall>qa. sv_QA server = Some qa \<longrightarrow>
          (\<exists>agent. ag_Store agent = Some (mysql_qa store) \<and> qa = Answer_question (Some agent)))"

lemma api_server_backed: "mysql_backed (OpenMySQLStore e) (api_server env e)"
proof -
  have "el_Store (buildExplainer env lw) = Some lw" "ag_Store (buildQAAgent env qa el) = Some qa" for lw qa el
    by (simp_all add: buildExplainer_def buildQAAgent_def Let_def)
  then show ?thesis unfolding mysql_backed_def by (auto simp: api_server_def Let_def)
qed

lemma unconfigured_backed: "mysql_backed store unconfigured_server"
  by (simp add: mysql_backed_def unconfigured_server_def)

lemma handlers_only_log:
  assumes "mysql_backed store server"
  shows "only_logs (aw_store w) (aw_store (snd (listExceptions server limit_value cursor_value w)))"
    and "only_logs (aw_store w) (aw_store (snd (explainException server path_id w)))"
    and "only_logs (aw_store w) (aw_store (snd (askQuestion server body w)))"
    and "only_logs (aw_store w) (aw_store (snd (verifyChain server w)))"
proof -
  have refl: "only_logs d d" for d by (simp add: only_logs_same)
  show "only_logs (aw_store w) (aw_store (snd (listExceptions server limit_value cursor_value w)))"
  proof (cases "sv_Lister server")
    case (Some lister)
    then have "lister = my_ListUnresolvedExceptions store" using assms by (auto simp: mysql_backed_def)
    then show ?thesis using Some
      by (auto simp: listExceptions_def exception_page_def Let_def refl dest: only_logs_rules split: sum.splits prod.splits)
  qed (simp add: listExceptions_def refl)
  show "only_logs (aw_store w) (aw_store (snd (explainException server path_id w)))"
  proof (cases "sv_Store server = None \<or> sv_Explainer server = None")
    case False
    then obtain el where el: "sv_Store server = Some (my_GetExceptionByID store)" "sv_Explainer server = Some el"
      "el_Store el = Some (my_WriteAIExplanationLog store)" using assms by (auto simp: mysql_backed_def)
    show ?thesis
    proof (cases "parse_int64 path_id")
      case (Inr i)
      obtain found d where found: "my_GetExceptionByID store i (aw_store w) = (found, d)" by (metis prod.exhaust)
      then have got: "only_logs (aw_store w) d" by (rule only_logs_rules)
      show ?thesis
      proof (cases found)
        case (Inr rec)
        obtain res w' where run: "Explain el (if sv_AdHocBatchRunID server = [] then ''api:adhoc'' else sv_AdHocBatchRunID server)
            (exception_view rec) (w\<lparr>aw_store := d\<rparr>) = (res, w')" by (metis prod.exhaust)
        then have "only_logs d (aw_store w')" using Explain_only_logs [OF el(3) run] by simp
        then have "only_logs (aw_store w) (aw_store w')" using got only_logs_trans by blast
        then show ?thesis
          using el(1,2) \<open>parse_int64 path_id = Inr i\<close> found Inr run by (simp add: explainException_def Let_def)
      qed (use el(1,2) Inr found got in \<open>simp add: explainException_def\<close>)
    qed (simp add: explainException_def el(1,2) refl)
  qed (auto simp: explainException_def refl split: option.splits)
  show "only_logs (aw_store w) (aw_store (snd (askQuestion server body w)))"
  proof (cases "sv_QA server")
    case (Some qa)
    then obtain agent where "ag_Store agent = Some (mysql_qa store)" "qa = Answer_question (Some agent)"
      using assms by (auto simp: mysql_backed_def)
    then show ?thesis using Some
      by (auto simp: askQuestion_def Let_def refl dest: Answer_only_logs split: sum.splits prod.splits)
  qed (simp add: askQuestion_def refl)
  show "only_logs (aw_store w) (aw_store (snd (verifyChain server w)))"
  proof (cases "sv_Audit server")
    case (Some load)
    then have "load = my_LoadAuditEntries store" using assms by (auto simp: mysql_backed_def)
    then show ?thesis using Some
      by (auto simp: verifyChain_def dest: only_logs_rules split: sum.splits prod.splits option.splits)
  qed (simp add: verifyChain_def refl)
qed

lemma backed_only_logs:
  assumes "mysql_backed store server" shows "only_logs (aw_store w) (aw_store (serve_all server requests w))"
proof -
  have "only_logs (aw_store v) (aw_store (snd (Routes server q v)))" for q v
    using handlers_only_log [OF assms] by (cases q) (simp_all add: only_logs_same)
  then show ?thesis
    by (induction requests arbitrary: w) (auto simp: only_logs_same intro: only_logs_trans)
qed

text \<open>
  C23: the operator interface is read-only: whatever requests arrive in whatever order, and whatever the
  model, Redis and the database do, a server that \<^verbatim>\<open>main\<close> starts leaves every table as it is, except
  the explanation log, which only grows. No request can change a payment, a match, an exception or the
  audit log. The start itself fails only when the database cannot be opened.
\<close>

theorem api_is_read_only:
  "case fst (api_main env readDir client now opened d) of
     Inl err \<Rightarrow> \<exists>cause. opened = Inl cause
   | Inr (address, server) \<Rightarrow> only_logs (aw_store w) (aw_store (serve_all server requests w))"
  using backed_only_logs [OF api_server_backed] backed_only_logs [OF unconfigured_backed]
  by (auto simp: api_main_def Let_def split: sum.splits)

end
