(* ===== verification/Reconctl.thy ===== *)
theory Reconctl
  imports API_Main
begin

text \<open>
  \<^verbatim>\<open>cmd/reconctl/main.go\<close>: the operator's command line check of the audit log, with its own reader of the
  table, and its agreement with the verification endpoint. The outcome of a command is what it prints,
  what it prints to the error stream, and its exit code.
\<close>

section \<open>main.go\<close>

definition ctl_entry :: "(string \<Rightarrow> string option) \<Rightarrow> AuditDB \<Rightarrow> Entry result" where
  "ctl_entry ft r =
     (case json_unmarshal ft (ad_payload_json r) of
        Inl err \<Rightarrow> Inl (ErrWrap ''decode payload_json: '' err [])
      | Inr payload \<Rightarrow>
          Inr \<lparr>en_EventType = ad_event_type r, en_Payload = payload,
               en_PreviousHash = (case ad_previous_hash r of Some h \<Rightarrow> h | None \<Rightarrow> []),
               en_CreatedAt = ad_created_at r, en_RowHash = ad_row_hash r\<rparr>)"

definition ctl_loadAuditEntries :: "engine \<Rightarrow> db \<Rightarrow> Entry list result \<times> db" where
  "ctl_loadAuditEntries e d =
     query e [] (\<lambda>n. map_result (ctl_entry (eg_float e)) (sort_key ad_id (scan_rows e n (tb_audit_log d)))) d"

definition newline :: string where "newline = [CHR 0x0A]"

definition runVerifyChain :: "string \<Rightarrow> engine result \<Rightarrow> db \<Rightarrow> string \<times> go_error option" where
  "runVerifyChain dsn opened d =
     (if dsn = [] then ([], Some (ErrText ''DB_DSN is required''))
      else (case opened of
              Inl err \<Rightarrow> ([], Some (ErrWrap ''open database: '' err []))
            | Inr e \<Rightarrow>
                (case fst (ctl_loadAuditEntries e d) of
                   Inl err \<Rightarrow> ([], Some (ErrWrap ''load audit_log: '' err []))
                 | Inr entries \<Rightarrow>
                     if length entries = 0 then (''verified: true (0 rows)'' @ newline, None)
                     else (case Verify entries of
                             (brokenAt, Some verifyErr) \<Rightarrow>
                               (''verified: false'' @ newline @ ''first_break_at_row: '' @ itoa brokenAt @ newline
                                @ ''detail: '' @ err_text verifyErr @ newline, None)
                           | (brokenAt, None) \<Rightarrow>
                               (''verified: true ('' @ dec_nat (length entries) @ '' rows)'' @ newline, None)))))"

definition reconctl_main :: "string list \<Rightarrow> string \<Rightarrow> engine result \<Rightarrow> db \<Rightarrow> string \<times> string \<times> int" where
  "reconctl_main args dsn opened d =
     (if length args < 2 then (''usage: reconctl verify-chain | help'' @ newline, [], 0)
      else if args ! 1 = ''help'' then (''commands: verify-chain, help'' @ newline, [], 0)
      else if args ! 1 = ''verify-chain'' then
        (case runVerifyChain dsn opened d of
           (out, Some err) \<Rightarrow> (out, ''verify-chain failed: '' @ err_text err @ newline, 1)
         | (out, None) \<Rightarrow> (out, [], 0))
      else ([], ''unknown command: '' @ (args ! 1) @ newline, 2))"

section \<open>Agreement with the endpoint\<close>

lemma entries_agree:
  "(\<exists>err. audit_entries ft rs = Inl err) \<and> (\<exists>err. map_result (ctl_entry ft) rs = Inl err)
   \<or> (\<exists>es. audit_entries ft rs = Inr es \<and> map_result (ctl_entry ft) rs = Inr es)"
proof (induction rs)
  case (Cons r rs)
  then show ?case by (auto simp: audit_entry_def ctl_entry_def split: sum.splits)
qed simp

lemma loads_agree:
  "(\<exists>err. fst (my_LoadAuditEntries (OpenMySQLStore e) d) = Inl err) \<and> (\<exists>err. fst (ctl_loadAuditEntries e d) = Inl err)
   \<or> (\<exists>es. fst (my_LoadAuditEntries (OpenMySQLStore e) d) = Inr es \<and> fst (ctl_loadAuditEntries e d) = Inr es)"
  using entries_agree [of "eg_float e" "sort_key ad_id (scan_rows e (db_ops d) (tb_audit_log d))"]
  by (auto simp: my_LoadAuditEntries_def ctl_loadAuditEntries_def OpenMySQLStore_def query_def Let_def
      split: option.splits sum.splits)

text \<open>
  C26: the command line and the endpoint never disagree about an audit log: on the same database either
  both report that it cannot be read, or both report the same verdict, with the same number of rows
  when it verifies and the same row and cause of the first break when it does not.
\<close>

theorem verification_twins_agree:
  assumes "ev_Getenv env ''DB_DSN'' \<noteq> []"
  shows "case (fst (verifyChain (api_server env e) w), runVerifyChain (ev_Getenv env ''DB_DSN'') (Inr e) (aw_store w)) of
      (answer, out, err) \<Rightarrow>
        answer = json_failure 500 ''failed to read audit log'' \<and> out = [] \<and> err \<noteq> None
        \<or> err = None \<and>
          ((\<exists>n. answer = writeJSON 200 (JObj [(''verified'', JBool True), (''rows_checked'', JInt (int n))])
               \<and> out = ''verified: true ('' @ dec_nat n @ '' rows)'' @ newline)
           \<or> (\<exists>k detail. answer = writeJSON 200 (JObj [(''verified'', JBool False), (''first_break_at_row'', JInt k),
                                                          (''detail'', JStr detail)])
               \<and> out = ''verified: false'' @ newline @ ''first_break_at_row: '' @ itoa k @ newline
                       @ ''detail: '' @ detail @ newline))"
proof -
  have audit: "sv_Audit (api_server env e) = Some (my_LoadAuditEntries (OpenMySQLStore e))"
    using assms by (simp add: api_server_def Let_def)
  obtain x d where load: "my_LoadAuditEntries (OpenMySQLStore e) (aw_store w) = (x, d)" by (metis prod.exhaust)
  show ?thesis
  proof (cases x)
    case (Inl err)
    then obtain err' where "fst (ctl_loadAuditEntries e (aw_store w)) = Inl err'"
      using loads_agree [of e "aw_store w"] load by auto
    then show ?thesis using assms audit load Inl by (simp add: verifyChain_def runVerifyChain_def)
  next
    case (Inr es)
    then have ctl: "fst (ctl_loadAuditEntries e (aw_store w)) = Inr es"
      using loads_agree [of e "aw_store w"] load by auto
    obtain k v where v: "Verify es = (k, v)" by (metis prod.exhaust)
    have "dec_nat 0 = ''0''" by (simp add: dec_nat.simps digit_char_def char_of_def bit_Suc_0_iff)
    moreover have "v = None" if "es = []" using v that by (simp add: Verify_def)
    ultimately show ?thesis
      using assms audit load Inr ctl v
      by (cases v) (auto simp: verifyChain_def runVerifyChain_def newline_def intro: exI [of _ 0])
  qed
qed

definition sample_env :: "(string \<Rightarrow> rat, nat) api_env" where
  "sample_env =
     \<lparr>ev_Getenv = (\<lambda>name. if name = ''DB_DSN'' then ''local'' else []), ev_ReadFile = (\<lambda>path. Inr []),
      ev_ParseFloat = (\<lambda>s. 0), ev_Redis = (\<lambda>addr. counter_client),
      ev_HTTP = \<lparr>ht_NewRequest = (\<lambda>url. None), ht_Do = (\<lambda>url body d h. (Inl (ErrText ''refused''), h))\<rparr>,
      ev_Now = (\<lambda>n. 0)\<rparr>"

theorem verification_twins_agree_witness:
  "\<exists>n. fst (verifyChain (api_server sample_env ideal_engine)
           \<lparr>aw_redis = (\<lambda>_. 0), aw_store = empty_db, aw_llm = 0, aw_breaker = api_breaker, aw_tick = 0\<rparr>)
         = writeJSON 200 (JObj [(''verified'', JBool True), (''rows_checked'', JInt (int n))])"
proof -
  let ?w = "\<lparr>aw_redis = (\<lambda>_. 0), aw_store = empty_db, aw_llm = 0, aw_breaker = api_breaker, aw_tick = 0\<rparr>"
  have dsn: "ev_Getenv sample_env ''DB_DSN'' = ''local''" by (simp add: sample_env_def)
  have "runVerifyChain ''local'' (Inr ideal_engine) empty_db = (''verified: true (0 rows)'' @ newline, None)"
    by (simp add: runVerifyChain_def ctl_loadAuditEntries_def query_def ideal_engine_def scan_rows_def empty_db_def Let_def)
  with verification_twins_agree [of sample_env ideal_engine ?w] dsn show ?thesis by (auto simp: newline_def)
qed

end
