(* ===== verification/Schema.thy ===== *)
theory Schema
  imports Go_Decode
begin

text \<open>
  Package \<^verbatim>\<open>internal/schema\<close>: the card-number screen (\<^verbatim>\<open>pan.go\<close>) and the shape checks of a source payload
  (\<^verbatim>\<open>validate.go\<close>). A payload is its bytes; every rejection is the error the code returns.

  The lemmas characterize the screen: which digit runs the regular expression \<^verbatim>\<open>\d{13,19}\<close> yields, what
  the Luhn loop computes, and that a card number which stands alone, grouped or not, is always found.
\<close>

section \<open>pan.go\<close>

text \<open>
  \<^verbatim>\<open>digitRun.FindAll(s, -1)\<close> for \<^verbatim>\<open>\d{13,19}\<close>: from left to right, every match takes up to 19 digits of a
  run that has at least 13 left.
\<close>

function digit_runs :: "string \<Rightarrow> string list" where
  "digit_runs s =
     (if s = [] then []
      else (let run = takeWhile is_digit s in
            if run = [] then digit_runs (tl s)
            else if length run < 13 then digit_runs (drop (length run) s)
            else take 19 run # digit_runs (drop (min 19 (length run)) s)))"
  by pat_completeness auto
termination
  by (relation "measure length") auto

declare digit_runs.simps [simp del]

definition stripSeparators :: "string \<Rightarrow> string" where
  "stripSeparators raw =
     filter (\<lambda>value. \<not> (value = CHR '' '' \<or> value = CHR ''-'') \<and> \<not> unicode_is_space (byte_of value)) raw"

text \<open>The loop of \<^verbatim>\<open>luhnValid\<close> from the last digit down: \<open>None\<close> is the early return on a byte that is no digit.\<close>

fun luhn_loop :: "bool \<Rightarrow> nat \<Rightarrow> string \<Rightarrow> nat option" where
  "luhn_loop alternate acc [] = Some acc"
| "luhn_loop alternate acc (c # s) =
     (let digit = (byte_of c + 256 - 48) mod 256 in
      if 9 < digit then None
      else (let digit = (if alternate then (if 9 < 2 * digit then 2 * digit - 9 else 2 * digit) else digit)
            in luhn_loop (\<not> alternate) (acc + digit) s))"

definition luhnValid :: "string \<Rightarrow> bool" where
  "luhnValid digits = (case luhn_loop False 0 (rev digits) of None \<Rightarrow> False | Some acc \<Rightarrow> acc mod 10 = 0)"

definition RejectPossiblePAN :: "string \<Rightarrow> go_error option" where
  "RejectPossiblePAN raw =
     (if list_ex luhnValid (digit_runs (stripSeparators raw)) then Some ErrPossiblePANDetected else None)"

section \<open>validate.go\<close>

definition SourceWebhook :: string where "SourceWebhook = ''webhook''"
definition SourceSettlement :: string where "SourceSettlement = ''settlement''"
definition SourceBank :: string where "SourceBank = ''bank''"
definition SourceLedger :: string where "SourceLedger = ''ledger''"

lemmas source_defs = SourceWebhook_def SourceSettlement_def SourceBank_def SourceLedger_def

definition RequiredCSVColumns :: "(string \<times> string list) list" where
  "RequiredCSVColumns =
     [(SourceSettlement, [''settlement_id'', ''entity_id'', ''credit_paise'', ''settled_at'']),
      (SourceBank, [''reference_id'', ''credit_paise'', ''booked_at'']),
      (SourceLedger, [''reference_id'', ''amount_paise'', ''booked_at''])]"

definition RequiredJSONFields :: "(string \<times> string list) list" where
  "RequiredJSONFields =
     [(SourceWebhook, [''payment_id'', ''amount_paise'', ''currency'', ''status'', ''method'', ''captured_at'']),
      (SourceSettlement, [''settlement_id'', ''entity_id'', ''currency'', ''method'']),
      (SourceBank, [''reference_id'', ''credit_paise'', ''booked_at'']),
      (SourceLedger, [''amount_paise'', ''booked_at''])]"

definition looksLikeCSV :: "string \<Rightarrow> bool" where
  "looksLikeCSV raw =
     (case trim_left raw of
        [] \<Rightarrow> False
      | c # r \<Rightarrow> if c = CHR ''{'' \<or> c = CHR ''['' then False else contains (c # r) '','')"

definition requireIntegerPaise :: "string \<Rightarrow> string \<Rightarrow> go_error option" where
  "requireIntegerPaise field raw =
     (case trim_space raw of
        [] \<Rightarrow> Some (ErrText (field @ '' is empty''))
      | c # r \<Rightarrow>
          if c = CHR 0x22 then Some (ErrText (field @ '' must be an integer paise value''))
          else if contains (c # r) ''.'' then Some (ErrText (field @ '' must be an integer paise value''))
          else (case unmarshal_int64 (c # r) of
                  Inl err \<Rightarrow> Some (ErrText (field @ '' must be an integer paise value''))
                | Inr value \<Rightarrow> if value < 0 then Some (ErrText (field @ '' must be >= 0'')) else None))"

definition missing_field :: "string \<Rightarrow> string \<Rightarrow> go_error" where
  "missing_field source field =
     ErrText (''source '' @ go_quote source @ '' missing required field '' @ go_quote field)"

text \<open>The first error of a loop over fields.\<close>

fun first_error :: "('a \<Rightarrow> go_error option) \<Rightarrow> 'a list \<Rightarrow> go_error option" where
  "first_error f [] = None"
| "first_error f (x # xs) = (case f x of Some err \<Rightarrow> Some err | None \<Rightarrow> first_error f xs)"

lemma first_error_None_iff: "first_error f xs = None \<longleftrightarrow> (\<forall>x \<in> set xs. f x = None)"
  by (induction xs) (auto split: option.splits)

lemma first_error_cong: "(\<And>x. x \<in> set xs \<Longrightarrow> f x = g x) \<Longrightarrow> first_error f xs = first_error g xs"
  by (induction xs) (auto split: option.splits)

definition amount_fields :: "string list" where
  "amount_fields =
     [''amount_paise'', ''credit_paise'', ''debit_paise'', ''fee'', ''tax'', ''credit'', ''debit'', ''amount'']"

definition check_reference :: "string \<Rightarrow> raw_object \<Rightarrow> go_error option" where
  "check_reference source object =
     (if source = SourceLedger \<and> map_of object ''reference'' = None \<and> map_of object ''reference_id'' = None
      then Some (missing_field source ''reference'') else None)"

definition check_required :: "string \<Rightarrow> string list \<Rightarrow> raw_object \<Rightarrow> go_error option" where
  "check_required source required object =
     first_error (\<lambda>field. if field = ''currency'' then None
                          else if map_of object field = None then Some (missing_field source field) else None) required"

definition check_currency :: "string \<Rightarrow> raw_object \<Rightarrow> go_error option" where
  "check_currency source object =
     (case map_of object ''currency'' of
        Some raw \<Rightarrow>
          (case unmarshal_string raw of
             Inl err \<Rightarrow> Some (ErrText ''currency must be a string'')
           | Inr currency \<Rightarrow>
               if \<not> equal_fold currency ''INR''
               then Some (ErrText (''currency '' @ go_quote currency @ '' is outside INR-only v1 scope'')) else None)
      | None \<Rightarrow>
          if source = SourceWebhook \<or> source = SourceSettlement then Some (missing_field source ''currency'') else None)"

definition check_amounts :: "raw_object \<Rightarrow> go_error option" where
  "check_amounts object =
     first_error (\<lambda>field. case map_of object field of None \<Rightarrow> None | Some raw \<Rightarrow> requireIntegerPaise field raw) amount_fields"

definition validateJSONObject :: "string \<Rightarrow> string list \<Rightarrow> raw_object \<Rightarrow> go_error option" where
  "validateJSONObject source required object =
     first_error (\<lambda>check. check)
       [check_reference source object, check_required source required object,
        check_currency source object, check_amounts object]"

fun validate_objects :: "nat \<Rightarrow> string \<Rightarrow> string list \<Rightarrow> raw_object list \<Rightarrow> go_error option" where
  "validate_objects index source required [] = None"
| "validate_objects index source required (object # objects) =
     (case validateJSONObject source required object of
        Some err \<Rightarrow> Some (ErrWrap (''record '' @ dec_nat index @ '': '') err [])
      | None \<Rightarrow> validate_objects (Suc index) source required objects)"

definition unsupported_source :: "string \<Rightarrow> go_error" where
  "unsupported_source source = ErrWrap [] ErrUnsupportedSource ('': '' @ source)"

definition validateJSON :: "string \<Rightarrow> string \<Rightarrow> go_error option" where
  "validateJSON source raw =
     (case map_of RequiredJSONFields source of
        None \<Rightarrow> Some (unsupported_source source)
      | Some required \<Rightarrow>
          (let trimmed = trim_space raw; q = ''source '' @ go_quote source in
           case trimmed of
             [] \<Rightarrow> Some (ErrText (q @ '' payload is empty''))
           | c # r \<Rightarrow>
               if c = CHR ''{'' then
                 (case unmarshal_raw_object trimmed of
                    Inl err \<Rightarrow> Some (ErrWrap (q @ '' invalid json: '') err [])
                  | Inr object \<Rightarrow> validate_objects 0 source required [object])
               else if c = CHR ''['' then
                 (case unmarshal_raw_objects trimmed of
                    Inl err \<Rightarrow> Some (ErrWrap (q @ '' invalid json array: '') err [])
                  | Inr objects \<Rightarrow>
                      if length objects = 0 then Some (ErrText (q @ '' json array is empty''))
                      else validate_objects 0 source required objects)
               else Some (ErrText (q @ '' payload must be json object, json array, or csv''))))"

fun check_widths :: "nat \<Rightarrow> nat \<Rightarrow> string list list \<Rightarrow> go_error option" where
  "check_widths width line [] = None"
| "check_widths width line (row # rows) =
     (if length row \<noteq> width
      then Some (ErrText (''row '' @ dec_nat line @ '' has '' @ dec_nat (length row) @ '' fields, expected '' @ dec_nat width))
      else check_widths width (Suc line) rows)"

definition ValidateCSV :: "string \<Rightarrow> string \<Rightarrow> go_error option" where
  "ValidateCSV source raw =
     (case map_of RequiredCSVColumns source of
        None \<Rightarrow> Some (unsupported_source source)
      | Some required \<Rightarrow>
          (case csv_read_all raw of
             Inl err \<Rightarrow> Some (ErrWrap ''read csv: '' err [])
           | Inr rows \<Rightarrow>
               if length rows < 2 then Some (ErrText (''source '' @ go_quote source @ '' requires a header and data row''))
               else (let columns = map trim_space (hd rows) in
                     case first_error (\<lambda>column. if column \<notin> set columns
                            then Some (ErrText (''source '' @ go_quote source @ '' missing required column '' @ go_quote column))
                            else None) required of
                       Some err \<Rightarrow> Some err
                     | None \<Rightarrow> check_widths (length (hd rows)) 2 (tl rows))))"

definition Validate :: "string \<Rightarrow> string \<Rightarrow> go_error option" where
  "Validate source raw =
     (let source = to_lower (trim_space source) in
      case RejectPossiblePAN raw of
        Some err \<Rightarrow> Some err
      | None \<Rightarrow> if looksLikeCSV raw then ValidateCSV source raw else validateJSON source raw)"

section \<open>The Luhn loop and the digit runs\<close>

definition digit_val :: "char \<Rightarrow> nat" where
  "digit_val c = byte_of c - 48"

text \<open>The reference: every second digit from the right is doubled and replaced by its digit sum.\<close>

definition luhn_weight :: "nat \<Rightarrow> nat \<Rightarrow> nat" where
  "luhn_weight i d = (if even i then d else 2 * d div 10 + 2 * d mod 10)"

definition luhn_sum :: "string \<Rightarrow> nat" where
  "luhn_sum ds = (\<Sum>i < length ds. luhn_weight i (digit_val (rev ds ! i)))"

lemma digit_byte: "is_digit c \<Longrightarrow> (byte_of c + 256 - 48) mod 256 = digit_val c \<and> digit_val c \<le> 9"
proof -
  assume "is_digit c"
  then obtain k where "byte_of c = 48 + k" "k \<le> 9"
    using le_Suc_ex [of 48 "byte_of c"] by (auto simp: is_digit_def)
  then show ?thesis by (simp add: digit_val_def)
qed

lemma digit_cases: "d \<le> (9::nat) \<Longrightarrow> d \<in> {0, 1, 2, 3, 4, 5, 6, 7, 8, 9}"
  by fastforce

lemma doubled_digit: "d \<le> 9 \<Longrightarrow> (if 9 < 2 * d then 2 * d - 9 else 2 * d) = 2 * d div 10 + 2 * d mod (10::nat)"
  using digit_cases [of d] by auto

lemma luhn_loop_sum:
  assumes "list_all is_digit ds"
  shows "luhn_loop alt a ds
       = Some (a + (\<Sum>i < length ds. luhn_weight (if alt then Suc i else i) (digit_val (ds ! i))))"
  using assms
proof (induction ds arbitrary: alt a)
  case (Cons c ds)
  then have c: "(byte_of c + 256 - 48) mod 256 = digit_val c" "digit_val c \<le> 9"
    using digit_byte by auto
  have head: "luhn_loop alt a (c # ds) = luhn_loop (\<not> alt) (a + luhn_weight (if alt then Suc 0 else 0) (digit_val c)) ds"
    using c doubled_digit [OF c(2)] by (simp add: Let_def luhn_weight_def)
  have tail: "luhn_weight (if \<not> alt then Suc i else i) x = luhn_weight (if alt then Suc (Suc i) else Suc i) x" for i x
    by (simp add: luhn_weight_def)
  show ?case
    unfolding head using Cons tail
    by (simp add: sum.lessThan_Suc_shift del: luhn_loop.simps sum.lessThan_Suc)
qed simp

lemma luhnValid_iff: "list_all is_digit ds \<Longrightarrow> luhnValid ds \<longleftrightarrow> luhn_sum ds mod 10 = 0"
  using luhn_loop_sum [of "rev ds" False 0] by (simp add: luhnValid_def luhn_sum_def)

lemma digit_runs_skip:
  assumes "s = [] \<or> \<not> is_digit (last s)"
  shows "set (digit_runs t) \<subseteq> set (digit_runs (s @ t))"
  using assms
proof (induction s rule: digit_runs.induct)
  case (1 s)
  show ?case
  proof (cases "s = []")
    case False
    let ?run = "takeWhile is_digit s"
    have last: "\<not> is_digit (last s)" using 1(4) False by simp
    have same: "takeWhile is_digit (s @ t) = ?run"
      using last False by (simp add: takeWhile_append) (metis last_in_set)
    have ok: "drop k s = [] \<or> \<not> is_digit (last (drop k s))" for k
      using last by (cases "k < length s") simp_all
    have short: "length ?run \<le> length s" by (rule length_takeWhile_le)
    consider "?run = []" | "?run \<noteq> []" "length ?run < 13" | "13 \<le> length ?run"
      by linarith
    then show ?thesis
    proof cases
      case 1
      then have "digit_runs (s @ t) = digit_runs (tl s @ t)"
        using False same by (subst digit_runs.simps) simp
      moreover have "tl s = [] \<or> \<not> is_digit (last (tl s))" using ok [of 1] by (simp add: drop_Suc)
      ultimately show ?thesis using "1.IH"(1) [OF False refl 1] by simp
    next
      case 2
      then have "digit_runs (s @ t) = digit_runs (drop (length ?run) s @ t)"
        using False same short by (subst digit_runs.simps) simp
      then show ?thesis using "1.IH"(2) [OF False refl 2 ok] by simp
    next
      case 3
      then have "digit_runs (s @ t) = take 19 ?run # digit_runs (drop (min 19 (length ?run)) s @ t)"
        using False same short by (subst digit_runs.simps) (auto simp: Let_def min_def)
      moreover have "?run \<noteq> []" "\<not> length ?run < 13" using 3 by auto
      ultimately show ?thesis using "1.IH"(3) [OF False refl _ _ ok] by auto
    qed
  qed simp
qed

lemma digit_runs_lone:
  assumes "list_all is_digit ds" and "13 \<le> length ds" and "length ds \<le> 19"
    and "a = [] \<or> \<not> is_digit (last a)" and "b = [] \<or> \<not> is_digit (hd b)"
  shows "ds \<in> set (digit_runs (a @ ds @ b))"
proof -
  have "takeWhile is_digit (ds @ b) = ds"
    using assms(1,5) by (cases b) (auto simp: takeWhile_append list_all_iff)
  moreover have "ds @ b \<noteq> []" using assms(2) by auto
  ultimately have "ds \<in> set (digit_runs (ds @ b))"
    using assms(2,3) by (subst digit_runs.simps) auto
  then show ?thesis using digit_runs_skip [OF assms(4)] by blast
qed

lemma stripSeparators_append [simp]: "stripSeparators (s @ t) = stripSeparators s @ stripSeparators t"
  by (simp add: stripSeparators_def)

lemma stripSeparators_digits: "list_all is_digit ds \<Longrightarrow> stripSeparators ds = ds"
  by (induction ds) (auto simp: stripSeparators_def is_digit_def unicode_is_space_def in_range_def)

lemma luhn_sum_Nil [simp]: "luhn_sum [] = 0"
  by (simp add: luhn_sum_def)

lemma luhn_sum_Cons: "luhn_sum (d # ds) = luhn_sum ds + luhn_weight (length ds) (digit_val d)"
  by (simp add: luhn_sum_def nth_append)

lemma luhn_weight_nonzero: "0 < d \<Longrightarrow> d \<le> 9 \<Longrightarrow> luhn_weight i d \<in> {1 .. 9}"
  using digit_cases [of d] by (auto simp: luhn_weight_def)

text \<open>Payloads with few digits pass the screen, and decimal numbers are amounts.\<close>

lemma requireIntegerPaise_dec_nat: "is_int64 (int n) \<Longrightarrow> requireIntegerPaise field (dec_nat n) = None"
proof -
  assume n: "is_int64 (int n)"
  have digit: "byte_of c < 128 \<and> \<not> unicode_is_space (byte_of c)" if "c \<in> set (dec_nat n)" for c
    using that dec_nat_digits [of n] by (auto simp: list_all_iff is_digit_def unicode_is_space_def in_range_def)
  then have "trim_space (dec_nat n) = dec_nat n" by (intro trim_space_solid) simp_all
  moreover obtain c s where cs: "dec_nat n = c # s" "is_digit c" using dec_nat_first by blast
  moreover have "c \<noteq> CHR 0x22" using cs(2) by (auto simp: is_digit_def)
  moreover have "\<not> contains (dec_nat n) ''.''"
    using dec_nat_digits [of n] by (auto simp: contains_iff list_all_iff is_digit_def)
  ultimately show ?thesis
    using unmarshal_solid(2) [OF n] by (simp add: requireIntegerPaise_def)
qed

lemma digit_runs_few: "length (filter is_digit s) < 13 \<Longrightarrow> digit_runs s = []"
proof (induction s rule: digit_runs.induct)
  case (1 s)
  show ?case
  proof (cases "s = []")
    case False
    have run: "length (takeWhile is_digit s) \<le> length (filter is_digit s)"
      by (metis filter_True filter_append length_append le_add1 set_takeWhileD takeWhile_dropWhile_id)
    have "length (filter is_digit (drop k s)) \<le> length (filter is_digit s)" for k
      by (metis append_take_drop_id filter_append length_append le_add2)
    then have less: "length (filter is_digit (drop k s)) < 13" for k using 1(4) le_less_trans by blast
    show ?thesis
      using False run 1(1,2) 1(4) less less [of 1] by (subst digit_runs.simps) (auto simp: Let_def drop_Suc)
  qed (simp add: digit_runs.simps)
qed

lemma few_digits_no_PAN: "length (filter is_digit s) < 13 \<Longrightarrow> RejectPossiblePAN s = None"
proof -
  have "filter is_digit (stripSeparators s) = stripSeparators (filter is_digit s)"
    by (induction s) (simp_all add: stripSeparators_def)
  moreover have "length (stripSeparators x) \<le> length x" for x
    unfolding stripSeparators_def by (rule length_filter_le)
  ultimately have "length (filter is_digit (stripSeparators s)) \<le> length (filter is_digit s)" by metis
  then show "length (filter is_digit s) < 13 \<Longrightarrow> RejectPossiblePAN s = None"
    using digit_runs_few [of "stripSeparators s"] by (simp add: RejectPossiblePAN_def)
qed

section \<open>Properties of the screen\<close>

text \<open>
  C22: a card number that stands alone is rejected: a payload that contains 13 to 19 digits with a
  correct Luhn sum, however they are grouped by spaces, hyphens and line breaks, and with no further
  digit next to them, fails validation with the card-number error, for every source name.
\<close>

theorem lone_card_number_rejected:
  assumes "stripSeparators number = ds" and "list_all is_digit ds" and "13 \<le> length ds" and "length ds \<le> 19"
    and "(\<Sum>i < length ds. luhn_weight i (digit_val (rev ds ! i))) mod 10 = 0"
    and "stripSeparators before = [] \<or> \<not> is_digit (last (stripSeparators before))"
    and "stripSeparators after = [] \<or> \<not> is_digit (hd (stripSeparators after))"
  shows "Validate source (before @ number @ after) = Some ErrPossiblePANDetected"
proof -
  have "luhnValid ds" using assms(2,5) by (simp add: luhnValid_iff luhn_sum_def)
  moreover have "ds \<in> set (digit_runs (stripSeparators (before @ number @ after)))"
    using digit_runs_lone [OF assms(2-4,6,7)] assms(1) by simp
  ultimately have "RejectPossiblePAN (before @ number @ after) = Some ErrPossiblePANDetected"
    by (auto simp: RejectPossiblePAN_def list_ex_iff)
  then show ?thesis by (simp add: Validate_def Let_def)
qed

theorem lone_card_number_rejected_witness:
  "Validate ''ledger'' (''{n: '' @ ''4111-1111 1111-1111'' @ ''}'') = Some ErrPossiblePANDetected"
proof (rule lone_card_number_rejected)
  show "stripSeparators ''4111-1111 1111-1111'' = ''4111111111111111''"
    by (simp add: stripSeparators_def unicode_is_space_def in_range_def)
  show "(\<Sum>i < length ''4111111111111111''. luhn_weight i (digit_val (rev ''4111111111111111'' ! i))) mod 10 = 0"
    by (simp only: luhn_sum_def [symmetric]) (simp add: luhn_sum_Cons luhn_weight_def digit_val_def)
qed (simp_all add: is_digit_def stripSeparators_def unicode_is_space_def in_range_def)

text \<open>
  One further digit hides a card number: for every Luhn-valid number of 12 to 18 digits preceded by
  a nonzero digit and any white space (a line break, for instance, after another number), the screen
  finds nothing, since separators are removed first and only the whole run is checked.
\<close>

theorem adjacent_digit_hides_card_number:
  assumes "list_all is_digit ds" and "12 \<le> length ds" and "length ds \<le> 18" and "luhnValid ds"
    and "is_digit d" and "d \<noteq> CHR ''0''" and "stripSeparators gap = []"
  shows "RejectPossiblePAN (d # gap @ ds) = None"
proof -
  have digits: "list_all is_digit (d # ds)" using assms(1,5) by simp
  have strip: "stripSeparators (d # gap @ ds) = d # ds"
    using stripSeparators_append [of "[d]" "gap @ ds"] stripSeparators_digits [of "[d]"]
      stripSeparators_digits [OF assms(1)] assms(5,7) by simp
  have "takeWhile is_digit (d # ds) = d # ds" using digits by (simp add: list_all_iff takeWhile_eq_all_conv)
  then have runs: "digit_runs (d # ds) = [d # ds]"
    using assms(2,3) by (subst digit_runs.simps) (simp add: digit_runs.simps)
  have "byte_of d \<noteq> byte_of (CHR ''0'')" using assms(6) by (simp only: of_char_eq_iff not_False_eq_True)
  then have zero: "byte_of d \<noteq> 48" by simp
  have "0 < digit_val d" "digit_val d \<le> 9"
    using zero assms(5) digit_byte [OF assms(5)] by (auto simp: is_digit_def digit_val_def)
  then have "luhn_weight (length ds) (digit_val d) \<in> {1 .. 9}" by (rule luhn_weight_nonzero)
  moreover have "luhn_sum ds mod 10 = 0" using assms(1,4) by (simp add: luhnValid_iff)
  ultimately have "luhn_sum (d # ds) mod 10 \<noteq> 0"
    unfolding luhn_sum_Cons by (subst mod_add_left_eq [symmetric]) auto
  then have "\<not> luhnValid (d # ds)" using digits by (simp add: luhnValid_iff)
  then show ?thesis by (simp add: RejectPossiblePAN_def strip runs)
qed

theorem adjacent_digit_hides_card_number_witness:
  "RejectPossiblePAN (CHR ''7'' # [CHR 0x0A] @ ''4111111111111111'') = None"
proof (rule adjacent_digit_hides_card_number)
  have "luhn_sum ''4111111111111111'' mod 10 = 0"
    by (simp add: luhn_sum_Cons luhn_weight_def digit_val_def)
  then show "luhnValid ''4111111111111111''"
    by (subst luhnValid_iff) (simp_all add: is_digit_def)
qed (simp_all add: is_digit_def stripSeparators_def unicode_is_space_def in_range_def)

end
