(* ===== verification/Ingest_Parse.thy ===== *)
theory Ingest_Parse
  imports Schema Store_Rows
begin

text \<open>
  \<^verbatim>\<open>internal/ingestion/parse.go\<close>: from a validated payload to the records that are persisted. JSON objects
  and CSV rows both become maps of raw JSON values, and one function per source builds the normalized
  row. The pointer fields of \<^verbatim>\<open>Record\<close> are options.
\<close>

section \<open>parse.go\<close>

record Record =
  rc_Source :: string
  rc_ExternalID :: string
  rc_EventType :: string
  rc_IdempotencyKey :: string
  rc_Payload :: string
  rc_Payment :: "PaymentRow option"
  rc_Settlement :: "SettlementRow option"
  rc_Bank :: "BankRow option"
  rc_Ledger :: "LedgerRow option"

text \<open>\<^verbatim>\<open>IdempotencyKey\<close> of \<^verbatim>\<open>idempotency.go\<close>.\<close>

definition IdempotencyKey :: "string \<Rightarrow> string \<Rightarrow> string \<Rightarrow> string" where
  "IdempotencyKey source externalID eventType = source @ '':'' @ externalID @ '':'' @ eventType"

subsection \<open>Fields of a raw object\<close>

definition stringField :: "raw_object \<Rightarrow> string \<Rightarrow> string" where
  "stringField object name =
     (case map_of object name of
        None \<Rightarrow> []
      | Some raw \<Rightarrow> (case unmarshal_string raw of Inr value \<Rightarrow> value | Inl err \<Rightarrow> trim_byte (CHR 0x22) raw))"

definition intField :: "raw_object \<Rightarrow> string \<Rightarrow> int result" where
  "intField object name =
     (case map_of object name of
        None \<Rightarrow> Inl (ErrText (''missing '' @ name))
      | Some raw \<Rightarrow> (case unmarshal_int64 raw of Inl err \<Rightarrow> Inl (ErrText (''invalid '' @ name)) | Inr value \<Rightarrow> Inr value))"

definition intFieldDefault :: "raw_object \<Rightarrow> string \<Rightarrow> int \<Rightarrow> int" where
  "intFieldDefault object name fallback = (case intField object name of Inl err \<Rightarrow> fallback | Inr value \<Rightarrow> value)"

definition timeField :: "raw_object \<Rightarrow> string \<Rightarrow> time option result" where
  "timeField object name =
     (case map_of object name of
        None \<Rightarrow> Inr None
      | Some raw \<Rightarrow>
          (case unmarshal_string raw of
             Inr asString \<Rightarrow>
               (case parse_rfc3339 asString of
                  None \<Rightarrow> Inl (ErrText (''invalid '' @ name))
                | Some parsed \<Rightarrow> Inr (Some parsed))
           | Inl err \<Rightarrow>
               (case unmarshal_int64 raw of
                  Inl err \<Rightarrow> Inl (ErrText (''invalid '' @ name))
                | Inr asUnix \<Rightarrow> Inr (Some (time_unix asUnix)))))"

definition jsonStringOrNumber :: "string \<Rightarrow> string" where
  "jsonStringOrNumber value =
     (case parse_int64 (trim_space value) of Inr n \<Rightarrow> trim_space value | Inl err \<Rightarrow> json_string value)"

fun firstNonEmpty :: "string list \<Rightarrow> string" where
  "firstNonEmpty [] = []"
| "firstNonEmpty (value # vs) = (if trim_space value \<noteq> [] then value else firstNonEmpty vs)"

subsection \<open>One record per source\<close>

definition webhookRecord :: "raw_object \<Rightarrow> string \<Rightarrow> Record result" where
  "webhookRecord object payload =
     (let paymentID = stringField object ''payment_id''; status = stringField object ''status'' in
      case timeField object ''captured_at'' of
        Inl err \<Rightarrow> Inl err
      | Inr capturedAt \<Rightarrow>
          (case intField object ''amount_paise'' of
             Inl err \<Rightarrow> Inl err
           | Inr amount \<Rightarrow>
               (let eventType = ''payment.'' @ status;
                    row = \<lparr>pr_PaymentID = paymentID, pr_OrderID = stringField object ''order_id'',
                           pr_AmountPaise = amount, pr_FeePaise = intFieldDefault object ''fee_paise'' 0,
                           pr_TaxPaise = intFieldDefault object ''tax_paise'' 0,
                           pr_Currency = stringField object ''currency'',
                           pr_Method = stringField object ''method'', pr_Status = status,
                           pr_CapturedAt = capturedAt,
                           pr_SourceEventAt = (case capturedAt of None \<Rightarrow> zero_time | Some t \<Rightarrow> t)\<rparr>
                in Inr \<lparr>rc_Source = SourceWebhook, rc_ExternalID = paymentID, rc_EventType = eventType,
                        rc_IdempotencyKey = IdempotencyKey SourceWebhook paymentID eventType,
                        rc_Payload = payload, rc_Payment = Some row, rc_Settlement = None,
                        rc_Bank = None, rc_Ledger = None\<rparr>)))"

definition settlement_line_type :: "raw_object \<Rightarrow> string" where
  "settlement_line_type object =
     (let lineType = stringField object ''type'';
          lineType = (if lineType = [] then stringField object ''line_type'' else lineType)
      in if lineType = [] then ''payment'' else lineType)"

definition settlementRecord :: "raw_object \<Rightarrow> string \<Rightarrow> Record result" where
  "settlementRecord object payload =
     (let settlementID = stringField object ''settlement_id''; entityID = stringField object ''entity_id'';
          lineType = settlement_line_type object;
          credit = intFieldDefault object ''credit_paise'' (intFieldDefault object ''credit'' 0) in
      case timeField object ''settled_at'' of
        Inl err \<Rightarrow> Inl err
      | Inr None \<Rightarrow> Inl (ErrText ''settled_at is required'')
      | Inr (Some settledAt) \<Rightarrow>
          (let row = \<lparr>sr_SettlementID = settlementID, sr_EntityID = entityID, sr_LineType = lineType,
                      sr_PaymentMethod = firstNonEmpty [stringField object ''method'', stringField object ''payment_method''],
                      sr_CreditPaise = credit,
                      sr_DebitPaise = intFieldDefault object ''debit_paise'' (intFieldDefault object ''debit'' 0),
                      sr_FeePaise = intFieldDefault object ''fee_paise'' (intFieldDefault object ''fee'' 0),
                      sr_TaxPaise = intFieldDefault object ''tax_paise'' (intFieldDefault object ''tax'' 0),
                      sr_SettledAt = settledAt\<rparr>
           in Inr \<lparr>rc_Source = SourceSettlement, rc_ExternalID = settlementID @ '':'' @ entityID,
                   rc_EventType = ''settlement.line'',
                   rc_IdempotencyKey = IdempotencyKey SourceSettlement (settlementID @ '':'' @ entityID) ''settlement.line'',
                   rc_Payload = payload, rc_Payment = None, rc_Settlement = Some row,
                   rc_Bank = None, rc_Ledger = None\<rparr>))"

text \<open>A time that is missing or does not parse is reported the same way.\<close>

definition bookedAt_of :: "raw_object \<Rightarrow> time result" where
  "bookedAt_of object =
     (case timeField object ''booked_at'' of
        Inr (Some bookedAt) \<Rightarrow> Inr bookedAt
      | _ \<Rightarrow> Inl (ErrText ''booked_at is required''))"

definition bankRecord :: "raw_object \<Rightarrow> string \<Rightarrow> Record result" where
  "bankRecord object payload =
     (let reference = firstNonEmpty [stringField object ''reference_id'', stringField object ''reference''];
          credit = (case intField object ''credit_paise'' of
                      Inl err \<Rightarrow> intFieldDefault object ''credit'' 0 | Inr credit \<Rightarrow> credit) in
      case bookedAt_of object of
        Inl err \<Rightarrow> Inl err
      | Inr bookedAt \<Rightarrow>
          Inr \<lparr>rc_Source = SourceBank, rc_ExternalID = reference, rc_EventType = ''bank.line'',
               rc_IdempotencyKey = IdempotencyKey SourceBank reference ''bank.line'',
               rc_Payload = payload, rc_Payment = None, rc_Settlement = None,
               rc_Bank = Some \<lparr>br_ReferenceID = reference, br_CreditPaise = credit, br_BookedAt = bookedAt\<rparr>,
               rc_Ledger = None\<rparr>)"

definition ledgerRecord :: "raw_object \<Rightarrow> string \<Rightarrow> Record result" where
  "ledgerRecord object payload =
     (let reference = firstNonEmpty [stringField object ''reference_id'', stringField object ''reference''] in
      case intField object ''amount_paise'' of
        Inl err \<Rightarrow> Inl err
      | Inr amount \<Rightarrow>
          (case bookedAt_of object of
             Inl err \<Rightarrow> Inl err
           | Inr bookedAt \<Rightarrow>
               Inr \<lparr>rc_Source = SourceLedger, rc_ExternalID = reference, rc_EventType = ''ledger.line'',
                    rc_IdempotencyKey = IdempotencyKey SourceLedger reference ''ledger.line'',
                    rc_Payload = payload, rc_Payment = None, rc_Settlement = None, rc_Bank = None,
                    rc_Ledger = Some \<lparr>lr_ReferenceID = reference, lr_AmountPaise = amount, lr_BookedAt = bookedAt\<rparr>\<rparr>))"

definition recordFromObject :: "string \<Rightarrow> raw_object \<Rightarrow> Record result" where
  "recordFromObject source object =
     (case marshal_raw_object object of
        Inl err \<Rightarrow> Inl err
      | Inr payload \<Rightarrow>
          if source = SourceWebhook then webhookRecord object payload
          else if source = SourceSettlement then settlementRecord object payload
          else if source = SourceBank then bankRecord object payload
          else if source = SourceLedger then ledgerRecord object payload
          else Inl (ErrText (''unsupported source '' @ go_quote source)))"

subsection \<open>Whole payloads\<close>

text \<open>The objects of a JSON payload; an empty payload, which Go would index out of range, has been refused before.\<close>

definition json_objects :: "string \<Rightarrow> raw_object list result" where
  "json_objects raw =
     (if raw \<noteq> [] \<and> hd raw = CHR ''{''
      then (case unmarshal_raw_object raw of Inl err \<Rightarrow> Inl err | Inr object \<Rightarrow> Inr [object])
      else unmarshal_raw_objects raw)"

definition parseJSON :: "string \<Rightarrow> string \<Rightarrow> Record list result" where
  "parseJSON source raw =
     (case json_objects raw of Inl err \<Rightarrow> Inl err | Inr objects \<Rightarrow> map_result (recordFromObject source) objects)"

text \<open>A CSV row as an object: under a repeated column name the last cell counts.\<close>

definition csv_object :: "string list \<Rightarrow> string list \<Rightarrow> raw_object" where
  "csv_object names row = last_wins (zip (map trim_space names) (map jsonStringOrNumber row))"

definition parseCSV :: "string \<Rightarrow> string \<Rightarrow> Record list result" where
  "parseCSV source raw =
     (case csv_read_all raw of
        Inl err \<Rightarrow> Inl err
      | Inr rows \<Rightarrow> map_result (\<lambda>row. recordFromObject source (csv_object (hd rows) row)) (tl rows))"

definition Parse :: "string \<Rightarrow> string \<Rightarrow> Record list result" where
  "Parse source raw =
     (case Validate source raw of
        Some err \<Rightarrow> Inl err
      | None \<Rightarrow>
          (let trimmed = trim_space raw in
           if trimmed \<noteq> [] \<and> hd trimmed \<noteq> CHR ''{'' \<and> hd trimmed \<noteq> CHR ''['' then parseCSV source raw
           else parseJSON source trimmed))"

end
