(* ===== verification/Ingest_Pipeline.thy ===== *)
theory Ingest_Pipeline
  imports Ingest_Parse Go_Crypto
begin

text \<open>
  The ingestion pipeline: signatures and keys (\<^verbatim>\<open>idempotency.go\<close>), the duplicate caches (\<^verbatim>\<open>cache.go\<close>), the
  pipeline itself (\<^verbatim>\<open>pipeline.go\<close>), the webhook endpoint (\<^verbatim>\<open>http.go\<close>) and the queue consumer
  (\<^verbatim>\<open>ProcessQueue\<close> of \<^verbatim>\<open>worker.go\<close>, \<^verbatim>\<open>sourceFromPath\<close> and \<^verbatim>\<open>QueueMessage\<close> of \<^verbatim>\<open>sources.go\<close>).

  The pipeline calls its store through \<open>IngestStore\<close>, its cache through \<open>DuplicateCache\<close> and, when the store
  can write audit entries, an auditor. The clock is indexed by a counter of readings. Redis, the queue
  and the object store are outside the repository: they are records of operations on a state of theirs.
\<close>

section \<open>idempotency.go\<close>

definition VerifyHMAC :: "string \<Rightarrow> string \<Rightarrow> string \<Rightarrow> bool" where
  "VerifyHMAC body signatureHex secret =
     (if secret = [] \<or> signatureHex = [] then False
      else (case hex_decode signatureHex of
              Inl err \<Rightarrow> False
            | Inr expected \<Rightarrow> hmac_sha256 (map of_char secret) (map of_char body) = expected))"

section \<open>cache.go\<close>

record 'c DuplicateCache =
  dc_Seen :: "string \<Rightarrow> 'c \<Rightarrow> bool result \<times> 'c"
  dc_Mark :: "string \<Rightarrow> 'c act"

text \<open>The items of the in-process cache are its state.\<close>

type_synonym MemoryCache = "string set"

definition NewMemoryCache :: MemoryCache where
  "NewMemoryCache = {}"

definition memory_Seen :: "string \<Rightarrow> MemoryCache \<Rightarrow> bool result \<times> MemoryCache" where
  "memory_Seen key items = (Inr (key \<in> items), items)"

definition memory_Mark :: "string \<Rightarrow> MemoryCache act" where
  "memory_Mark key items = (None, insert key items)"

definition memory_cache :: "MemoryCache DuplicateCache" where
  "memory_cache = \<lparr>dc_Seen = memory_Seen, dc_Mark = memory_Mark\<rparr>"

definition noop_Seen :: "string \<Rightarrow> 'c \<Rightarrow> bool result \<times> 'c" where
  "noop_Seen key c = (Inr False, c)"

definition noop_Mark :: "string \<Rightarrow> 'c act" where
  "noop_Mark key c = (None, c)"

definition NoopCache :: "'c DuplicateCache" where
  "NoopCache = \<lparr>dc_Seen = noop_Seen, dc_Mark = noop_Mark\<rparr>"

text \<open>The commands the Redis cache sends.\<close>

record 'r redis =
  rd_Exists :: "string \<Rightarrow> 'r \<Rightarrow> int result \<times> 'r"
  rd_Set :: "string \<Rightarrow> string \<Rightarrow> duration \<Rightarrow> 'r act"

definition cacheName :: "string \<Rightarrow> string" where
  "cacheName key = ''ingest:idempotency:'' @ key"

definition NewRedisCache :: "'r redis \<Rightarrow> duration \<Rightarrow> 'r redis \<times> duration" where
  "NewRedisCache client ttl = (client, if ttl \<le> 0 then 24 * hour else ttl)"

definition redis_Seen :: "'r redis \<times> duration \<Rightarrow> string \<Rightarrow> 'r \<Rightarrow> bool result \<times> 'r" where
  "redis_Seen cache key r =
     (case rd_Exists (fst cache) (cacheName key) r of
        (Inl err, r') \<Rightarrow> (Inr False, r')
      | (Inr value, r') \<Rightarrow> (Inr (value = 1), r'))"

definition redis_Mark :: "'r redis \<times> duration \<Rightarrow> string \<Rightarrow> 'r act" where
  "redis_Mark cache key r = (None, snd (rd_Set (fst cache) (cacheName key) ''1'' (snd cache) r))"

definition redis_cache :: "'r redis \<times> duration \<Rightarrow> 'r DuplicateCache" where
  "redis_cache cache = \<lparr>dc_Seen = redis_Seen cache, dc_Mark = redis_Mark cache\<rparr>"

section \<open>pipeline.go\<close>

type_synonym Status = string

definition StatusApplied :: Status where "StatusApplied = ''applied''"
definition StatusDuplicate :: Status where "StatusDuplicate = ''duplicate''"
definition StatusRejected :: Status where "StatusRejected = ''rejected''"

lemmas status_defs = StatusApplied_def StatusDuplicate_def StatusRejected_def

record Envelope =
  ep_Source :: string
  ep_Body :: string
  ep_SignatureHex :: string
  ep_HMACSecret :: string
  ep_ObjectKey :: string

record Result =
  rt_Status :: Status
  rt_Reason :: string
  rt_Applied :: nat

definition ShouldAck :: "Result \<Rightarrow> bool" where
  "ShouldAck result \<longleftrightarrow> rt_Status result = StatusApplied \<or> rt_Status result = StatusDuplicate"

text \<open>\<open>pl_Auditor\<close> is the store seen as an \<^verbatim>\<open>AuditWriter\<close>, \<open>None\<close> when it is none; \<open>pl_Cache\<close> is \<open>None\<close> for nil.\<close>

record ('s, 'c) Pipeline =
  pl_Store :: "'s IngestStore"
  pl_Auditor :: "(AuditEntryRow \<Rightarrow> 's act) option"
  pl_Cache :: "'c DuplicateCache option"
  pl_Clock :: "nat \<Rightarrow> time"
  pl_Secret :: string

record ('s, 'c) pipe =
  pi_store :: 's
  pi_cache :: 'c
  pi_tick :: nat

definition cache_of :: "('s, 'c) Pipeline \<Rightarrow> 'c DuplicateCache" where
  "cache_of pipeline = (case pl_Cache pipeline of None \<Rightarrow> NoopCache | Some cache \<Rightarrow> cache)"

definition mark_key :: "('s, 'c) Pipeline \<Rightarrow> string \<Rightarrow> ('s, 'c) pipe \<Rightarrow> ('s, 'c) pipe" where
  "mark_key pipeline key p = p\<lparr>pi_cache := snd (dc_Mark (cache_of pipeline) key (pi_cache p))\<rparr>"

definition insertNormalized :: "'s IngestStore \<Rightarrow> Record \<Rightarrow> 's act" where
  "insertNormalized tx r =
     (case rc_Payment r of Some payment \<Rightarrow> is_InsertPayment tx payment
      | None \<Rightarrow> (case rc_Settlement r of Some line \<Rightarrow> is_InsertSettlement tx line
      | None \<Rightarrow> (case rc_Bank r of Some line \<Rightarrow> is_InsertBankLine tx line
      | None \<Rightarrow> (case rc_Ledger r of Some line \<Rightarrow> is_InsertLedgerLine tx line
      | None \<Rightarrow> (\<lambda>s. (Some (ErrText ''record produced no normalized row''), s))))))"

definition raw_event :: "Record \<Rightarrow> time \<Rightarrow> RawEvent" where
  "raw_event r now =
     \<lparr>re_Source = rc_Source r, re_ExternalID = rc_ExternalID r, re_EventType = rc_EventType r,
      re_IdempotencyKey = rc_IdempotencyKey r, re_Payload = rc_Payload r, re_ReceivedAt = now\<rparr>"

text \<open>The closure run inside the transaction.\<close>

definition ingest_body :: "'s IngestStore \<Rightarrow> Record \<Rightarrow> time \<Rightarrow> 's act" where
  "ingest_body tx r now = act_then (is_InsertRawEvent tx (raw_event r now)) (insertNormalized tx r)"

definition ingest_audit_payload :: "Record \<Rightarrow> json" where
  "ingest_audit_payload r =
     JObj [(''source'', JStr (rc_Source r)), (''external_id'', JStr (rc_ExternalID r)),
           (''event_type'', JStr (rc_EventType r)), (''idempotency_key'', JStr (rc_IdempotencyKey r))]"

definition writeIngestAudit :: "('s, 'c) Pipeline \<Rightarrow> Record \<Rightarrow> time \<Rightarrow> 's act" where
  "writeIngestAudit pipeline r now s =
     (case pl_Auditor pipeline of
        None \<Rightarrow> (None, s)
      | Some write \<Rightarrow>
          (case json_marshal (ingest_audit_payload r) of
             Inl err \<Rightarrow> (Some (ErrWrap ''marshal ingest audit payload: '' err []), s)
           | Inr payload \<Rightarrow>
               write \<lparr>ae_EventType = ''RAW_EVENT_INGESTED'', ae_PayloadJSON = Some payload, ae_CreatedAt = now\<rparr> s))"

definition persist :: "('s, 'c) Pipeline \<Rightarrow> Record \<Rightarrow> ('s, 'c) pipe \<Rightarrow> Status result \<times> ('s, 'c) pipe" where
  "persist pipeline r p =
     (case dc_Seen (cache_of pipeline) (rc_IdempotencyKey r) (pi_cache p) of (seen, c) \<Rightarrow>
      let p = p\<lparr>pi_cache := c\<rparr> in
      if seen = Inr True then (Inr StatusDuplicate, p)
      else (let tick = pi_tick p; now = pl_Clock pipeline tick; p = p\<lparr>pi_tick := tick + 2\<rparr> in
            case is_InTx (pl_Store pipeline) (ingest_body (pl_Store pipeline) r now) (pi_store p) of
              (Some err, st) \<Rightarrow>
                if errors_is err ErrDuplicate
                then (Inr StatusDuplicate, mark_key pipeline (rc_IdempotencyKey r) (p\<lparr>pi_store := st\<rparr>))
                else (Inl err, p\<lparr>pi_store := st\<rparr>)
            | (None, st) \<Rightarrow>
                (case writeIngestAudit pipeline r (pl_Clock pipeline (tick + 1)) st of
                   (Some auditErr, st') \<Rightarrow> (Inl (ErrWrap ''write ingest audit entry: '' auditErr []), p\<lparr>pi_store := st'\<rparr>)
                 | (None, st') \<Rightarrow>
                     (Inr StatusApplied, mark_key pipeline (rc_IdempotencyKey r) (p\<lparr>pi_store := st'\<rparr>)))))"

text \<open>The loop over the records, with its counters of applied and duplicate records.\<close>

fun persist_all ::
  "('s, 'c) Pipeline \<Rightarrow> nat \<Rightarrow> nat \<Rightarrow> Record list \<Rightarrow> ('s, 'c) pipe \<Rightarrow> (nat \<times> nat) result \<times> ('s, 'c) pipe" where
  "persist_all pipeline applied duplicates [] p = (Inr (applied, duplicates), p)"
| "persist_all pipeline applied duplicates (r # rs) p =
     (case persist pipeline r p of
        (Inl err, p') \<Rightarrow> (Inl err, p')
      | (Inr outcome, p') \<Rightarrow>
          if outcome = StatusApplied then persist_all pipeline (applied + 1) duplicates rs p'
          else persist_all pipeline applied (duplicates + 1) rs p')"

definition reject :: "go_error \<Rightarrow> Result \<times> go_error option" where
  "reject err = (\<lparr>rt_Status = StatusRejected, rt_Reason = err_text err, rt_Applied = 0\<rparr>, Some err)"

definition signature_ok :: "('s, 'c) Pipeline \<Rightarrow> Envelope \<Rightarrow> bool" where
  "signature_ok pipeline envelope =
     (if ep_Source envelope = SourceWebhook
      then (let secret = (if ep_HMACSecret envelope = [] then pl_Secret pipeline else ep_HMACSecret envelope)
            in VerifyHMAC (ep_Body envelope) (ep_SignatureHex envelope) secret)
      else True)"

definition Process ::
  "('s, 'c) Pipeline \<Rightarrow> Envelope \<Rightarrow> ('s, 'c) pipe \<Rightarrow> (Result \<times> go_error option) \<times> ('s, 'c) pipe" where
  "Process pipeline envelope p =
     (if \<not> signature_ok pipeline envelope then (reject ErrInvalidSignature, p)
      else (case Parse (ep_Source envelope) (ep_Body envelope) of
              Inl err \<Rightarrow> (reject err, p)
            | Inr records \<Rightarrow>
                (case persist_all pipeline 0 0 records p of
                   (Inl err, p') \<Rightarrow> (reject err, p')
                 | (Inr (applied, duplicates), p') \<Rightarrow>
                     if applied = 0 \<and> 0 < duplicates
                     then ((\<lparr>rt_Status = StatusDuplicate, rt_Reason = [], rt_Applied = 0\<rparr>, None), p')
                     else ((\<lparr>rt_Status = StatusApplied, rt_Reason = [], rt_Applied = applied\<rparr>, None), p'))))"

section \<open>http.go\<close>

text \<open>
  The response is the status code and the body. The request is its body, or the error of reading it,
  and the value of the signature header (empty when it is missing).
\<close>

definition http_error :: "string \<Rightarrow> int \<Rightarrow> int \<times> string" where
  "http_error text code = (code, text @ [CHR 0x0A])"

definition WebhookHandler ::
  "('s, 'c) Pipeline \<Rightarrow> string result \<Rightarrow> string \<Rightarrow> ('s, 'c) pipe \<Rightarrow> (int \<times> string) \<times> ('s, 'c) pipe" where
  "WebhookHandler pipeline read signature p =
     (case read of
        Inl err \<Rightarrow> (http_error ''unable to read body'' 400, p)
      | Inr body \<Rightarrow>
          (case Process pipeline
                  \<lparr>ep_Source = SourceWebhook, ep_Body = body, ep_SignatureHex = signature,
                   ep_HMACSecret = pl_Secret pipeline, ep_ObjectKey = []\<rparr> p of
             ((result, Some processErr), p') \<Rightarrow>
               (http_error (err_text processErr)
                  (if rt_Status result = StatusRejected \<and> processErr = ErrInvalidSignature then 401 else 400), p')
           | ((result, None), p') \<Rightarrow>
               ((200, ''{'' @ [CHR 0x22] @ ''status'' @ [CHR 0x22] @ '':'' @ [CHR 0x22] @ rt_Status result
                        @ [CHR 0x22] @ ''}''), p')))"

section \<open>sources.go and worker.go: the queue\<close>

definition sourceFromPath :: "string \<Rightarrow> string option" where
  "sourceFromPath path =
     (let normalized = to_lower path in
      if contains normalized ''/webhooks/'' \<or> contains normalized ''/webhook/'' then Some SourceWebhook
      else if contains normalized ''/settlements/'' \<or> contains normalized ''/settlement/'' then Some SourceSettlement
      else if contains normalized ''/ledgers/'' \<or> contains normalized ''/ledger/'' then Some SourceLedger
      else if contains normalized ''/banks/'' \<or> contains normalized ''/bank/'' then Some SourceBank
      else None)"

record QueueMessage =
  qm_ID :: string
  qm_Receipt :: string
  qm_Body :: string
  qm_Signature :: string
  qm_Source :: string
  qm_Bucket :: string
  qm_Key :: string

text \<open>The queue and the object store; \<open>None\<close> is a nil object store. A missing source is the empty one.\<close>

record 'q Queue =
  qu_Receive :: "'q \<Rightarrow> QueueMessage list result \<times> 'q"
  qu_Delete :: "string \<Rightarrow> 'q act"

type_synonym ObjectStore = "nat \<Rightarrow> string \<Rightarrow> string \<Rightarrow> string result"

definition load_body :: "ObjectStore option \<Rightarrow> nat \<Rightarrow> QueueMessage \<Rightarrow> QueueMessage result" where
  "load_body objects n message =
     (case objects of
        Some get \<Rightarrow>
          if qm_Bucket message \<noteq> [] \<and> qm_Key message \<noteq> [] \<and> length (qm_Body message) = 0
          then (case get n (qm_Bucket message) (qm_Key message) of
                  Inl err \<Rightarrow> Inl err
                | Inr body \<Rightarrow>
                    Inr (message\<lparr>qm_Body := body,
                           qm_Source := (if qm_Source message = []
                              then (case sourceFromPath (''/'' @ qm_Key message) of Some s \<Rightarrow> s | None \<Rightarrow> [])
                              else qm_Source message)\<rparr>))
          else Inr message
      | None \<Rightarrow> Inr message)"

definition message_envelope :: "('s, 'c) Pipeline \<Rightarrow> QueueMessage \<Rightarrow> Envelope" where
  "message_envelope pipeline message =
     \<lparr>ep_Source = qm_Source message, ep_Body = qm_Body message, ep_SignatureHex = qm_Signature message,
      ep_HMACSecret = pl_Secret pipeline, ep_ObjectKey = qm_Key message\<rparr>"

fun process_messages ::
  "('s, 'c) Pipeline \<Rightarrow> 'q Queue \<Rightarrow> ObjectStore option \<Rightarrow> QueueMessage list \<Rightarrow>
   ('s, 'c) pipe \<times> 'q \<Rightarrow> go_error option \<times> ('s, 'c) pipe \<times> 'q" where
  "process_messages pipeline queue objects [] (p, q) = (None, p, q)"
| "process_messages pipeline queue objects (message # ms) (p, q) =
     (case load_body objects (length ms) message of
        Inl getErr \<Rightarrow> (Some getErr, p, q)
      | Inr decoded \<Rightarrow>
          (case Process pipeline (message_envelope pipeline decoded) p of
             ((result, processErr), p') \<Rightarrow>
               if processErr \<noteq> None \<or> \<not> ShouldAck result then process_messages pipeline queue objects ms (p', q)
               else (case qu_Delete queue (qm_Receipt decoded) q of
                       (Some err, q') \<Rightarrow> (Some err, p', q')
                     | (None, q') \<Rightarrow> process_messages pipeline queue objects ms (p', q'))))"

definition ProcessQueue ::
  "('s, 'c) Pipeline \<Rightarrow> 'q Queue \<Rightarrow> ObjectStore option \<Rightarrow> ('s, 'c) pipe \<times> 'q \<Rightarrow> go_error option \<times> ('s, 'c) pipe \<times> 'q" where
  "ProcessQueue pipeline queue objects pq =
     (case qu_Receive queue (snd pq) of
        (Inl err, q) \<Rightarrow> (Some err, fst pq, q)
      | (Inr messages, q) \<Rightarrow> process_messages pipeline queue objects messages (fst pq, q))"

end
