(* ===== verification/Memory_Store.thy ===== *)
theory Memory_Store
  imports Store_Rows "HOL-Library.Finite_Map"
begin

text \<open>
  \<^verbatim>\<open>internal/store/memory.go\<close>: the in-process ingest store with its injected write faults. Go maps are
  finite maps; a copy loop into a fresh map is \<open>++\<^sub>f\<close> on the empty map. The store runs under its mutex, so
  an operation is one state transformer. The store is an interpretation of \<open>ingest_store\<close>.
\<close>

section \<open>memory.go\<close>

record MemoryStore =
  ms_raw :: "(string, RawEvent) fmap"
  ms_payments :: "(string, PaymentRow) fmap"
  ms_settlements :: "(string, SettlementRow) fmap"
  ms_banks :: "(string, BankRow) fmap"
  ms_ledgers :: "(string, LedgerRow) fmap"
  ms_failAfter :: int
  ms_writes :: int

definition NewMemoryStore :: MemoryStore where
  "NewMemoryStore =
     \<lparr>ms_raw = fmempty, ms_payments = fmempty, ms_settlements = fmempty, ms_banks = fmempty,
      ms_ledgers = fmempty, ms_failAfter = 0, ms_writes = 0\<rparr>"

definition FailAfterNWrites :: "int \<Rightarrow> MemoryStore \<Rightarrow> MemoryStore" where
  "FailAfterNWrites n store = store\<lparr>ms_failAfter := n, ms_writes := 0\<rparr>"

definition errForcedWrite :: go_error where
  "errForcedWrite = ErrText ''forced ingest write failure''"

definition hitFaultLocked :: "MemoryStore act" where
  "hitFaultLocked store =
     (if ms_failAfter store = 0 then (None, store)
      else (let store = store\<lparr>ms_writes := ms_writes store + 1\<rparr> in
            if ms_writes store > ms_failAfter store then (Some errForcedWrite, store)
            else (None, store)))"

definition cloneLocked :: "MemoryStore \<Rightarrow> MemoryStore" where
  "cloneLocked store =
     (let clone = NewMemoryStore in
      clone\<lparr>ms_failAfter := ms_failAfter store, ms_writes := ms_writes store,
            ms_raw := ms_raw clone ++\<^sub>f ms_raw store,
            ms_payments := ms_payments clone ++\<^sub>f ms_payments store,
            ms_settlements := ms_settlements clone ++\<^sub>f ms_settlements store,
            ms_banks := ms_banks clone ++\<^sub>f ms_banks store,
            ms_ledgers := ms_ledgers clone ++\<^sub>f ms_ledgers store\<rparr>)"

definition mem_InTx :: "MemoryStore act \<Rightarrow> MemoryStore act" where
  "mem_InTx fn store =
     (case fn (cloneLocked store) of
        (Some err, working) \<Rightarrow> (Some err, store)
      | (None, working) \<Rightarrow>
          (None, store\<lparr>ms_raw := ms_raw working, ms_payments := ms_payments working,
                       ms_settlements := ms_settlements working, ms_banks := ms_banks working,
                       ms_ledgers := ms_ledgers working, ms_writes := ms_writes working,
                       ms_failAfter := ms_failAfter working\<rparr>))"

definition mem_InsertRawEvent :: "RawEvent \<Rightarrow> MemoryStore act" where
  "mem_InsertRawEvent event =
     act_then hitFaultLocked
       (\<lambda>store. if fmlookup (ms_raw store) (re_IdempotencyKey event) \<noteq> None then (Some ErrDuplicate, store)
                else (None, store\<lparr>ms_raw := fmupd (re_IdempotencyKey event) event (ms_raw store)\<rparr>))"

definition mem_InsertPayment :: "PaymentRow \<Rightarrow> MemoryStore act" where
  "mem_InsertPayment payment =
     act_then hitFaultLocked
       (\<lambda>store. if fmlookup (ms_payments store) (pr_PaymentID payment) \<noteq> None then (None, store)
                else (None, store\<lparr>ms_payments := fmupd (pr_PaymentID payment) payment (ms_payments store)\<rparr>))"

definition settlement_key :: "SettlementRow \<Rightarrow> string" where
  "settlement_key line = sr_SettlementID line @ ''|'' @ sr_EntityID line @ ''|'' @ sr_LineType line"

definition mem_InsertSettlement :: "SettlementRow \<Rightarrow> MemoryStore act" where
  "mem_InsertSettlement line =
     act_then hitFaultLocked
       (\<lambda>store. let key = settlement_key line in
                if fmlookup (ms_settlements store) key \<noteq> None then (None, store)
                else (None, store\<lparr>ms_settlements := fmupd key line (ms_settlements store)\<rparr>))"

definition mem_InsertBankLine :: "BankRow \<Rightarrow> MemoryStore act" where
  "mem_InsertBankLine line =
     act_then hitFaultLocked
       (\<lambda>store. if fmlookup (ms_banks store) (br_ReferenceID line) \<noteq> None then (None, store)
                else (None, store\<lparr>ms_banks := fmupd (br_ReferenceID line) line (ms_banks store)\<rparr>))"

definition mem_InsertLedgerLine :: "LedgerRow \<Rightarrow> MemoryStore act" where
  "mem_InsertLedgerLine line =
     act_then hitFaultLocked
       (\<lambda>store. if fmlookup (ms_ledgers store) (lr_ReferenceID line) \<noteq> None then (None, store)
                else (None, store\<lparr>ms_ledgers := fmupd (lr_ReferenceID line) line (ms_ledgers store)\<rparr>))"

definition mem_Count :: "MemoryStore \<Rightarrow> Counts result \<times> MemoryStore" where
  "mem_Count store =
     (Inr \<lparr>ct_RawEvents = fcard (fmdom (ms_raw store)), ct_Payments = fcard (fmdom (ms_payments store)),
           ct_Settlements = fcard (fmdom (ms_settlements store)),
           ct_BankLines = fcard (fmdom (ms_banks store)),
           ct_LedgerLines = fcard (fmdom (ms_ledgers store))\<rparr>, store)"

lemmas mem_defs = mem_InsertRawEvent_def mem_InsertPayment_def mem_InsertSettlement_def
  mem_InsertBankLine_def mem_InsertLedgerLine_def

section \<open>The contract\<close>

definition memory_store :: "MemoryStore IngestStore" where
  "memory_store =
     \<lparr>is_InTx = mem_InTx, is_InsertRawEvent = mem_InsertRawEvent, is_InsertPayment = mem_InsertPayment,
      is_InsertSettlement = mem_InsertSettlement, is_InsertBankLine = mem_InsertBankLine,
      is_InsertLedgerLine = mem_InsertLedgerLine, is_Count = mem_Count\<rparr>"

definition mem_view :: "MemoryStore \<Rightarrow> string ingest_view" where
  "mem_view store =
     \<lparr>iv_raw = fmlookup (ms_raw store), iv_payments = fmlookup (ms_payments store),
      iv_settlements = fmlookup (ms_settlements store), iv_banks = fmlookup (ms_banks store),
      iv_ledgers = fmlookup (ms_ledgers store)\<rparr>"

lemma cloneLocked_id [simp]: "cloneLocked store = store"
  by (simp add: cloneLocked_def NewMemoryStore_def)

lemma hitFault_view [simp]: "mem_view (snd (hitFaultLocked store)) = mem_view store"
  by (simp add: hitFaultLocked_def mem_view_def Let_def)

text \<open>Every insert first meets the fault counter, which leaves the tables alone.\<close>

lemma after_fault:
  assumes "act_then hitFaultLocked b s = (r, s')"
  obtains e where "r = Some e" "mem_view s' = mem_view s"
    | t where "b t = (r, s')" "mem_view t = mem_view s"
proof (cases "hitFaultLocked s")
  case (Pair r' t)
  then have "mem_view t = mem_view s" using hitFault_view [of s] by simp
  then show ?thesis
    using assms Pair that by (cases r') (auto simp: act_then_def)
qed

lemma mem_view_eq_iff:
  "mem_view s = mem_view t \<longleftrightarrow>
     ms_raw s = ms_raw t \<and> ms_payments s = ms_payments t \<and> ms_settlements s = ms_settlements t
     \<and> ms_banks s = ms_banks t \<and> ms_ledgers s = ms_ledgers t"
  by (auto simp: mem_view_def intro: fmap_ext)

lemma fmlookup_fmupd: "fmlookup (fmupd k v m) = (fmlookup m)(k \<mapsto> v)"
  by auto

lemmas mem_view_defs = memory_store_def mem_defs mem_view_def fmlookup_fmupd keep_first_def Let_def

lemma mem_tx_ok:
  assumes "mem_InTx f s = (None, s')"
  shows "\<exists>t t'. mem_view t = mem_view s \<and> f t = (None, t') \<and> mem_view s' = mem_view t'"
proof -
  obtain t' where "f s = (None, t')" "mem_view s' = mem_view t'"
    using assms by (auto simp: mem_InTx_def mem_view_eq_iff split: prod.splits option.splits)
  then show ?thesis by blast
qed

lemma mem_tx_err: "mem_InTx f s = (Some e, s') \<Longrightarrow> s' = s"
  by (auto simp: mem_InTx_def split: prod.splits option.splits)

interpretation mem: ingest_store memory_store mem_view "\<lambda>k. k" settlement_key "\<lambda>r. r" "\<lambda>r. r" "\<lambda>r. r"
    "\<lambda>r. r" "\<lambda>r. r"
  by unfold_locales
     (auto simp: mem_view_defs elim!: after_fault split: if_splits
       dest!: mem_tx_ok [unfolded mem_view_def] mem_tx_err)

section \<open>Properties\<close>

text \<open>
  An injected write fault is permanent: once the counter has reached the configured number of
  writes, every further insert fails with the forced error and leaves the store in the same condition.
\<close>

theorem forced_failure_persists:
  assumes "ms_failAfter s \<noteq> 0" and "ms_failAfter s \<le> ms_writes s"
  shows "\<exists>s'. mem_InsertRawEvent ev s = (Some errForcedWrite, s') \<and> mem_view s' = mem_view s
             \<and> ms_failAfter s' \<noteq> 0 \<and> ms_failAfter s' \<le> ms_writes s'"
  using assms by (simp add: mem_InsertRawEvent_def act_then_def hitFaultLocked_def Let_def mem_view_def)

definition sample_raw :: RawEvent where
  "sample_raw = \<lparr>re_Source = ''razorpay_webhook'', re_ExternalID = ''pay_1'', re_EventType = ''payment.captured'',
     re_IdempotencyKey = ''k1'', re_Payload = ''{}'', re_ReceivedAt = 0\<rparr>"

theorem forced_failure_persists_witness:
  "\<exists>s'. mem_InsertRawEvent sample_raw (NewMemoryStore\<lparr>ms_failAfter := 1, ms_writes := 1\<rparr>) = (Some errForcedWrite, s')
        \<and> mem_view s' = mem_view (NewMemoryStore\<lparr>ms_failAfter := 1, ms_writes := 1\<rparr>)
        \<and> ms_failAfter s' \<noteq> 0 \<and> ms_failAfter s' \<le> ms_writes s'"
  by (rule forced_failure_persists) (simp_all add: NewMemoryStore_def)

end
