(* ===== verification/Ingest_Laws.thy ===== *)
theory Ingest_Laws
  imports Ingest_Pipeline Memory_Store MySQL_Laws
begin

text \<open>
  What the pipeline relies on and what it guarantees. The contract \<open>duplicate_cache\<close> bounds what a cache
  may report, \<open>duplicate_store\<close> extends \<open>ingest_store\<close> with what a duplicate error means, and \<open>ingest_client\<close>
  puts both together with an auditor that leaves the ingest tables alone: inside it, persisting a
  record is atomic, what is acknowledged is stored, and processing a payload again changes nothing.
  The contracts are interpreted on the memory and the no-op cache, and on both stores.
\<close>

section \<open>Caches\<close>

text \<open>\<open>marked\<close> bounds the keys a cache may report as seen; a cache may forget, never invent.\<close>

locale duplicate_cache =
  fixes ch :: "'c DuplicateCache" and marked :: "'c \<Rightarrow> string set"
  assumes seen_sound: "dc_Seen ch k c = (Inr True, c') \<Longrightarrow> k \<in> marked c"
    and seen_keeps: "dc_Seen ch k c = (r, c') \<Longrightarrow> marked c' \<subseteq> marked c"
    and mark_sound: "dc_Mark ch k c = (e, c') \<Longrightarrow> marked c' \<subseteq> insert k (marked c)"

interpretation mem_cache: duplicate_cache memory_cache "\<lambda>items. items"
  by unfold_locales (auto simp: memory_cache_def memory_Seen_def memory_Mark_def)

interpretation noop_cache: duplicate_cache NoopCache "\<lambda>c. {}"
  by unfold_locales (auto simp: NoopCache_def noop_Seen_def noop_Mark_def)

text \<open>
  Redis as documented: \<^verbatim>\<open>EXISTS\<close> of one name counts it when it is present, \<^verbatim>\<open>SET\<close> adds one name; names may
  disappear at any time (expiry, eviction, restart) and a command may fail.
\<close>

definition sound_redis :: "'r redis \<Rightarrow> ('r \<Rightarrow> string set) \<Rightarrow> bool" where
  "sound_redis rd names \<longleftrightarrow>
     (\<forall>n r r'. rd_Exists rd n r = (Inr 1, r') \<longrightarrow> n \<in> names r)
     \<and> (\<forall>n r x r'. rd_Exists rd n r = (x, r') \<longrightarrow> names r' \<subseteq> names r)
     \<and> (\<forall>n v ttl r e r'. rd_Set rd n v ttl r = (e, r') \<longrightarrow> names r' \<subseteq> insert n (names r))"

lemma redis_cache_contract:
  assumes "sound_redis (fst cache) names"
  shows "duplicate_cache (redis_cache cache) (\<lambda>r. {k. cacheName k \<in> names r})"
proof (unfold_locales, goal_cases)
  case (1 k c c')
  then show ?case
    using assms by (auto simp: redis_cache_def redis_Seen_def sound_redis_def split: prod.splits sum.splits)
next
  case (2 k c r c')
  then show ?case
    using assms by (auto simp: redis_cache_def redis_Seen_def sound_redis_def split: prod.splits sum.splits) blast+
next
  case (3 k c e c')
  then have "rd_Set (fst cache) (cacheName k) ''1'' (snd cache) c = (fst (rd_Set (fst cache) (cacheName k) ''1'' (snd cache) c), c')"
    by (auto simp: redis_cache_def redis_Mark_def)
  then have "names c' \<subseteq> insert (cacheName k) (names c)"
    using assms unfolding sound_redis_def by blast
  then show ?case by (auto simp: cacheName_def)
qed

section \<open>Stores that report duplicates\<close>

text \<open>
  A duplicate error of a transaction comes from its closure, and the only insert that reports it is
  that of a raw event whose key is taken.
\<close>

locale duplicate_store = ingest_store +
  assumes raw_dup: "is_InsertRawEvent st ev s = (Some e, s') \<Longrightarrow> errors_is e ErrDuplicate \<Longrightarrow>
        iv_raw (view s) (key (re_IdempotencyKey ev)) \<noteq> None"
    and pay_dup: "is_InsertPayment st p s = (Some e, s') \<Longrightarrow> \<not> errors_is e ErrDuplicate"
    and set_dup: "is_InsertSettlement st l s = (Some e, s') \<Longrightarrow> \<not> errors_is e ErrDuplicate"
    and bank_dup: "is_InsertBankLine st b s = (Some e, s') \<Longrightarrow> \<not> errors_is e ErrDuplicate"
    and led_dup: "is_InsertLedgerLine st g s = (Some e, s') \<Longrightarrow> \<not> errors_is e ErrDuplicate"
    and tx_dup: "is_InTx st f s = (Some e, s') \<Longrightarrow> errors_is e ErrDuplicate \<Longrightarrow>
        \<exists>t t'. view t = view s \<and> f t = (Some e, t')"
begin

text \<open>What one of the five inserts does to the tables: the raw events grow by at most the new key.\<close>

lemma normalized_raw: "insertNormalized st r s = (None, s') \<Longrightarrow> iv_raw (view s') = iv_raw (view s)"
  unfolding insertNormalized_def
  by (auto split: option.splits dest!: pay_ok set_ok bank_ok led_ok)

lemma normalized_no_dup: "insertNormalized st r s = (Some e, s') \<Longrightarrow> \<not> errors_is e ErrDuplicate"
  unfolding insertNormalized_def
  by (auto split: option.splits dest: pay_dup set_dup bank_dup led_dup)

lemma body_ok:
  assumes "is_InTx st (ingest_body st r now) s = (None, s')"
  shows "iv_raw (view s) (key (rc_IdempotencyKey r)) = None
       \<and> iv_raw (view s') = (iv_raw (view s))(key (rc_IdempotencyKey r) \<mapsto> raw_row (raw_event r now))
       \<and> (\<exists>t t'. view t = (view s)\<lparr>iv_raw := iv_raw (view s')\<rparr> \<and> insertNormalized st r t = (None, t') \<and> view s' = view t')"
proof -
  obtain t t' where t: "view t = view s" "ingest_body st r now t = (None, t')" "view s' = view t'"
    using tx_ok [OF assms] by blast
  then obtain u where u: "is_InsertRawEvent st (raw_event r now) t = (None, u)" "insertNormalized st r u = (None, t')"
    by (auto simp: ingest_body_def act_then_None_iff)
  have "re_IdempotencyKey (raw_event r now) = rc_IdempotencyKey r" by (simp add: raw_event_def)
  then show ?thesis
    using raw_ok [OF u(1)] normalized_raw [OF u(2)] u(2) t by (metis ingest_view.select_convs(1) ingest_view.surjective ingest_view.update_convs(1))
qed

lemma body_dup:
  assumes "is_InTx st (ingest_body st r now) s = (Some e, s')" and "errors_is e ErrDuplicate"
  shows "iv_raw (view s) (key (rc_IdempotencyKey r)) \<noteq> None"
proof -
  obtain t t' where t: "view t = view s" "ingest_body st r now t = (Some e, t')"
    using tx_dup [OF assms] by blast
  have key: "re_IdempotencyKey (raw_event r now) = rc_IdempotencyKey r" by (simp add: raw_event_def)
  show ?thesis
  proof (cases "is_InsertRawEvent st (raw_event r now) t")
    case (Pair e' u)
    with t(2) normalized_no_dup [of r u e t'] assms(2) have "e' = Some e"
      by (auto simp: ingest_body_def act_then_def split: option.splits)
    then show ?thesis using raw_dup [of "raw_event r now" t e u] Pair assms(2) key t(1) by simp
  qed
qed

end

section \<open>The pipeline over such a store and cache\<close>

locale ingest_client = duplicate_store +
  fixes pl :: "('a, 'c) Pipeline" and marked :: "'c \<Rightarrow> string set"
  assumes store [simp]: "pl_Store pl = st"
    and cache: "duplicate_cache (cache_of pl) marked"
    and audit: "pl_Auditor pl = Some w \<Longrightarrow> w entry s = (e, s') \<Longrightarrow> view s' = view s"
begin

definition stored :: "string \<Rightarrow> ('a, 'c) pipe \<Rightarrow> bool" where
  "stored k p \<longleftrightarrow> iv_raw (view (pi_store p)) (key k) \<noteq> None"

text \<open>The cache only knows keys that are in the store.\<close>

definition sound_pipe :: "('a, 'c) pipe \<Rightarrow> bool" where
  "sound_pipe p \<longleftrightarrow> (\<forall>k \<in> marked (pi_cache p). stored k p)"

definition tables :: "('a, 'c) pipe \<Rightarrow> 'b ingest_view" where
  "tables p = view (pi_store p)"

definition raw_grows :: "('a, 'c) pipe \<Rightarrow> ('a, 'c) pipe \<Rightarrow> bool" where
  "raw_grows p p' \<longleftrightarrow> iv_raw (tables p) \<subseteq>\<^sub>m iv_raw (tables p')"

lemma writeIngestAudit_view: "writeIngestAudit pl r now s = (e, s') \<Longrightarrow> view s' = view s"
  by (auto simp: writeIngestAudit_def split: option.splits sum.splits dest: audit)

lemma stored_grows: "stored k p \<Longrightarrow> raw_grows p p' \<Longrightarrow> stored k p'"
  by (force simp: stored_def raw_grows_def tables_def map_le_def dom_def)

lemma raw_grows_trans: "raw_grows p q \<Longrightarrow> raw_grows q r \<Longrightarrow> raw_grows p r"
  unfolding raw_grows_def by (rule map_le_trans)

lemma mark_key_sound:
  assumes "sound_pipe p" and "stored k p"
  shows "sound_pipe (mark_key pl k p)" and "tables (mark_key pl k p) = tables p"
proof -
  have "marked (pi_cache (mark_key pl k p)) \<subseteq> insert k (marked (pi_cache p))"
    using duplicate_cache.mark_sound [OF cache surjective_pairing] by (simp add: mark_key_def)
  then show "sound_pipe (mark_key pl k p)"
    using assms by (auto simp: sound_pipe_def stored_def mark_key_def)
qed (simp add: tables_def mark_key_def)

text \<open>
  The five ways a record can go: seen in the cache, refused as a duplicate, failed without effect,
  committed but not audited, applied.
\<close>

lemma persist_cases:
  assumes "persist pl r p = (x, p')" and "sound_pipe p"
  obtains (seen) "x = Inr StatusDuplicate" "stored (rc_IdempotencyKey r) p" "tables p' = tables p" "sound_pipe p'"
    | (failed) err where "x = Inl err" "tables p' = tables p" "sound_pipe p'"
    | (committed) now s1 where "is_InTx st (ingest_body st r now) (pi_store p) = (None, s1)"
        "tables p' = view s1" "sound_pipe p'"
        "x = Inr StatusApplied \<or> (\<exists>e. x = Inl (ErrWrap ''write ingest audit entry: '' e []))"
proof -
  let ?k = "rc_IdempotencyKey r"
  obtain sn c where sn: "dc_Seen (cache_of pl) ?k (pi_cache p) = (sn, c)" by fastforce
  define q where "q = p\<lparr>pi_cache := c, pi_tick := pi_tick p + 2\<rparr>"
  have "marked c \<subseteq> marked (pi_cache p)" using duplicate_cache.seen_keeps [OF cache sn] .
  then have sound: "sound_pipe (p\<lparr>pi_cache := c\<rparr>)" "sound_pipe q"
    using assms(2) by (auto simp: sound_pipe_def stored_def q_def)
  show ?thesis
  proof (cases "sn = Inr True")
    case True
    then have "?k \<in> marked (pi_cache p)" using duplicate_cache.seen_sound [OF cache] sn by simp
    then have "stored ?k p" using assms(2) by (simp add: sound_pipe_def)
    then show thesis using assms(1) sn True sound(1) by (intro seen) (auto simp: persist_def tables_def)
  next
    case False
    let ?now = "pl_Clock pl (pi_tick p)"
    obtain e s1 where tx: "is_InTx st (ingest_body st r ?now) (pi_store p) = (e, s1)" by fastforce
    show thesis
    proof (cases e)
      case (Some err)
      have same: "view s1 = view (pi_store p)" using tx_err tx Some by simp
      then have sound1: "sound_pipe (q\<lparr>pi_store := s1\<rparr>)" and tab1: "tables (q\<lparr>pi_store := s1\<rparr>) = tables p"
        using sound(2) by (auto simp: sound_pipe_def stored_def tables_def q_def)
      show thesis
      proof (cases "errors_is err ErrDuplicate")
        case True
        have st: "stored ?k p" using body_dup tx Some True by (auto simp: stored_def)
        then have "stored ?k (q\<lparr>pi_store := s1\<rparr>)" using same by (simp add: stored_def)
        from mark_key_sound [OF sound1 this] show thesis
          using assms(1) sn False tx Some True st tab1 by (intro seen) (auto simp: persist_def q_def Let_def)
      next
        case False
        then show thesis
          using assms(1) sn \<open>sn \<noteq> Inr True\<close> tx Some sound1 tab1 by (intro failed) (auto simp: persist_def q_def Let_def)
      qed
    next
      case None
      obtain ae s2 where ae: "writeIngestAudit pl r (pl_Clock pl (pi_tick p + 1)) s1 = (ae, s2)" by fastforce
      have v2: "view s2 = view s1" using writeIngestAudit_view [OF ae] .
      have committed_key: "iv_raw (view s1) = (iv_raw (view (pi_store p)))(key ?k \<mapsto> raw_row (raw_event r ?now))"
        using body_ok tx None by blast
      then have st: "stored ?k (q\<lparr>pi_store := s2\<rparr>)" and sound2: "sound_pipe (q\<lparr>pi_store := s2\<rparr>)"
        using sound(2) v2 by (auto simp: sound_pipe_def stored_def q_def)
      note marked = mark_key_sound [OF sound2 st]
      show thesis
        using assms(1) sn False tx None ae v2 marked sound2
        by (intro committed [of ?now s1]) (cases ae; auto simp: persist_def q_def Let_def tables_def)+
    qed
  qed
qed

lemma persist_effect:
  assumes "persist pl r p = (x, p')" and "sound_pipe p"
  shows "sound_pipe p'" and "raw_grows p p'" and "x = Inr outcome \<Longrightarrow> stored (rc_IdempotencyKey r) p'"
proof -
  have "sound_pipe p' \<and> raw_grows p p' \<and> (\<forall>outcome. x = Inr outcome \<longrightarrow> stored (rc_IdempotencyKey r) p')"
    using assms
  proof (cases rule: persist_cases)
    case (committed now s1)
    have "iv_raw (view (pi_store p)) (key (rc_IdempotencyKey r)) = None"
      "iv_raw (view s1) = (iv_raw (view (pi_store p)))(key (rc_IdempotencyKey r) \<mapsto> raw_row (raw_event r now))"
      using body_ok [OF committed(1)] by blast+
    with committed show ?thesis by (auto simp: raw_grows_def stored_def tables_def map_le_def)
  qed (auto simp: raw_grows_def stored_def tables_def)
  then show "sound_pipe p'" "raw_grows p p'" "x = Inr outcome \<Longrightarrow> stored (rc_IdempotencyKey r) p'" by auto
qed

lemma persist_stored:
  assumes "persist pl r p = (x, p')" and "sound_pipe p" and "stored (rc_IdempotencyKey r) p"
  shows "tables p' = tables p" and "x \<noteq> Inr StatusApplied"
proof -
  have "tables p' = tables p \<and> x \<noteq> Inr StatusApplied"
    using assms(1,2)
  proof (cases rule: persist_cases)
    case (committed now s1)
    then show ?thesis using body_ok assms(3) by (auto simp: stored_def)
  qed (auto simp: status_defs)
  then show "tables p' = tables p" "x \<noteq> Inr StatusApplied" by auto
qed

text \<open>A record whose normalized row the store refuses never gets in.\<close>

lemma persist_refused:
  assumes "persist pl r p = (x, p')" and "sound_pipe p" and "\<not> stored (rc_IdempotencyKey r) p"
    and "\<And>t t'. insertNormalized st r t \<noteq> (None, t')"
  shows "\<exists>err. x = Inl err \<and> tables p' = tables p \<and> sound_pipe p'"
  using assms(1,2)
proof (cases rule: persist_cases)
  case (committed now s1)
  then show ?thesis using body_ok assms(4) by metis
qed (use assms(3) in auto)

lemma persist_all_effect:
  assumes "persist_all pl a d rs p = (x, p')" and "sound_pipe p"
  shows "sound_pipe p' \<and> raw_grows p p' \<and> (\<forall>y. x = Inr y \<longrightarrow> (\<forall>r \<in> set rs. stored (rc_IdempotencyKey r) p'))"
  using assms
proof (induction rs arbitrary: a d p)
  case Nil
  then show ?case by (simp add: raw_grows_def)
next
  case (Cons r rs)
  obtain y q where q: "persist pl r p = (y, q)" by fastforce
  note eff = persist_effect [OF q Cons.prems(2)]
  show ?case
  proof (cases y)
    case (Inl err)
    then show ?thesis using Cons.prems(1) q eff by auto
  next
    case (Inr outcome)
    then obtain a' d' where "persist_all pl a' d' rs q = (x, p')"
      using Cons.prems(1) q by (auto split: if_splits)
    from Cons.IH [OF this eff(1)] show ?thesis
      using eff(2) eff(3) [OF Inr] raw_grows_trans stored_grows by auto
  qed
qed

lemma persist_all_stored:
  assumes "persist_all pl a d rs p = (x, p')" and "sound_pipe p" and "\<forall>r \<in> set rs. stored (rc_IdempotencyKey r) p"
  shows "tables p' = tables p \<and> (\<forall>y. x = Inr y \<longrightarrow> y = (a, d + length rs))"
  using assms
proof (induction rs arbitrary: d p)
  case (Cons r rs)
  obtain y q where q: "persist pl r p = (y, q)" by fastforce
  have st: "stored (rc_IdempotencyKey r) p" using Cons.prems(3) by simp
  note same = persist_stored [OF q Cons.prems(2) st] and eff = persist_effect [OF q Cons.prems(2)]
  have all: "\<forall>r \<in> set rs. stored (rc_IdempotencyKey r) q"
    using Cons.prems(3) eff(2) stored_grows by auto
  show ?case
  proof (cases y)
    case (Inl err)
    then show ?thesis using Cons.prems(1) q same by auto
  next
    case (Inr outcome)
    then have "persist_all pl a (d + 1) rs q = (x, p')"
      using Cons.prems(1) q same(2) by auto
    from Cons.IH [OF this eff(1) all] show ?thesis using same(1) by auto
  qed
qed auto

lemma process_acked:
  assumes "Process pl env p = ((res, None), p')" and "sound_pipe p"
  obtains records where "Parse (ep_Source env) (ep_Body env) = Inr records" "signature_ok pl env"
    "\<And>r. r \<in> set records \<Longrightarrow> stored (rc_IdempotencyKey r) p'" "sound_pipe p'"
proof -
  have sig: "signature_ok pl env"
    using assms(1) by (auto simp: Process_def reject_def split: if_splits)
  obtain records where rs: "Parse (ep_Source env) (ep_Body env) = Inr records"
    using assms(1) sig by (cases "Parse (ep_Source env) (ep_Body env)") (auto simp: Process_def reject_def)
  obtain y where "persist_all pl 0 0 records p = (Inr y, p')"
    using assms(1) sig rs
    by (auto simp: Process_def reject_def split: prod.splits sum.splits if_splits)
  from persist_all_effect [OF this assms(2)] show ?thesis using that [OF rs sig] by blast
qed

lemma process_sound: "Process pl env p = (x, p') \<Longrightarrow> sound_pipe p \<Longrightarrow> sound_pipe p' \<and> raw_grows p p'"
  by (auto simp: Process_def raw_grows_def split: if_splits sum.splits prod.splits dest!: persist_all_effect)

lemma process_again:
  assumes "Process pl env p = ((res, None), p1)" and "sound_pipe p"
    and "Process pl env p1 = ((res2, e2), p2)"
  shows "tables p2 = tables p1"
    and "e2 = None \<Longrightarrow> Parse (ep_Source env) (ep_Body env) \<noteq> Inr [] \<Longrightarrow>
         res2 = \<lparr>rt_Status = StatusDuplicate, rt_Reason = [], rt_Applied = 0\<rparr>"
proof -
  obtain records where rs: "Parse (ep_Source env) (ep_Body env) = Inr records" "signature_ok pl env"
    "\<And>r. r \<in> set records \<Longrightarrow> stored (rc_IdempotencyKey r) p1" "sound_pipe p1"
    using process_acked [OF assms(1,2)] by blast
  obtain x q where x: "persist_all pl 0 0 records p1 = (x, q)" by fastforce
  have "tables q = tables p1 \<and> (\<forall>y. x = Inr y \<longrightarrow> y = (0, 0 + length records))"
    using persist_all_stored [OF x rs(4)] rs(3) by blast
  then show "tables p2 = tables p1"
    and "e2 = None \<Longrightarrow> Parse (ep_Source env) (ep_Body env) \<noteq> Inr [] \<Longrightarrow>
         res2 = \<lparr>rt_Status = StatusDuplicate, rt_Reason = [], rt_Applied = 0\<rparr>"
    using assms(3) rs(1,2) x by (auto simp: Process_def reject_def split: sum.splits if_splits)
qed

end

section \<open>The contracts on the two stores\<close>

interpretation mem_dup: duplicate_store memory_store mem_view "\<lambda>k. k" settlement_key "\<lambda>r. r" "\<lambda>r. r" "\<lambda>r. r"
    "\<lambda>r. r" "\<lambda>r. r"
  by unfold_locales
     (auto simp: memory_store_def mem_defs act_then_def hitFaultLocked_def errForcedWrite_def mem_InTx_def mem_view_def Let_def
       split: if_splits prod.splits option.splits)

definition memory_pipeline :: "(nat \<Rightarrow> time) \<Rightarrow> string \<Rightarrow> (MemoryStore, MemoryCache) Pipeline" where
  "memory_pipeline clock secret =
     \<lparr>pl_Store = memory_store, pl_Auditor = None, pl_Cache = Some memory_cache, pl_Clock = clock, pl_Secret = secret\<rparr>"

interpretation mem_in: ingest_client memory_store mem_view "\<lambda>k. k" settlement_key "\<lambda>r. r" "\<lambda>r. r" "\<lambda>r. r"
    "\<lambda>r. r" "\<lambda>r. r" "memory_pipeline clock secret" "\<lambda>items. items"
  for clock secret
  by unfold_locales (simp_all add: memory_pipeline_def cache_of_def mem_cache.seen_sound mem_cache.seen_keeps mem_cache.mark_sound)

text \<open>
  Of the database server it is assumed that the faults it reports for reasons of its own (a lost
  connection, a timeout) do not read as duplicate-key errors.
\<close>

definition honest_faults :: "engine \<Rightarrow> bool" where
  "honest_faults e \<longleftrightarrow>
     (\<forall>n err. eg_fault e n = Some err \<longrightarrow>
        mysql_number err \<noteq> Some 1062 \<and> \<not> contains (to_lower (err_text err)) ''duplicate'' \<and> \<not> errors_is err ErrDuplicate)"

lemma honest_ideal: "honest_faults ideal_engine"
  by (simp add: honest_faults_def ideal_engine_def)

definition mysql_pipeline :: "engine \<Rightarrow> 'c DuplicateCache \<Rightarrow> (nat \<Rightarrow> time) \<Rightarrow> string \<Rightarrow> (db, 'c) Pipeline" where
  "mysql_pipeline e ch clock secret =
     \<lparr>pl_Store = mysql_store e, pl_Auditor = Some (my_WriteAuditEntry (OpenMySQLStore e)), pl_Cache = Some ch,
      pl_Clock = clock, pl_Secret = secret\<rparr>"

lemma not_json_dup: "\<not> contains (to_lower (err_text (MySQLError 3140 ''Invalid JSON text.''))) ''duplicate''"
  by (simp add: ascii_eval dec_nat.simps digit_char_def)

lemma honest_raw_dup:
  assumes "honest_faults e" and "my_InsertRawEvent (OpenMySQLStore e) ev d = (Some err, d')" and "errors_is err ErrDuplicate"
  shows "iv_raw (my_view e d) (eg_key e (re_IdempotencyKey ev)) \<noteq> None"
  using assms not_json_dup unfolding my_InsertRawEvent_def
  by (auto simp: Let_def json_column_def my_view_simps OpenMySQLStore_def honest_faults_def mapDuplicate_def
      split: prod.splits option.splits if_splits elim!: guarded_cases)

lemma honest_normalized_dup:
  assumes "honest_faults e"
  shows "my_InsertPayment (OpenMySQLStore e) p d = (Some err, d') \<Longrightarrow> \<not> errors_is err ErrDuplicate"
    and "my_InsertSettlement (OpenMySQLStore e) l d = (Some err, d') \<Longrightarrow> \<not> errors_is err ErrDuplicate"
    and "my_InsertBankLine (OpenMySQLStore e) b d = (Some err, d') \<Longrightarrow> \<not> errors_is err ErrDuplicate"
    and "my_InsertLedgerLine (OpenMySQLStore e) g d = (Some err, d') \<Longrightarrow> \<not> errors_is err ErrDuplicate"
  using assms unfolding my_InsertPayment_def my_InsertSettlement_def my_InsertBankLine_def my_InsertLedgerLine_def
    honest_faults_def
  by (auto simp: Let_def OpenMySQLStore_def split: prod.splits option.splits if_splits elim!: guarded_cases)

lemma honest_tx_dup:
  assumes "honest_faults e" and "my_InTx (OpenMySQLStore e) (\<lambda>nested. f) d = (Some err, d')" and "errors_is err ErrDuplicate"
  shows "\<exists>t t'. my_view e t = my_view e d \<and> f t = (Some err, t')"
proof -
  have fault: "\<not> errors_is err' ErrDuplicate" if "tx_mark e s = (Some err', s')" for err' s s'
    using that assms(1) by (auto simp: tx_mark_def stmt_def Let_def honest_faults_def split: option.splits)
  obtain t' where "f (d\<lparr>db_ops := Suc (db_ops d)\<rparr>) = (Some err, t')"
    using assms(2,3)
    by (auto simp: my_InTx_def OpenMySQLStore_def Let_def dest: fault dest!: tx_mark_same [of _ _ None]
        split: prod.splits option.splits)
  then show ?thesis using my_view_ops by blast
qed

lemma WriteAuditEntry_view:
  "my_WriteAuditEntry (OpenMySQLStore e) entry d = (r, d') \<Longrightarrow> my_view e' d' = my_view e' d"
  by (erule WriteAuditEntry_cases) (simp_all add: my_view_def)

locale honest_db =
  fixes e :: engine
  assumes honest: "honest_faults e"

sublocale honest_db \<subseteq> my_dup: duplicate_store "mysql_store e" "my_view e" "eg_key e" "settlement_sql_key e" "raw_stored e"
    "pay_stored e" "set_stored e" "bank_stored e" "led_stored e"
proof (unfold_locales, goal_cases)
  case (6 f s err s')
  then show ?case by (intro honest_tx_dup [OF honest]) (simp_all add: mysql_store_def Let_def)
qed (auto simp: mysql_store_def Let_def dest: honest_raw_dup [OF honest] honest_normalized_dup [OF honest])

interpretation honest_ideal: honest_db ideal_engine
  by unfold_locales (rule honest_ideal)

context honest_db
begin

lemma is_duplicate_store: "duplicate_store (mysql_store e) (my_view e) (eg_key e) (settlement_sql_key e) (raw_stored e)
    (pay_stored e) (set_stored e) (bank_stored e) (led_stored e)"
  by unfold_locales

end

lemma mysql_ingest_client:
  assumes "honest_faults e" and "duplicate_cache ch marked"
  shows "ingest_client (mysql_store e) (my_view e) (eg_key e) (settlement_sql_key e) (raw_stored e)
    (pay_stored e) (set_stored e) (bank_stored e) (led_stored e) (mysql_pipeline e ch clock secret) marked"
proof (rule ingest_client.intro)
  show "duplicate_store (mysql_store e) (my_view e) (eg_key e) (settlement_sql_key e) (raw_stored e)
    (pay_stored e) (set_stored e) (bank_stored e) (led_stored e)"
    using honest_db.is_duplicate_store [OF honest_db.intro [OF assms(1)]] .
  show "ingest_client_axioms (mysql_store e) (my_view e) (mysql_pipeline e ch clock secret) marked"
    using assms(2) WriteAuditEntry_view
    by (intro ingest_client_axioms.intro) (auto simp: mysql_pipeline_def cache_of_def)
qed

end
