(* ===== verification/Ingest_Props.thy ===== *)
theory Ingest_Props
  imports Ingest_Laws
begin

text \<open>
  Properties of ingestion: what a parsed record is, what an acknowledged payload means, that a payload
  processed twice changes nothing the second time, that the queue is acknowledged only after the
  commit and that webhooks need a signature; then what the pipeline does at its edges.
\<close>

section \<open>Parsed records\<close>

text \<open>A record carries exactly one normalized row, of its source, and the keys derived from that row.\<close>

definition well_formed_record :: "Record \<Rightarrow> bool" where
  "well_formed_record r \<longleftrightarrow>
     rc_IdempotencyKey r = IdempotencyKey (rc_Source r) (rc_ExternalID r) (rc_EventType r)
     \<and> ((\<exists>p. rc_Payment r = Some p \<and> rc_Settlement r = None \<and> rc_Bank r = None \<and> rc_Ledger r = None
            \<and> rc_Source r = SourceWebhook \<and> rc_ExternalID r = pr_PaymentID p \<and> rc_EventType r = ''payment.'' @ pr_Status p)
      \<or> (\<exists>l. rc_Payment r = None \<and> rc_Settlement r = Some l \<and> rc_Bank r = None \<and> rc_Ledger r = None
            \<and> rc_Source r = SourceSettlement \<and> rc_ExternalID r = sr_SettlementID l @ '':'' @ sr_EntityID l
            \<and> rc_EventType r = ''settlement.line'')
      \<or> (\<exists>b. rc_Payment r = None \<and> rc_Settlement r = None \<and> rc_Bank r = Some b \<and> rc_Ledger r = None
            \<and> rc_Source r = SourceBank \<and> rc_ExternalID r = br_ReferenceID b \<and> rc_EventType r = ''bank.line'')
      \<or> (\<exists>g. rc_Payment r = None \<and> rc_Settlement r = None \<and> rc_Bank r = None \<and> rc_Ledger r = Some g
            \<and> rc_Source r = SourceLedger \<and> rc_ExternalID r = lr_ReferenceID g \<and> rc_EventType r = ''ledger.line''))"

lemma map_result_Inr:
  "map_result f xs = Inr ys \<Longrightarrow> length ys = length xs \<and> (\<forall>y \<in> set ys. \<exists>x \<in> set xs. f x = Inr y)"
  by (induction xs arbitrary: ys) (auto split: sum.splits)

lemma well_formed_sources:
  "webhookRecord object payload = Inr r \<Longrightarrow> well_formed_record r \<and> rc_Source r = SourceWebhook"
  "settlementRecord object payload = Inr r \<Longrightarrow> well_formed_record r \<and> rc_Source r = SourceSettlement"
  "bankRecord object payload = Inr r \<Longrightarrow> well_formed_record r \<and> rc_Source r = SourceBank"
  "ledgerRecord object payload = Inr r \<Longrightarrow> well_formed_record r \<and> rc_Source r = SourceLedger"
     apply (clarsimp simp: webhookRecord_def Let_def well_formed_record_def split: sum.splits)
    apply (clarsimp simp: settlementRecord_def Let_def well_formed_record_def split: sum.splits option.splits)
   apply (clarsimp simp: bankRecord_def Let_def well_formed_record_def split: sum.splits)
  apply (clarsimp simp: ledgerRecord_def Let_def well_formed_record_def split: sum.splits)
  done

lemma recordFromObject_source:
  assumes "recordFromObject source object = Inr r"
  shows "well_formed_record r \<and> rc_Source r = source"
  using assms by (auto simp: recordFromObject_def split: sum.splits if_splits dest: well_formed_sources)

lemma validate_objects_all:
  "validate_objects n source required objects = None \<Longrightarrow> object \<in> set objects \<Longrightarrow>
   validateJSONObject source required object = None"
  by (induction n source required objects rule: validate_objects.induct) (auto split: option.splits)

text \<open>What validation leaves for the parser: at least one object, or a header and a data row.\<close>

lemma trim_space_head: "trim_space s = c # r \<Longrightarrow> \<exists>r'. trim_left s = c # r'"
  using trim_right_prefix [of "trim_left s"] by (cases "trim_left s") (auto simp: trim_space_def)

lemma Validate_JSON_objects:
  assumes "validateJSON source raw = None"
  shows "\<exists>objects required. map_of RequiredJSONFields source = Some required
    \<and> json_objects (trim_space raw) = Inr objects \<and> objects \<noteq> []
    \<and> (\<forall>object \<in> set objects. validateJSONObject source required object = None)
    \<and> (hd (trim_space raw) = CHR ''{'' \<or> hd (trim_space raw) = CHR ''['')"
  using assms
  by (auto simp: validateJSON_def json_objects_def Let_def split: option.splits list.splits if_splits sum.splits
      dest: validate_objects_all)

lemma ValidateCSV_rows:
  assumes "ValidateCSV source raw = None"
  obtains rows where "csv_read_all raw = Inr rows" "2 \<le> length rows"
  using assms by (auto simp: ValidateCSV_def Let_def split: option.splits sum.splits if_splits)

lemma Parse_cases:
  assumes "Parse source raw = Inr records"
  obtains (json) objects required where "json_objects (trim_space raw) = Inr objects" "objects \<noteq> []"
      "map_result (recordFromObject source) objects = Inr records"
      "map_of RequiredJSONFields (to_lower (trim_space source)) = Some required"
      "\<And>object. object \<in> set objects \<Longrightarrow> validateJSONObject (to_lower (trim_space source)) required object = None"
    | (csv) rows where "csv_read_all raw = Inr rows" "2 \<le> length rows"
      "map_result (\<lambda>row. recordFromObject source (csv_object (hd rows) row)) (tl rows) = Inr records"
proof -
  let ?s = "to_lower (trim_space source)"
  have valid: "Validate source raw = None" using assms by (auto simp: Parse_def split: option.splits)
  show thesis
  proof (cases "looksLikeCSV raw")
    case True
    then obtain rows where rows: "csv_read_all raw = Inr rows" "2 \<le> length rows"
      using valid by (auto simp: Validate_def Let_def split: option.splits elim: ValidateCSV_rows)
    have "trim_space raw \<noteq> []"
      using assms valid by (auto simp: Parse_def parseJSON_def json_objects_def unmarshal_raw_objects_def json_valid_def
          json_error_def parse_value.simps skip_ws_def)
    moreover have "hd (trim_space raw) \<noteq> CHR ''{''" "hd (trim_space raw) \<noteq> CHR ''[''"
      using True calculation trim_space_head [of raw]
      by (cases "trim_space raw"; auto simp: looksLikeCSV_def split: list.splits if_splits)+
    ultimately show thesis
      using assms valid rows csv by (auto simp: Parse_def parseCSV_def Let_def split: if_splits)
  next
    case False
    then have "validateJSON ?s raw = None"
      using valid by (auto simp: Validate_def Let_def split: option.splits)
    then obtain objects required where "map_of RequiredJSONFields ?s = Some required"
      "json_objects (trim_space raw) = Inr objects" "objects \<noteq> []"
      "\<forall>object \<in> set objects. validateJSONObject ?s required object = None"
      "hd (trim_space raw) = CHR ''{'' \<or> hd (trim_space raw) = CHR ''[''"
      using Validate_JSON_objects by blast
    then show thesis
      using assms valid json by (auto simp: Parse_def parseJSON_def Let_def split: if_splits sum.splits)
  qed
qed

lemma Parse_records:
  assumes "Parse source raw = Inr records"
  shows "records \<noteq> []" and "r \<in> set records \<Longrightarrow> well_formed_record r \<and> rc_Source r = source"
proof -
  have "records \<noteq> [] \<and> (\<forall>r \<in> set records. well_formed_record r \<and> rc_Source r = source)"
    using assms
  proof (cases rule: Parse_cases)
    case (json objects required)
    have "records \<noteq> []" using map_result_Inr [OF json(3)] json(2) by auto
    then show ?thesis using map_result_Inr [OF json(3)] recordFromObject_source by blast
  next
    case (csv rows)
    then have "tl rows \<noteq> []" by (cases rows) auto
    then have "records \<noteq> []" using map_result_Inr [OF csv(3)] csv(2) by auto
    then show ?thesis using map_result_Inr [OF csv(3)] recordFromObject_source by blast
  qed
  then show "records \<noteq> []" "r \<in> set records \<Longrightarrow> well_formed_record r \<and> rc_Source r = source" by auto
qed

text \<open>A payload rendered from its fields is read back field by field.\<close>

lemma Parse_rendered:
  assumes "kvs \<noteq> []" and "list_all (\<lambda>(k, v). plain k \<and> (\<exists>j. solid v j)) kvs" and "distinct (map fst kvs)"
    and "RejectPossiblePAN (raw_text kvs) = None"
    and "source \<in> {SourceWebhook, SourceSettlement, SourceBank, SourceLedger}"
    and "validateJSONObject source (the (map_of RequiredJSONFields source)) kvs = None"
  shows "Parse source (raw_text kvs) = map_result (recordFromObject source) [kvs]"
proof -
  have src: "to_lower (trim_space source) = source" "map_of RequiredJSONFields source \<noteq> None"
    using assms(5) by (auto simp: source_defs ascii_eval RequiredJSONFields_def)
  have obj: "unmarshal_raw_object (raw_text kvs) = Inr kvs" by (rule unmarshal_rendered [OF assms(1-3)])
  have trim: "trim_space (raw_text kvs) = raw_text kvs"
    by (rule trim_space_solid) (simp_all add: raw_text_def unicode_is_space_def in_range_def)
  have left: "trim_left (raw_text kvs) = raw_text kvs"
    by (simp add: raw_text_def trim_left_ascii unicode_is_space_def in_range_def)
  have "Validate source (raw_text kvs) = None"
    using assms(4,6) src obj trim left
    by (auto simp: Validate_def looksLikeCSV_def validateJSON_def Let_def raw_text_def)
  then show ?thesis
    using trim obj by (simp add: Parse_def parseJSON_def json_objects_def Let_def raw_text_def split: sum.splits)
qed

section \<open>The pipeline over MySQL\<close>

definition has_raw :: "engine \<Rightarrow> db \<Rightarrow> string \<Rightarrow> bool" where
  "has_raw e d k \<longleftrightarrow> list_ex (\<lambda>ev. sql_eq e (re_IdempotencyKey ev) k) (tb_raw_events d)"

text \<open>The cache knows only keys of stored events.\<close>

definition cache_known :: "engine \<Rightarrow> ('c \<Rightarrow> string set) \<Rightarrow> (db, 'c) pipe \<Rightarrow> bool" where
  "cache_known e marked p \<longleftrightarrow> (\<forall>k \<in> marked (pi_cache p). has_raw e (pi_store p) k)"

text \<open>The five tables ingestion writes, up to the order of rows.\<close>

definition same_ingest :: "engine \<Rightarrow> db \<Rightarrow> db \<Rightarrow> bool" where
  "same_ingest e d d' \<longleftrightarrow> my_view e d' = my_view e d"

lemma my_view_raw: "iv_raw (my_view e d) (eg_key e k) \<noteq> None \<longleftrightarrow> has_raw e d k"
  by (simp add: my_view_def first_by_None_iff has_raw_def sql_eq_def)

lemma client_defs:
  assumes "ingest_client (mysql_store e) (my_view e) (eg_key e) (settlement_sql_key e) (raw_stored e)
    (pay_stored e) (set_stored e) (bank_stored e) (led_stored e) pl marked"
  shows "ingest_client.stored (my_view e) (eg_key e) k p \<longleftrightarrow> has_raw e (pi_store p) k"
    and "ingest_client.sound_pipe (my_view e) (eg_key e) marked p \<longleftrightarrow> cache_known e marked p"
    and "ingest_client.tables (my_view e) p = my_view e (pi_store p)"
    and "ingest_client.raw_grows (my_view e) p p' \<Longrightarrow> has_raw e (pi_store p) k \<Longrightarrow> has_raw e (pi_store p') k"
  using ingest_client.stored_grows [OF assms]
  by (simp_all add: ingest_client.stored_def [OF assms] ingest_client.sound_pipe_def [OF assms]
      ingest_client.tables_def [OF assms] cache_known_def my_view_raw del: not_None_eq)

lemma acked_records:
  assumes "honest_faults e" and "duplicate_cache ch marked" and "cache_known e marked p"
    and "Process (mysql_pipeline e ch clock secret) env p = ((res, None), p')"
  shows "\<exists>records. Parse (ep_Source env) (ep_Body env) = Inr records \<and> records \<noteq> []
           \<and> (\<forall>r \<in> set records. has_raw e (pi_store p') (rc_IdempotencyKey r)) \<and> cache_known e marked p'"
proof -
  note cl = mysql_ingest_client [OF assms(1,2), of clock secret]
  have "ingest_client.sound_pipe (my_view e) (eg_key e) marked p" using client_defs(2) [OF cl] assms(3) by simp
  then show ?thesis
    using client_defs [OF cl] Parse_records(1)
    by (elim ingest_client.process_acked [OF cl assms(4)]) auto
qed

text \<open>
  What is acknowledged is stored: when \<^verbatim>\<open>Process\<close> reports no error (applied or duplicate), the payload
  parsed into at least one record and the raw event of every one of them is in the database, whatever
  the server did in between; and the cache still knows only keys of stored events, so that the next
  payload can rely on it.
\<close>

theorem acknowledged_is_stored:
  assumes "honest_faults e" and "duplicate_cache ch marked" and "cache_known e marked p"
    and "Process (mysql_pipeline e ch clock secret) env p = ((res, None), p')"
  shows "\<exists>records. Parse (ep_Source env) (ep_Body env) = Inr records \<and> records \<noteq> []
           \<and> list_all (\<lambda>r. has_raw e (pi_store p') (rc_IdempotencyKey r)) records
       \<and> cache_known e marked p'"
  using acked_records [OF assms] by (auto simp: list_all_iff)

text \<open>
  C18: a payload can be sent again safely: after a run of \<^verbatim>\<open>Process\<close> without error, a second run of the same
  payload changes none of the five ingest tables, whether it succeeds or fails, and if it succeeds it
  reports a duplicate and nothing applied.
\<close>

theorem reprocessing_changes_nothing:
  assumes "honest_faults e" and "duplicate_cache ch marked" and "cache_known e marked p"
    and "Process (mysql_pipeline e ch clock secret) env p = ((res, None), p1)"
    and "Process (mysql_pipeline e ch clock secret) env p1 = ((res2, err2), p2)"
  shows "same_ingest e (pi_store p1) (pi_store p2)
       \<and> (err2 = None \<longrightarrow> res2 = \<lparr>rt_Status = StatusDuplicate, rt_Reason = [], rt_Applied = 0\<rparr>)"
proof -
  note cl = mysql_ingest_client [OF assms(1,2), of clock secret]
  have "Parse (ep_Source env) (ep_Body env) \<noteq> Inr []" using Parse_records(1) by blast
  moreover have "ingest_client.sound_pipe (my_view e) (eg_key e) marked p" using client_defs(2) [OF cl] assms(3) by simp
  note again = ingest_client.process_again [OF cl assms(4) this assms(5)]
  ultimately show ?thesis
    using again client_defs(3) [OF cl] by (simp add: same_ingest_def)
qed

text \<open>
  A queue whose deletions are observed: \<open>gone\<close> bounds the receipts deleted so far.
\<close>

definition deletes_only :: "'q Queue \<Rightarrow> ('q \<Rightarrow> string set) \<Rightarrow> bool" where
  "deletes_only queue gone \<longleftrightarrow> (\<forall>receipt q err q'. qu_Delete queue receipt q = (err, q') \<longrightarrow> gone q' \<subseteq> insert receipt (gone q))"

text \<open>A receipt backed by the database: it belongs to a message whose records are all stored.\<close>

definition receipt_backed :: "engine \<Rightarrow> db \<Rightarrow> ObjectStore option \<Rightarrow> QueueMessage list \<Rightarrow> string \<Rightarrow> bool" where
  "receipt_backed e d objects ms receipt \<longleftrightarrow>
     (\<exists>m n decoded records. m \<in> set ms \<and> load_body objects n m = Inr decoded \<and> qm_Receipt decoded = receipt
        \<and> Parse (qm_Source decoded) (qm_Body decoded) = Inr records \<and> records \<noteq> []
        \<and> (\<forall>r \<in> set records. has_raw e d (rc_IdempotencyKey r)))"

lemma receipt_backed_mono:
  assumes "receipt_backed e d objects ms receipt" and "set ms \<subseteq> set ms'"
    and "\<And>k. has_raw e d k \<Longrightarrow> has_raw e d' k"
  shows "receipt_backed e d' objects ms' receipt"
proof -
  obtain m n decoded records where "m \<in> set ms" and rest: "load_body objects n m = Inr decoded" "qm_Receipt decoded = receipt"
    "Parse (qm_Source decoded) (qm_Body decoded) = Inr records" "records \<noteq> []" "\<forall>r \<in> set records. has_raw e d (rc_IdempotencyKey r)"
    using assms(1) unfolding receipt_backed_def by blast
  moreover have "m \<in> set ms'" "\<forall>r \<in> set records. has_raw e d' (rc_IdempotencyKey r)"
    using calculation(1,6) assms(2,3) by auto
  ultimately show ?thesis unfolding receipt_backed_def by blast
qed

lemma process_messages_acks:
  assumes "honest_faults e" and "duplicate_cache ch marked" and "deletes_only queue gone"
    and "cache_known e marked p"
    and "process_messages (mysql_pipeline e ch clock secret) queue objects ms (p, q) = (err, p', q')"
  shows "cache_known e marked p' \<and> (\<forall>k. has_raw e (pi_store p) k \<longrightarrow> has_raw e (pi_store p') k)
    \<and> (\<forall>receipt \<in> gone q' - gone q. receipt_backed e (pi_store p') objects ms receipt)"
  using assms(4,5)
proof (induction ms arbitrary: p q)
  case Nil
  then show ?case by simp
next
  case (Cons m ms)
  let ?pl = "mysql_pipeline e ch clock secret"
  note cl = mysql_ingest_client [OF assms(1,2), of clock secret]
  show ?case
  proof (cases "load_body objects (length ms) m")
    case (Inl getErr)
    then show ?thesis using Cons.prems by simp
  next
    case (Inr decoded)
    obtain res perr p1 where proc: "Process ?pl (message_envelope ?pl decoded) p = ((res, perr), p1)" by (metis prod.exhaust)
    have step: "cache_known e marked p1" "\<And>k. has_raw e (pi_store p) k \<Longrightarrow> has_raw e (pi_store p1) k"
      using ingest_client.process_sound [OF cl proc] Cons.prems(1) client_defs(2,4) [OF cl] by (simp, blast)
    have later: "receipt_backed e (pi_store p') objects (m # ms) receipt"
      if "receipt_backed e (pi_store p') objects ms receipt" for receipt
      using that by (rule receipt_backed_mono) auto
    show ?thesis
    proof (cases "perr \<noteq> None \<or> \<not> ShouldAck res")
      case True
      then have "process_messages ?pl queue objects ms (p1, q) = (err, p', q')"
        using Cons.prems(2) Inr proc by simp
      from Cons.IH [OF step(1) this] step(2) later show ?thesis by blast
    next
      case False
      obtain derr q1 where del: "qu_Delete queue (qm_Receipt decoded) q = (derr, q1)" by fastforce
      have gone: "gone q1 \<subseteq> insert (qm_Receipt decoded) (gone q)"
        using assms(3) del unfolding deletes_only_def by blast
      have "Process ?pl (message_envelope ?pl decoded) p = ((res, None), p1)" using proc False by simp
      from acked_records [OF assms(1,2) Cons.prems(1) this]
      have "receipt_backed e (pi_store p1) objects (m # ms) (qm_Receipt decoded)"
        using Inr unfolding receipt_backed_def message_envelope_def by auto
      note here = receipt_backed_mono [OF this subset_refl]
      show ?thesis
      proof (cases derr)
        case (Some x)
        then have "p' = p1" "q' = q1" using Cons.prems(2) Inr proc False del by auto
        then show ?thesis using step gone here [of "pi_store p1"] by blast
      next
        case None
        then have "process_messages ?pl queue objects ms (p1, q1) = (err, p', q')"
          using Cons.prems(2) Inr proc False del by auto
        note IH = Cons.IH [OF step(1) this]
        then have "receipt_backed e (pi_store p') objects (m # ms) (qm_Receipt decoded)"
          by (intro here) blast
        with IH step(2) later gone show ?thesis by blast
      qed
    qed
  qed
qed

text \<open>
  A queue message is deleted only after its data is committed: every receipt that \<^verbatim>\<open>ProcessQueue\<close> deletes
  belongs to a received message that parsed into at least one record, and the raw events of all its
  records are in the database when the batch ends, even if a later message or a deletion fails.
\<close>

theorem queue_acknowledges_after_commit:
  assumes "honest_faults e" and "duplicate_cache ch marked" and "deletes_only queue gone"
    and "cache_known e marked p" and "qu_Receive queue q = (Inr messages, q1)"
    and "ProcessQueue (mysql_pipeline e ch clock secret) queue objects (p, q) = (err, p', q')"
    and "receipt \<in> gone q' - gone q1"
  shows "receipt_backed e (pi_store p') objects messages receipt"
proof -
  have "process_messages (mysql_pipeline e ch clock secret) queue objects messages (p, q1) = (err, p', q')"
    using assms(5,6) by (simp add: ProcessQueue_def)
  from process_messages_acks [OF assms(1-4) this] assms(7) show ?thesis by blast
qed

section \<open>A sample payload\<close>

definition sample_line_fields :: raw_object where
  "sample_line_fields = [(''reference_id'', json_string ''ord7''), (''amount_paise'', dec_nat 500), (''booked_at'', dec_nat 60)]"

definition sample_line_record :: Record where
  "sample_line_record =
     \<lparr>rc_Source = SourceLedger, rc_ExternalID = ''ord7'', rc_EventType = ''ledger.line'',
      rc_IdempotencyKey = ''ledger:ord7:ledger.line'',
      rc_Payload = (case marshal_raw_object sample_line_fields of Inr t \<Rightarrow> t | Inl e \<Rightarrow> []),
      rc_Payment = None, rc_Settlement = None, rc_Bank = None,
      rc_Ledger = Some \<lparr>lr_ReferenceID = ''ord7'', lr_AmountPaise = 500, lr_BookedAt = 60000000000\<rparr>\<rparr>"

definition sample_envelope :: Envelope where
  "sample_envelope = \<lparr>ep_Source = SourceLedger, ep_Body = raw_text sample_line_fields, ep_SignatureHex = [],
     ep_HMACSecret = [], ep_ObjectKey = []\<rparr>"

lemma sample_solid: "\<exists>j. solid (json_string ''ord7'') j" "\<exists>j. solid (dec_nat n) j"
  using solid_string [of "''ord7''"] solid_dec_nat by (auto simp: plain_char_def)

lemma sample_fields:
  "stringField sample_line_fields ''reference_id'' = ''ord7''"
  "intField sample_line_fields ''amount_paise'' = Inr 500"
  "timeField sample_line_fields ''booked_at'' = Inr (Some 60000000000)"
  using unmarshal_solid(2) [of 500] unmarshal_solid(2) [of 60] unmarshal_solid(3) [of 60]
    unmarshal_solid(1) [of "''ord7''"]
  by (simp_all add: sample_line_fields_def stringField_def intField_def timeField_def int64_defs plain_char_def
      json_error_def time_unix_def wrap64_def)

lemma sample_parse: "Parse SourceLedger (raw_text sample_line_fields) = Inr [sample_line_record]"
proof -
  have "Parse SourceLedger (raw_text sample_line_fields) = map_result (recordFromObject SourceLedger) [sample_line_fields]"
  proof (rule Parse_rendered)
    show "list_all (\<lambda>(k, v). plain k \<and> (\<exists>j. solid v j)) sample_line_fields"
      using sample_solid by (simp add: sample_line_fields_def plain_char_def)
    show "RejectPossiblePAN (raw_text sample_line_fields) = None"
      by (rule few_digits_no_PAN)
         (simp add: sample_line_fields_def raw_text_def raw_member_def json_string_plain plain_char_def is_digit_def
           dec_nat.simps digit_char_def)
    show "validateJSONObject SourceLedger (the (map_of RequiredJSONFields SourceLedger)) sample_line_fields = None"
      using requireIntegerPaise_dec_nat [of 500 "''amount_paise''"]
      by (simp add: validateJSONObject_def check_reference_def check_required_def check_currency_def check_amounts_def
          amount_fields_def RequiredJSONFields_def source_defs sample_line_fields_def int64_defs)
  qed (simp_all add: sample_line_fields_def)
  moreover obtain payload where "marshal_raw_object sample_line_fields = Inr payload"
    using solid_valid [OF solid_string, of "''ord7''"] solid_valid [OF solid_dec_nat]
    by (simp add: marshal_raw_object_def sample_line_fields_def plain_char_def)
  moreover have "firstNonEmpty [''ord7'', x] = ''ord7''" for x by (simp add: ascii_eval)
  ultimately show ?thesis
    by (simp add: recordFromObject_def ledgerRecord_def bookedAt_of_def sample_fields Let_def source_defs
        sample_line_record_def IdempotencyKey_def)
qed

lemma sample_process:
  "\<exists>p. Process (mysql_pipeline ideal_engine memory_cache (\<lambda>n. 0) []) sample_envelope
          \<lparr>pi_store = empty_db, pi_cache = {}, pi_tick = 0\<rparr>
        = ((\<lparr>rt_Status = StatusApplied, rt_Reason = [], rt_Applied = 1\<rparr>, None), p)"
proof -
  let ?pl = "mysql_pipeline ideal_engine memory_cache (\<lambda>n. 0) []" and ?p = "\<lparr>pi_store = empty_db, pi_cache = {}, pi_tick = 0\<rparr>"
  obtain d where tx: "is_InTx (mysql_store ideal_engine) (ingest_body (mysql_store ideal_engine) sample_line_record 0) empty_db = (None, d)"
      "tb_audit_log d = []"
    by (simp add: mysql_store_def Let_def my_InTx_def OpenMySQLStore_def ideal_engine_def tx_mark_def stmt_def ingest_body_def
        act_then_def my_InsertRawEvent_def my_InsertLedgerLine_def guarded_exec_def guard_inserts json_column_def
        insertNormalized_def sample_line_record_def empty_db_def)
  let ?kvs = "[(''source'', SourceLedger), (''external_id'', ''ord7''), (''event_type'', ''ledger.line''),
                (''idempotency_key'', ''ledger:ord7:ledger.line'')]"
  have kvs: "?kvs \<noteq> []" "list_all (\<lambda>(k, v). plain k) ?kvs" "distinct (map fst ?kvs)"
    by (simp_all add: plain_char_def source_defs)
  have payload: "ingest_audit_payload sample_line_record = JObj (map (\<lambda>(k, v). (k, JStr v)) ?kvs)"
    by (simp add: ingest_audit_payload_def sample_line_record_def)
  obtain row where "my_WriteAuditEntry (OpenMySQLStore ideal_engine)
      \<lparr>ae_EventType = ''RAW_EVENT_INGESTED'', ae_PayloadJSON = Some (json_text (ingest_audit_payload sample_line_record)), ae_CreatedAt = 0\<rparr> d
      = (None, d\<lparr>db_ops := db_ops d + 4, tb_audit_log := [row]\<rparr>)"
    unfolding payload using ideal_first_audit [of ?kvs d "''RAW_EVENT_INGESTED''" 0, OF _ _ _ tx(2)] kvs by blast
  then obtain d' where "writeIngestAudit ?pl sample_line_record 0 d = (None, d')"
    by (simp add: writeIngestAudit_def mysql_pipeline_def json_marshal_def payload del: json_text.simps list.map)
       (simp add: json_marshal_def)
  then have "\<exists>p. persist ?pl sample_line_record ?p = (Inr StatusApplied, p)"
    using tx(1) by (simp add: persist_def mysql_pipeline_def cache_of_def memory_cache_def memory_Seen_def Let_def)
  then show ?thesis
    by (auto simp: Process_def signature_ok_def sample_envelope_def sample_parse source_defs [symmetric])
       (auto simp: source_defs)
qed

lemma sample_known: "cache_known ideal_engine (\<lambda>items. items) \<lparr>pi_store = empty_db, pi_cache = {}, pi_tick = 0\<rparr>"
  by (simp add: cache_known_def)

theorem acknowledged_is_stored_witness:
  "\<exists>p'. Process (mysql_pipeline ideal_engine memory_cache (\<lambda>n. 0) []) sample_envelope
          \<lparr>pi_store = empty_db, pi_cache = {}, pi_tick = 0\<rparr>
        = ((\<lparr>rt_Status = StatusApplied, rt_Reason = [], rt_Applied = 1\<rparr>, None), p')
      \<and> has_raw ideal_engine (pi_store p') ''ledger:ord7:ledger.line''"
proof -
  obtain p' where p': "Process (mysql_pipeline ideal_engine memory_cache (\<lambda>n. 0) []) sample_envelope
          \<lparr>pi_store = empty_db, pi_cache = {}, pi_tick = 0\<rparr>
        = ((\<lparr>rt_Status = StatusApplied, rt_Reason = [], rt_Applied = 1\<rparr>, None), p')"
    using sample_process by blast
  from acknowledged_is_stored [OF honest_ideal mem_cache.duplicate_cache_axioms sample_known p'] p'
  show ?thesis by (auto simp: sample_envelope_def sample_parse) (simp add: sample_line_record_def)
qed

theorem reprocessing_changes_nothing_witness:
  "\<exists>p1 p2 res2 err2. Process (mysql_pipeline ideal_engine memory_cache (\<lambda>n. 0) []) sample_envelope
          \<lparr>pi_store = empty_db, pi_cache = {}, pi_tick = 0\<rparr>
        = ((\<lparr>rt_Status = StatusApplied, rt_Reason = [], rt_Applied = 1\<rparr>, None), p1)
      \<and> Process (mysql_pipeline ideal_engine memory_cache (\<lambda>n. 0) []) sample_envelope p1 = ((res2, err2), p2)
      \<and> same_ingest ideal_engine (pi_store p1) (pi_store p2)"
proof -
  obtain p1 where p1: "Process (mysql_pipeline ideal_engine memory_cache (\<lambda>n. 0) []) sample_envelope
          \<lparr>pi_store = empty_db, pi_cache = {}, pi_tick = 0\<rparr>
        = ((\<lparr>rt_Status = StatusApplied, rt_Reason = [], rt_Applied = 1\<rparr>, None), p1)"
    using sample_process by blast
  obtain res2 err2 p2 where p2: "Process (mysql_pipeline ideal_engine memory_cache (\<lambda>n. 0) []) sample_envelope p1 = ((res2, err2), p2)"
    by (metis prod.exhaust)
  from reprocessing_changes_nothing [OF honest_ideal mem_cache.duplicate_cache_axioms sample_known p1 p2] p1 p2
  show ?thesis by blast
qed

text \<open>A queue that holds one message and records the receipts it deletes.\<close>

definition sample_message :: QueueMessage where
  "sample_message = \<lparr>qm_ID = ''m1'', qm_Receipt = ''r1'', qm_Body = raw_text sample_line_fields, qm_Signature = [],
     qm_Source = SourceLedger, qm_Bucket = [], qm_Key = []\<rparr>"

definition sample_queue :: "string list Queue" where
  "sample_queue = \<lparr>qu_Receive = (\<lambda>q. (Inr [sample_message], q)), qu_Delete = (\<lambda>receipt q. (None, receipt # q))\<rparr>"

theorem queue_acknowledges_after_commit_witness:
  "\<exists>p'. ProcessQueue (mysql_pipeline ideal_engine memory_cache (\<lambda>n. 0) []) sample_queue None
          (\<lparr>pi_store = empty_db, pi_cache = {}, pi_tick = 0\<rparr>, []) = (None, p', [''r1''])
      \<and> receipt_backed ideal_engine (pi_store p') None [sample_message] ''r1''"
proof -
  let ?pl = "mysql_pipeline ideal_engine memory_cache (\<lambda>n. 0) []" and ?p = "\<lparr>pi_store = empty_db, pi_cache = {}, pi_tick = 0\<rparr>"
  have env: "message_envelope ?pl sample_message = sample_envelope"
    by (simp add: message_envelope_def sample_message_def sample_envelope_def mysql_pipeline_def)
  obtain p' where "Process ?pl sample_envelope ?p
        = ((\<lparr>rt_Status = StatusApplied, rt_Reason = [], rt_Applied = 1\<rparr>, None), p')"
    using sample_process by blast
  then have run: "ProcessQueue ?pl sample_queue None (?p, []) = (None, p', [''r1''])"
    by (simp add: ProcessQueue_def sample_queue_def load_body_def env ShouldAck_def) (simp add: sample_message_def)
  have "deletes_only sample_queue set" by (auto simp: deletes_only_def sample_queue_def)
  from queue_acknowledges_after_commit [OF honest_ideal mem_cache.duplicate_cache_axioms this sample_known _ run, of "[sample_message]" "[]" "''r1''"] run
  show ?thesis by (auto simp: sample_queue_def)
qed

section \<open>Signatures\<close>

lemma VerifyHMAC_no_secret [simp]: "\<not> VerifyHMAC body signature []"
  by (simp add: VerifyHMAC_def)

lemma VerifyHMAC_iff:
  "VerifyHMAC body signature secret
   \<longleftrightarrow> secret \<noteq> [] \<and> map lower_char signature = hex_encode (hmac_sha256 (map of_char secret) (map of_char body))"
proof -
  let ?mac = "hmac_sha256 (map of_char secret) (map of_char body)"
  have "list_all (\<lambda>b. b < 256) ?mac" by (simp add: hmac_sha256_def Let_def sha256_bytes)
  moreover have "hex_encode ?mac \<noteq> []" using length_hex_encode [of ?mac] by fastforce
  ultimately show ?thesis
    by (auto simp: VerifyHMAC_def hex_decode_iff split: sum.splits) (metis hex_decode_iff sum.sel(2) sum.simps(4))+
qed


end
