(* ===== verification/MySQL_Health.thy ===== *)
theory MySQL_Health
  imports MySQL_Laws Go_Struct
begin

text \<open>
  What a healthy database gives: statements succeed, the JSON the program writes is taken, and an audit
  entry is refused only when its hash is in the log already. The progress of matching and of ingestion
  rests on these lemmas.
\<close>

section \<open>A recovered database\<close>

text \<open>
  From statement \<open>k\<close> on no statement fails, and a JSON column takes what \<^verbatim>\<open>json.Marshal\<close> writes unless it is
  nested deeper than 100 levels (a text that can be read at depth 9900 of at most 10000).
\<close>

definition json_writable :: "json \<Rightarrow> bool" where
  "json_writable v \<longleftrightarrow> json_supported v \<and> (\<exists>j. readable 9900 (json_text v) j)"

definition healthy_from :: "engine \<Rightarrow> nat \<Rightarrow> bool" where
  "healthy_from e k \<longleftrightarrow> (\<forall>n \<ge> k. eg_fault e n = None) \<and> (\<forall>v. json_writable v \<longrightarrow> eg_json e (json_text v) \<noteq> None)"

lemma healthy_ideal: "healthy_from ideal_engine k"
  by (simp add: healthy_from_def ideal_engine_def)

lemma healthy_stmt: "healthy_from e k \<Longrightarrow> k \<le> db_ops d \<Longrightarrow> stmt e f d = f (d\<lparr>db_ops := Suc (db_ops d)\<rparr>)"
  by (simp add: healthy_from_def stmt_def)

lemma json_column_Some: "eg_json e t = Some st \<Longrightarrow> json_column e t = (\<lambda>f. f st)"
  by (intro ext) (simp add: json_column_def)

lemma healthy_column:
  assumes "healthy_from e k" and "json_writable v"
  shows "\<exists>st. json_column e (json_text v) = (\<lambda>f. f st)"
  using assms json_column_Some unfolding healthy_from_def by blast

lemma writable_text: "json_writable v \<Longrightarrow> or_empty_object (Some (json_text v)) = json_text v"
  by (auto simp: json_writable_def or_empty_object_def)

text \<open>Strings and integers, and the objects of them.\<close>

definition leaf :: "json \<Rightarrow> bool" where
  "leaf v \<longleftrightarrow> (\<exists>s. v = JStr s) \<or> (\<exists>i. v = JInt i)"

lemma leaf_readable: "leaf v \<Longrightarrow> json_supported v \<and> (\<exists>j. readable d (json_text v) j)"
  by (auto simp: leaf_def intro!: exI readable_leaf)

lemma members_writable:
  assumes "list_all (\<lambda>(k, v). plain k \<and> json_supported v \<and> (\<exists>j. readable 9901 (json_text v) j)) kvs"
  shows "json_writable (JObj kvs)"
proof (cases "kvs = []")
  case True
  then show ?thesis using readable_empty_object [of 9900] by (auto simp: json_writable_def)
next
  case False
  have "list_all (\<lambda>(k, v). plain k \<and> (\<exists>j. readable (Suc 9900) (json_text v) j)) kvs"
    using assms by (auto simp: list_all_iff)
  from readable_members(1) [OF False this] assms show ?thesis
    by (auto simp del: json_text.simps simp add: json_writable_def list_all_iff)
qed

lemma leaves_writable: "list_all (\<lambda>(k, v). plain k \<and> leaf v) kvs \<Longrightarrow> json_writable (JObj kvs)"
  using leaf_readable by (intro members_writable) (auto simp: list_all_iff)

lemma flat_writable: "list_all (\<lambda>(k, v). plain k) kvs \<Longrightarrow> json_writable (JObj (map (\<lambda>(k, v). (k, JStr v)) kvs))"
  by (rule leaves_writable) (auto simp: list_all_iff leaf_def)

lemma healthy_query:
  "healthy_from e k \<Longrightarrow> k \<le> db_ops d \<Longrightarrow> query e pre (\<lambda>n. Inr (g n)) d = (Inr (g (db_ops d)), d\<lparr>db_ops := db_ops d + 2\<rparr>)"
  by (simp add: healthy_from_def query_def Let_def)

section \<open>The audit log\<close>

text \<open>The error number of a duplicate key.\<close>

abbreviation hash_clash :: "go_error \<Rightarrow> bool" where
  "hash_clash err \<equiv> mysql_number err = Some 1062"

text \<open>The audit write of a payload of strings: only a hash that is there already refuses it.\<close>

lemma healthy_WriteAuditEntry:
  assumes "healthy_from e k" and "kvs \<noteq> []" and "list_all (\<lambda>(k, v). plain k) kvs" and "distinct (map fst kvs)"
    and "ae_PayloadJSON entry = Some (json_text (JObj (map (\<lambda>(k, v). (k, JStr v)) kvs)))"
    and "k \<le> db_ops d" and "my_WriteAuditEntry (OpenMySQLStore e) entry d = (Some err, d')"
  shows "hash_clash err"
proof -
  let ?p = "JObj (map (\<lambda>(k, v). (k, JStr v)) kvs)"
  note w = flat_writable [OF assms(3)]
  obtain st where st: "json_column e (json_text ?p) = (\<lambda>f. f st)" using healthy_column [OF assms(1) w] by blast
  obtain decoded where dec: "json_unmarshal (eg_float e) (json_text ?p) = Inr decoded" "json_supported decoded"
    using unmarshal_flat [OF assms(2-4)] by (simp add: list_all_iff split_beta)
  have body: "hash_clash err" if "audit_body e entry d = (Some err, d')" "k \<le> db_ops d" for d err d'
    using that(1) dec
    by (auto simp del: json_text.simps simp add: audit_body_def healthy_stmt [OF assms(1)] that(2) assms(5) writable_text [OF w] Seal_def json_marshal_def
        insert_audit_def st wrap_err_def le_SucI dup_entry_def Let_def split: if_splits)
  have ops: "k \<le> db_ops d'" if "audit_body e entry d = (r, d')" "k \<le> db_ops d" for d r d'
    using audit_body_ops [OF that(1)] that(2) by simp
  have k: "k \<le> db_ops (d\<lparr>db_ops := Suc (db_ops d)\<rparr>)" using assms(6) by simp
  obtain r d2 where b: "audit_body e entry (d\<lparr>db_ops := Suc (db_ops d)\<rparr>) = (r, d2)" by fastforce
  show ?thesis
    using assms(6,7) b body [OF _ k] ops [OF b k]
    by (cases r) (simp_all add: OpenMySQLStore_def Let_def my_WriteAuditEntry_def tx_mark_def healthy_stmt [OF assms(1)])
qed

end
