(* ===== verification/Ingest_Progress.thy ===== *)
theory Ingest_Progress
  imports Ingest_Props MySQL_Health
begin

text \<open>
  Progress of ingestion: a payload that is delivered again to a recovered database is acknowledged. The
  conditions on the payload are the ones the tables put on its rows; a payload that validation lets pass
  and a table refuses is never acknowledged, however often it is delivered.
\<close>

section \<open>Records on a healthy database\<close>

text \<open>The JSON column takes the payload of the record, and the checks of \<^verbatim>\<open>payments\<close> hold.\<close>

definition storable :: "engine \<Rightarrow> Record \<Rightarrow> bool" where
  "storable e r \<longleftrightarrow> eg_json e (rc_Payload r) \<noteq> None
     \<and> (case rc_Payment r of None \<Rightarrow> True
        | Some p \<Rightarrow> 0 \<le> pr_AmountPaise p \<and> 0 \<le> pr_FeePaise p \<and> 0 \<le> pr_TaxPaise p)"

lemma healthy_raw:
  assumes "healthy_from e k" and "k \<le> db_ops d" and "eg_json e (re_Payload ev) \<noteq> None"
  shows "\<exists>r d'. is_InsertRawEvent (mysql_store e) ev d = (r, d') \<and> k \<le> db_ops d' \<and> (r = None \<or> r = Some ErrDuplicate)"
proof -
  from assms(3) obtain t where "json_column e (re_Payload ev) = (\<lambda>f. f t)" using json_column_Some by blast
  then show ?thesis
    using assms(2)
    by (simp add: mysql_store_def OpenMySQLStore_def Let_def my_InsertRawEvent_def guarded_exec_def healthy_stmt [OF assms(1)]
        mapDuplicate_def dup_entry_def le_SucI)
qed

lemma healthy_normalized:
  assumes "healthy_from e k" and "k \<le> db_ops d" and "storable e r" and "well_formed_record r"
  shows "\<exists>d'. insertNormalized (mysql_store e) r d = (None, d') \<and> k \<le> db_ops d'"
  using assms(2-4)
  by (auto simp: well_formed_record_def storable_def insertNormalized_def mysql_store_def OpenMySQLStore_def Let_def
      my_InsertPayment_def my_InsertSettlement_def my_InsertBankLine_def my_InsertLedgerLine_def guarded_exec_def
      healthy_stmt [OF assms(1)] le_SucI split: option.splits)

lemma healthy_ingest_tx:
  assumes "healthy_from e k" and "k \<le> db_ops d" and "storable e r" and "well_formed_record r"
    and "is_InTx (mysql_store e) (ingest_body (mysql_store e) r now) d = (res, d')"
  shows "k \<le> db_ops d' \<and> (res = None \<or> res = Some ErrDuplicate)"
proof -
  let ?d = "d\<lparr>db_ops := Suc (db_ops d)\<rparr>"
  have k: "k \<le> db_ops ?d" using assms(2) by simp
  obtain x d1 where raw: "is_InsertRawEvent (mysql_store e) (raw_event r now) ?d = (x, d1)" "k \<le> db_ops d1"
      "x = None \<or> x = Some ErrDuplicate"
    using healthy_raw [OF assms(1) k, of "raw_event r now"] assms(3) by (auto simp: storable_def raw_event_def)
  obtain d2 where norm: "insertNormalized (mysql_store e) r d1 = (None, d2)" "k \<le> db_ops d2"
    using healthy_normalized [OF assms(1) raw(2) assms(3,4)] by blast
  show ?thesis
    using assms(2,5) raw norm
    by (auto simp: mysql_store_def [of e, THEN arg_cong [of _ _ is_InTx]] Let_def my_InTx_def OpenMySQLStore_def tx_mark_def
        healthy_stmt [OF assms(1)] ingest_body_def act_then_def rollback_def)
qed

lemma healthy_ingest_audit:
  assumes "healthy_from e k" and "k \<le> db_ops d"
    and "writeIngestAudit (mysql_pipeline e ch clock secret) r now d = (res, d')"
  shows "k \<le> db_ops d' \<and> (\<forall>err. res = Some err \<longrightarrow> hash_clash err)"
proof -
  let ?kvs = "[(''source'', rc_Source r), (''external_id'', rc_ExternalID r), (''event_type'', rc_EventType r),
      (''idempotency_key'', rc_IdempotencyKey r)]"
  let ?entry = "\<lparr>ae_EventType = ''RAW_EVENT_INGESTED'', ae_PayloadJSON = Some (json_text (JObj (map (\<lambda>(k, v). (k, JStr v)) ?kvs))),
      ae_CreatedAt = now\<rparr>"
  have "ingest_audit_payload r = JObj (map (\<lambda>(k, v). (k, JStr v)) ?kvs)" by (simp add: ingest_audit_payload_def)
  then have run: "my_WriteAuditEntry (OpenMySQLStore e) ?entry d = (res, d')"
    using assms(3) by (simp del: json_text.simps list.map add: writeIngestAudit_def mysql_pipeline_def json_marshal_def) simp
  then have "db_ops d \<le> db_ops d'" by (rule WriteAuditEntry_cases) simp_all
  moreover have "hash_clash err" if "res = Some err" for err
    by (rule healthy_WriteAuditEntry [OF assms(1) _ _ _ _ assms(2) run [unfolded that], of ?kvs])
       (simp_all add: plain_char_def)
  ultimately show ?thesis using assms(2) by simp
qed

lemma healthy_persist:
  assumes "healthy_from e k" and "k \<le> db_ops (pi_store p)" and "storable e r" and "well_formed_record r"
    and "persist (mysql_pipeline e ch clock secret) r p = (x, p')"
  shows "k \<le> db_ops (pi_store p') \<and> (\<forall>err. x = Inl err \<longrightarrow> hash_clash err)"
proof -
  let ?pl = "mysql_pipeline e ch clock secret" and ?now = "clock (pi_tick p)"
  obtain res d1 where tx: "is_InTx (mysql_store e) (ingest_body (mysql_store e) r ?now) (pi_store p) = (res, d1)" by fastforce
  note d1 = healthy_ingest_tx [OF assms(1-4) tx]
  obtain ares d2 where audit: "writeIngestAudit ?pl r (clock (pi_tick p + 1)) d1 = (ares, d2)" by fastforce
  note d2 = healthy_ingest_audit [OF assms(1) _ audit]
  have pl: "pl_Store ?pl = mysql_store e" "pl_Clock ?pl = clock" by (simp_all add: mysql_pipeline_def)
  show ?thesis
    using assms(2,5) tx d1 audit d2
    by (cases res; cases ares) (auto simp: persist_def pl Let_def mark_key_def split: prod.splits if_splits)
qed

lemma healthy_persist_all:
  assumes "healthy_from e k"
  shows "k \<le> db_ops (pi_store p) \<Longrightarrow> list_all (\<lambda>r. storable e r \<and> well_formed_record r) rs \<Longrightarrow>
     persist_all (mysql_pipeline e ch clock secret) a d rs p = (Inl err, p') \<Longrightarrow> hash_clash err"
proof (induction rs arbitrary: a d p)
  case (Cons r rs)
  obtain x q where step: "persist (mysql_pipeline e ch clock secret) r p = (x, q)" by fastforce
  have "k \<le> db_ops (pi_store q) \<and> (\<forall>err. x = Inl err \<longrightarrow> hash_clash err)"
    by (rule healthy_persist [OF assms Cons.prems(1) _ _ step]) (use Cons.prems(2) in simp_all)
  then show ?case using Cons.prems Cons.IH [of q] step by (cases x) (auto split: if_splits)
qed simp

text \<open>
  C19: redelivery comes to an end: once the database has recovered, so that no statement from the next
  one on fails, processing a payload with a good signature that parses, and whose rows the tables take,
  ends with an acknowledgement and the raw event of every record is stored, whatever part of it earlier
  deliveries have left; the one error that remains possible is the duplicate key of an audit row whose
  hash is in the log already.
\<close>

theorem redelivery_is_acknowledged:
  assumes "honest_faults e" and "duplicate_cache ch marked" and "cache_known e marked p"
    and "healthy_from e (db_ops (pi_store p))"
    and "signature_ok (mysql_pipeline e ch clock secret) env"
    and "Parse (ep_Source env) (ep_Body env) = Inr records" and "\<forall>r \<in> set records. storable e r"
  shows "(\<exists>result p'. Process (mysql_pipeline e ch clock secret) env p = ((result, None), p') \<and> ShouldAck result
            \<and> (\<forall>r \<in> set records. has_raw e (pi_store p') (rc_IdempotencyKey r)))
       \<or> (\<exists>result err p'. Process (mysql_pipeline e ch clock secret) env p = ((result, Some err), p') \<and> mysql_number err = Some 1062)"
proof -
  let ?pl = "mysql_pipeline e ch clock secret"
  obtain x p' where all: "persist_all ?pl 0 0 records p = (x, p')" by fastforce
  have rs: "list_all (\<lambda>r. storable e r \<and> well_formed_record r) records"
    using assms(7) Parse_records(2) [OF assms(6)] by (simp add: list_all_iff)
  show ?thesis
  proof (cases x)
    case (Inl err)
    then have "Process ?pl env p = (reject err, p')" using all assms(5,6) by (simp add: Process_def)
    then show ?thesis
      using healthy_persist_all [OF assms(4) order_refl rs] all Inl by (auto simp: reject_def)
  next
    case (Inr counts)
    obtain applied duplicates where "counts = (applied, duplicates)" by fastforce
    then have "\<exists>result. Process ?pl env p = ((result, None), p') \<and> ShouldAck result"
      using all Inr assms(5,6) by (cases "applied = 0 \<and> 0 < duplicates") (simp_all add: Process_def ShouldAck_def)
    then obtain result where run: "Process ?pl env p = ((result, None), p')" "ShouldAck result" by blast
    have "\<forall>r \<in> set records. has_raw e (pi_store p') (rc_IdempotencyKey r)"
      using acked_records [OF assms(1-3) run(1)] assms(6) by auto
    with run show ?thesis by blast
  qed
qed

theorem redelivery_is_acknowledged_witness:
  "\<exists>result p'. Process (mysql_pipeline ideal_engine memory_cache (\<lambda>n. 0) []) sample_envelope
        \<lparr>pi_store = empty_db, pi_cache = {}, pi_tick = 0\<rparr> = ((result, None), p')
     \<and> ShouldAck result \<and> has_raw ideal_engine (pi_store p') ''ledger:ord7:ledger.line''"
proof -
  let ?pl = "mysql_pipeline ideal_engine memory_cache (\<lambda>n. 0) []" and ?p = "\<lparr>pi_store = empty_db, pi_cache = {}, pi_tick = 0\<rparr>"
  have sig: "signature_ok ?pl sample_envelope" by (simp add: signature_ok_def sample_envelope_def source_defs)
  have parse: "Parse (ep_Source sample_envelope) (ep_Body sample_envelope) = Inr [sample_line_record]"
    using sample_parse by (simp add: sample_envelope_def)
  have "\<forall>r \<in> set [sample_line_record]. storable ideal_engine r"
    by (simp add: storable_def sample_line_record_def ideal_engine_def)
  from redelivery_is_acknowledged [OF honest_ideal mem_cache.duplicate_cache_axioms sample_known healthy_ideal sig parse this]
  show ?thesis using sample_process by (auto simp: sample_line_record_def)
qed

section \<open>A payload that is never acknowledged\<close>


text \<open>
  Validation does not look at \<^verbatim>\<open>fee_paise\<close>, and the parser reads a value that is no integer as zero: a webhook
  with a fee of 20.5 or a quoted fee is accepted with no fee.
\<close>

theorem fee_is_not_validated:
  assumes "''fee_paise'' \<notin> set required"
  shows "validateJSONObject source required ((''fee_paise'', raw) # object) = validateJSONObject source required object"
    and "unmarshal_int64 raw = Inl err \<Longrightarrow> webhookRecord ((''fee_paise'', raw) # object) payload = Inr r \<Longrightarrow>
         \<exists>row. rc_Payment r = Some row \<and> pr_FeePaise row = 0"
proof -
  have "check_required source required ((''fee_paise'', raw) # object) = check_required source required object"
    unfolding check_required_def by (rule first_error_cong) (use assms in auto)
  moreover have "check_amounts ((''fee_paise'', raw) # object) = check_amounts object"
    unfolding check_amounts_def by (rule first_error_cong) (auto simp: amount_fields_def)
  moreover have "check_reference source ((''fee_paise'', raw) # object) = check_reference source object"
    "check_currency source ((''fee_paise'', raw) # object) = check_currency source object"
    by (simp_all add: check_reference_def check_currency_def)
  ultimately show "validateJSONObject source required ((''fee_paise'', raw) # object) = validateJSONObject source required object"
    by (simp only: validateJSONObject_def)
qed (auto simp: webhookRecord_def intFieldDefault_def intField_def Let_def split: sum.splits)

definition negative_fee_fields :: raw_object where
  "negative_fee_fields =
     [(''payment_id'', json_string ''pay_9''), (''amount_paise'', dec_nat 500), (''currency'', json_string ''INR''),
      (''status'', json_string ''captured''), (''method'', json_string ''upi''), (''captured_at'', dec_nat 60),
      (''fee_paise'', itoa (- 5))]"

lemma negative_fee_solid: "list_all (\<lambda>(k, v). plain k \<and> (\<exists>j. solid v j)) negative_fee_fields"
proof -
  have "\<exists>j. solid (json_string s) j" if "plain s" for s using solid_string [OF that] by blast
  then show ?thesis
    using solid_dec_nat itoa_solid by (auto simp: negative_fee_fields_def plain_char_def)
qed

lemma negative_fee_parse:
  "\<exists>r row. Parse SourceWebhook (raw_text negative_fee_fields) = Inr [r] \<and> rc_Payment r = Some row \<and> pr_FeePaise row = - 5"
proof -
  have "Parse SourceWebhook (raw_text negative_fee_fields) = map_result (recordFromObject SourceWebhook) [negative_fee_fields]"
  proof (rule Parse_rendered [OF _ negative_fee_solid])
    show "RejectPossiblePAN (raw_text negative_fee_fields) = None"
      by (rule few_digits_no_PAN)
         (simp add: negative_fee_fields_def raw_text_def raw_member_def json_string_plain plain_char_def is_digit_def
           itoa_def dec_nat.simps digit_char_def)
    show "validateJSONObject SourceWebhook (the (map_of RequiredJSONFields SourceWebhook)) negative_fee_fields = None"
      using requireIntegerPaise_dec_nat [of 500 "''amount_paise''"] unmarshal_solid(1) [of "''INR''"]
      by (simp add: validateJSONObject_def check_reference_def check_required_def check_currency_def check_amounts_def
          amount_fields_def RequiredJSONFields_def source_defs negative_fee_fields_def int64_defs plain_char_def equal_fold_def)
  qed (simp_all add: negative_fee_fields_def)
  moreover obtain payload where "marshal_raw_object negative_fee_fields = Inr payload"
  proof -
    have "\<exists>payload. marshal_raw_object negative_fee_fields = Inr payload"
      using negative_fee_solid solid_valid by (auto simp: marshal_raw_object_def list_all_iff)
    with that show thesis by blast
  qed
  moreover have "intField negative_fee_fields ''amount_paise'' = Inr 500" "intField negative_fee_fields ''fee_paise'' = Inr (- 5)"
    "timeField negative_fee_fields ''captured_at'' = Inr (Some 60000000000)"
    using unmarshal_solid(2) [of 500] unmarshal_solid(2) [of 60] unmarshal_solid(3) [of 60] unmarshal_int64_itoa [of "- 5"]
    by (simp_all add: negative_fee_fields_def intField_def timeField_def int64_defs json_error_def time_unix_def wrap64_def)
  ultimately show ?thesis
    by (simp add: recordFromObject_def webhookRecord_def intFieldDefault_def Let_def)
qed


section \<open>An event that is never audited\<close>

lemma inserts_keep_audit:
  "is_InsertRawEvent (mysql_store e) ev d = (res, d') \<Longrightarrow> tb_audit_log d' = tb_audit_log d"
  "insertNormalized (mysql_store e) r d = (res, d') \<Longrightarrow> tb_audit_log d' = tb_audit_log d"
  by (auto simp: insertNormalized_def mysql_store_def OpenMySQLStore_def Let_def my_InsertRawEvent_def my_InsertPayment_def
      my_InsertSettlement_def my_InsertBankLine_def my_InsertLedgerLine_def json_column_def
      split: option.splits prod.splits if_splits elim!: guarded_cases)

lemma ingest_tx_audit:
  assumes "is_InTx (mysql_store e) (ingest_body (mysql_store e) r now) d = (res, d')"
  shows "tb_audit_log d' = tb_audit_log d" and "has_raw e d (rc_IdempotencyKey r) \<Longrightarrow> res \<noteq> None"
    and "res \<noteq> None \<Longrightarrow> same_tables d d'"
proof -
  have run: "my_InTx (OpenMySQLStore e) (\<lambda>nested. ingest_body (mysql_store e) r now) d = (res, d')"
    using assms by (simp add: mysql_store_def [of e, THEN arg_cong [of _ _ is_InTx]] Let_def)
  show "res \<noteq> None \<Longrightarrow> same_tables d d'" using my_tx_err run by (cases res) auto
  show "tb_audit_log d' = tb_audit_log d"
  proof (cases res)
    case None
    then obtain d1 d2 where "same_tables d d1" "ingest_body (mysql_store e) r now d1 = (None, d2)" "same_tables d2 d'"
      using my_tx_ok run by metis
    then show ?thesis
      by (auto simp: ingest_body_def act_then_None_iff same_tablesD dest!: inserts_keep_audit)
  next
    case (Some err)
    then show ?thesis using my_tx_err run by (auto simp: same_tablesD)
  qed
  show "res \<noteq> None" if stored: "has_raw e d (rc_IdempotencyKey r)"
  proof
    assume "res = None"
    then obtain d1 d2 where "same_tables d d1" "ingest_body (mysql_store e) r now d1 = (None, d2)"
      using my_tx_ok run by metis
    then obtain d3 where "my_InsertRawEvent (OpenMySQLStore e) (raw_event r now) d1 = (None, d3)"
      by (auto simp: ingest_body_def act_then_None_iff mysql_store_def Let_def)
    then have "iv_raw (my_view e d1) (eg_key e (rc_IdempotencyKey r)) = None"
      using my_raw_ok [of "OpenMySQLStore e"] by (fastforce simp: OpenMySQLStore_def raw_event_def)
    then show False using stored my_view_raw [of e d1 "rc_IdempotencyKey r"] \<open>same_tables d d1\<close> by (simp add: has_raw_def same_tablesD)
  qed
qed

lemma persist_keeps_audit:
  assumes "persist (mysql_pipeline e ch clock secret) r p = (x, p')"
    and "has_raw e (pi_store p) (rc_IdempotencyKey r)"
  shows "tb_audit_log (pi_store p') = tb_audit_log (pi_store p) \<and> has_raw e (pi_store p') (rc_IdempotencyKey r)"
proof -
  let ?pl = "mysql_pipeline e ch clock secret"
  obtain res d where tx: "is_InTx (mysql_store e) (ingest_body (mysql_store e) r (clock (pi_tick p))) (pi_store p) = (res, d)" by fastforce
  have "res \<noteq> None" "same_tables (pi_store p) d" using ingest_tx_audit(2,3) [OF tx] assms(2) by blast+
  moreover have pl: "pl_Store ?pl = mysql_store e" "pl_Clock ?pl = clock" by (simp_all add: mysql_pipeline_def)
  ultimately show ?thesis
    using assms tx
    by (cases res) (auto simp: persist_def pl Let_def mark_key_def same_tablesD has_raw_def split: prod.splits if_splits)
qed

text \<open>
  The raw event and its audit entry are separate transactions: when a delivery commits the event of a
  record and is rejected nevertheless, which only a failing audit write explains, the event has no audit
  row, and however often the payload is delivered again none is added, because the stored event makes the
  transaction fail before the audit write.
\<close>

theorem ingest_survives_failed_audit:
  assumes "persist (mysql_pipeline e ch clock secret) r p = (Inl err, p1)"
    and "\<not> has_raw e (pi_store p) (rc_IdempotencyKey r)" and "has_raw e (pi_store p1) (rc_IdempotencyKey r)"
    and "snd (persist (mysql_pipeline e ch clock secret) r p1) = p2"
  shows "tb_audit_log (pi_store p1) = tb_audit_log (pi_store p)
       \<and> tb_audit_log (pi_store p2) = tb_audit_log (pi_store p) \<and> has_raw e (pi_store p2) (rc_IdempotencyKey r)"
proof -
  let ?pl = "mysql_pipeline e ch clock secret"
  have pl: "pl_Store ?pl = mysql_store e" "pl_Clock ?pl = clock" by (simp_all add: mysql_pipeline_def)
  obtain res d where tx: "is_InTx (mysql_store e) (ingest_body (mysql_store e) r (clock (pi_tick p))) (pi_store p) = (res, d)" by fastforce
  obtain ares d' where audit: "writeIngestAudit ?pl r (clock (pi_tick p + 1)) d = (ares, d')" by fastforce
  have "res = None \<and> ares \<noteq> None \<and> pi_store p1 = d'"
    using assms(1-3) tx audit ingest_tx_audit(3) [OF tx]
    by (cases res; cases ares)
       (auto simp: persist_def pl Let_def mark_key_def has_raw_def same_tablesD split: prod.splits if_splits)
  moreover have "same_tables d d'" if "ares \<noteq> None"
    using audit that WriteAuditEntry_err(1)
    by (auto simp: writeIngestAudit_def mysql_pipeline_def split: sum.splits)
  ultimately have "tb_audit_log (pi_store p1) = tb_audit_log (pi_store p)"
    using ingest_tx_audit(1) [OF tx] by (simp add: same_tablesD)
  moreover obtain x where "persist ?pl r p1 = (x, p2)" using assms(4) by (metis surjective_pairing)
  ultimately show ?thesis using persist_keeps_audit assms(3) by metis
qed

text \<open>The connection breaks after the commit: statement 4 begins the transaction of the audit entry.\<close>

definition broken_audit_engine :: engine where
  "broken_audit_engine = ideal_engine\<lparr>eg_fault := (\<lambda>n. if n = 4 then Some (ErrText ''connection lost'') else None)\<rparr>"

theorem ingest_survives_failed_audit_witness:
  "\<exists>p1 p2 err. persist (mysql_pipeline broken_audit_engine memory_cache (\<lambda>n. 0) []) sample_line_record
        \<lparr>pi_store = empty_db, pi_cache = {}, pi_tick = 0\<rparr> = (Inl err, p1)
     \<and> snd (persist (mysql_pipeline broken_audit_engine memory_cache (\<lambda>n. 0) []) sample_line_record p1) = p2
     \<and> has_raw broken_audit_engine (pi_store p2) (rc_IdempotencyKey sample_line_record) \<and> tb_audit_log (pi_store p2) = []"
proof -
  let ?e = broken_audit_engine and ?p = "\<lparr>pi_store = empty_db, pi_cache = {}, pi_tick = 0\<rparr>"
  let ?pl = "mysql_pipeline ?e memory_cache (\<lambda>n. 0) []" and ?k = "rc_IdempotencyKey sample_line_record"
  obtain d where tx: "is_InTx (mysql_store ?e) (ingest_body (mysql_store ?e) sample_line_record 0) empty_db = (None, d)"
      "db_ops d = 4" "has_raw ?e d ?k"
    by (simp add: mysql_store_def Let_def my_InTx_def OpenMySQLStore_def broken_audit_engine_def ideal_engine_def tx_mark_def stmt_def ingest_body_def
        act_then_def my_InsertRawEvent_def my_InsertLedgerLine_def guarded_exec_def guard_inserts json_column_def
        insertNormalized_def sample_line_record_def empty_db_def has_raw_def raw_event_def sql_eq_def)
  have "json_marshal (ingest_audit_payload sample_line_record) = Inr (json_text (ingest_audit_payload sample_line_record))"
    by (simp add: json_marshal_def ingest_audit_payload_def)
  then have audit: "\<exists>err. writeIngestAudit ?pl sample_line_record 0 d = (Some err, d\<lparr>db_ops := 5\<rparr>)"
    using tx(2) by (simp add: writeIngestAudit_def mysql_pipeline_def my_WriteAuditEntry_def OpenMySQLStore_def tx_mark_def stmt_def
        broken_audit_engine_def)
  then obtain err p1 where p1: "persist ?pl sample_line_record ?p = (Inl err, p1)" "pi_store p1 = d\<lparr>db_ops := 5\<rparr>"
    using tx(1) by (auto simp: persist_def mysql_pipeline_def cache_of_def memory_cache_def memory_Seen_def Let_def)
  have "\<not> has_raw ?e (pi_store ?p) ?k" "has_raw ?e (pi_store p1) ?k"
    using tx(3) p1(2) by (simp_all add: has_raw_def empty_db_def)
  from ingest_survives_failed_audit [OF p1(1) this refl] p1(1) show ?thesis
    by (auto simp: empty_db_def)
qed

end
