(* ===== verification/Matcher_Engine.thy ===== *)
theory Matcher_Engine
  imports Store_Rows
begin

text \<open>
  Package \<^verbatim>\<open>internal/matcher\<close>: the report (\<^verbatim>\<open>report.go\<close>), group identifiers (\<^verbatim>\<open>idgen.go\<close>), the client of the
  advisory ranker (\<^verbatim>\<open>tier3.go\<close>) and the engine that runs a window (\<^verbatim>\<open>dispatcher.go\<close>). The engine calls its
  store through the interface \<^verbatim>\<open>ReconStore\<close>, a record of operations on an abstract state.

  What the process reads from outside is the record \<open>env\<close>: the clock and the random source, indexed by
  a counter of readings; the answer of the ranker to a request, with its body as the JSON decoder
  leaves it; and the order in which a Go map of \<open>k\<close> groups is ranged over.
\<close>

section \<open>The store interface\<close>

record 's ReconStore =
  rs_GetUnmatchedPaymentsInWindow :: "time \<Rightarrow> time \<Rightarrow> 's \<Rightarrow> PaymentCandidate list result \<times> 's"
  rs_GetPaymentsInWindow :: "time \<Rightarrow> time \<Rightarrow> 's \<Rightarrow> PaymentCandidate list result \<times> 's"
  rs_GetSettlementCandidates :: "string \<Rightarrow> time \<Rightarrow> time \<Rightarrow> 's \<Rightarrow> SettlementCandidate list result \<times> 's"
  rs_GetUnmatchedLedgerLines :: "time \<Rightarrow> time \<Rightarrow> 's \<Rightarrow> LedgerCandidate list result \<times> 's"
  rs_WriteMatchResult :: "MatchResultRow \<Rightarrow> 's act"
  rs_WriteExceptionLog :: "ExceptionRow \<Rightarrow> 's act"
  rs_WriteAuditEntry :: "AuditEntryRow \<Rightarrow> 's act"
  rs_SetLedgerMatchedPayment :: "int \<Rightarrow> string \<Rightarrow> 's act"

section \<open>report.go\<close>

text \<open>A Go map of counters: \<^verbatim>\<open>m[k]++\<close>.\<close>

fun bump :: "string \<Rightarrow> (string \<times> nat) list \<Rightarrow> (string \<times> nat) list" where
  "bump k [] = [(k, 1)]"
| "bump k ((j, n) # kvs) = (if j = k then (j, Suc n) # kvs else (j, n) # bump k kvs)"

record Report =
  rp_WindowStart :: time
  rp_WindowEnd :: time
  rp_MatchedByConfidence :: "(string \<times> nat) list"
  rp_ExceptionsByReason :: "(string \<times> nat) list"

definition NewReport :: "time \<Rightarrow> time \<Rightarrow> Report" where
  "NewReport start end' =
     \<lparr>rp_WindowStart = start, rp_WindowEnd = end', rp_MatchedByConfidence = [], rp_ExceptionsByReason = []\<rparr>"

definition recordMatched :: "string \<Rightarrow> Report \<Rightarrow> Report" where
  "recordMatched confidence report =
     report\<lparr>rp_MatchedByConfidence := bump confidence (rp_MatchedByConfidence report)\<rparr>"

definition report_recordException :: "string \<Rightarrow> Report \<Rightarrow> Report" where
  "report_recordException reason report =
     report\<lparr>rp_ExceptionsByReason := bump reason (rp_ExceptionsByReason report)\<rparr>"

definition TotalMatched :: "Report \<Rightarrow> nat" where
  "TotalMatched report = foldl (\<lambda>total (k, count). total + count) 0 (rp_MatchedByConfidence report)"

definition TotalExceptions :: "Report \<Rightarrow> nat" where
  "TotalExceptions report = foldl (\<lambda>total (k, count). total + count) 0 (rp_ExceptionsByReason report)"

section \<open>idgen.go\<close>

text \<open>The argument is what \<^verbatim>\<open>rand.Read\<close> leaves in the 16-byte buffer, or its error.\<close>

definition newMatchGroupID :: "nat list result \<Rightarrow> string result" where
  "newMatchGroupID read =
     (case read of
        Inl err \<Rightarrow> Inl (ErrWrap ''read random bytes: '' err [])
      | Inr buf \<Rightarrow>
          (let buf = buf[6 := ((buf ! 6) AND 0x0f) OR 0x40];
               buf = buf[8 := ((buf ! 8) AND 0x3f) OR 0x80];
               part = (\<lambda>i j. hex_encode (take (j - i) (drop i buf)))
           in Inr (part 0 4 @ ''-'' @ part 4 6 @ ''-'' @ part 6 8 @ ''-'' @ part 8 10 @ ''-'' @ part 10 16)))"

section \<open>tier3.go\<close>

text \<open>\<open>rk_Features\<close> is \<open>None\<close> for a nil map; the score is the text of its float64.\<close>

record RankedCandidate =
  rk_ID :: string
  rk_Score :: string
  rk_Features :: "(string \<times> json) list option"

definition ranked_json :: "RankedCandidate \<Rightarrow> json" where
  "ranked_json r =
     JStruct [(''id'', JStr (rk_ID r)), (''score'', JNum (rk_Score r)),
              (''features'', case rk_Features r of None \<Rightarrow> JNull | Some kvs \<Rightarrow> JObj kvs)]"

text \<open>The answer of the service: a transport error, or a status with the decoded body.\<close>

type_synonym rank_answer = "go_error + (int \<times> RankedCandidate list result)"

record env =
  ev_clock :: "nat \<Rightarrow> time"
  ev_rand :: "nat \<Rightarrow> nat list result"
  ev_http :: "nat \<Rightarrow> string \<Rightarrow> string \<Rightarrow> rank_answer"
  ev_range :: "nat \<Rightarrow> nat \<Rightarrow> nat list"

definition NewTier3Client :: "string \<Rightarrow> string option" where
  "NewTier3Client baseURL = (if baseURL = [] then None else Some baseURL)"

definition rank_request :: "Payment \<Rightarrow> SettlementLine list \<Rightarrow> json" where
  "rank_request payment candidates =
     JStruct [(''expected_net_paise'', JInt (NetAmount payment)),
       (''candidates'', if candidates = [] then JNull
          else JArr (map (\<lambda>c. JStruct [(''id'', JStr (sl_ID c)), (''credit_paise'', JInt (sl_CreditPaise c))]) candidates))]"

definition Rank ::
  "env \<Rightarrow> nat \<Rightarrow> string option \<Rightarrow> Payment \<Rightarrow> SettlementLine list \<Rightarrow> RankedCandidate list result" where
  "Rank env n client payment candidates =
     (case client of
        None \<Rightarrow> Inl (ErrText ''tier3 client not configured'')
      | Some baseURL \<Rightarrow>
          (case json_marshal (rank_request payment candidates) of
             Inl err \<Rightarrow> Inl (ErrWrap ''marshal rank request: '' err [])
           | Inr encoded \<Rightarrow>
               (case ev_http env n (baseURL @ ''/rank'') encoded of
                  Inl err \<Rightarrow> Inl (ErrWrap ''call fuzzy-ranker: '' err [])
                | Inr (status, body) \<Rightarrow>
                    if status \<noteq> 200 then Inl (ErrText (''fuzzy-ranker returned status '' @ itoa status))
                    else (case body of
                            Inl err \<Rightarrow> Inl (ErrWrap ''decode rank response: '' err [])
                          | Inr ranked \<Rightarrow> Inr ranked))))"

section \<open>dispatcher.go\<close>

definition defaultSLA :: "(string \<times> duration) list" where
  "defaultSLA = [(''card'', 4 * 24 * hour), (''netbanking'', 3 * 24 * hour), (''upi'', 1 * 24 * hour),
                 (''wallet'', 2 * 24 * hour)]"

definition fallbackSLA :: duration where "fallbackSLA = 5 * 24 * hour"
definition ledgerBookingLagWindow :: duration where "ledgerBookingLagWindow = 3 * 24 * hour"

definition slaFor :: "string \<Rightarrow> duration" where
  "slaFor method = (case map_of defaultSLA method of Some window \<Rightarrow> window | None \<Rightarrow> fallbackSLA)"

record 's Engine =
  gn_Store :: "'s ReconStore"
  gn_Env :: env
  gn_Tier3 :: "string option"

text \<open>The state of a run: the store, the counter of outside readings, the report being built.\<close>

record 's run =
  ru_store :: 's
  ru_tick :: nat
  ru_report :: Report

definition on_store :: "'s act \<Rightarrow> 's run act" where
  "on_store a s = (case a (ru_store s) of (err, st) \<Rightarrow> (err, s\<lparr>ru_store := st\<rparr>))"

subsection \<open>Conversions\<close>

definition toReconPayment :: "PaymentCandidate \<Rightarrow> duration \<Rightarrow> Payment" where
  "toReconPayment candidate sla =
     \<lparr>pay_ID = pc_PaymentID candidate, pay_OrderID = pc_OrderID candidate,
      pay_AmountPaise = pc_AmountPaise candidate, pay_FeePaise = pc_FeePaise candidate,
      pay_TaxPaise = pc_TaxPaise candidate, pay_Method = pc_Method candidate,
      pay_CapturedAt = pc_CapturedAt candidate, pay_SettlementSLA = sla\<rparr>"

definition toSettlementLines :: "SettlementCandidate list \<Rightarrow> SettlementLine list" where
  "toSettlementLines candidates =
     map (\<lambda>c. \<lparr>sl_ID = itoa (sc_ID c), sl_SettlementID = [], sl_EntityID = sc_EntityID c,
               sl_CreditPaise = sc_CreditPaise c, sl_Method = sc_Method c, sl_SettledAt = sc_SettledAt c\<rparr>)
       candidates"

definition toReconLedgerLine :: "LedgerCandidate \<Rightarrow> LedgerLine" where
  "toReconLedgerLine candidate =
     \<lparr>ll_ID = itoa (lc_ID candidate), ll_ReferenceID = lc_ReferenceID candidate,
      ll_AmountPaise = lc_AmountPaise candidate, ll_BookedAt = lc_BookedAt candidate\<rparr>"

text \<open>\<^verbatim>\<open>groups[payment.Method] = append(groups[payment.Method], payment)\<close>.\<close>

fun add_to_group ::
  "(string \<times> PaymentCandidate list) list \<Rightarrow> PaymentCandidate \<Rightarrow> (string \<times> PaymentCandidate list) list" where
  "add_to_group [] payment = [(pc_Method payment, [payment])]"
| "add_to_group ((m, g) # groups) payment =
     (if m = pc_Method payment then (m, g @ [payment]) # groups else (m, g) # add_to_group groups payment)"

definition groupByMethod :: "PaymentCandidate list \<Rightarrow> (string \<times> PaymentCandidate list) list" where
  "groupByMethod payments = foldl add_to_group [] payments"

subsection \<open>Recording outcomes\<close>

definition writeAudit :: "'s Engine \<Rightarrow> string \<Rightarrow> (string \<times> json) list \<Rightarrow> time \<Rightarrow> 's run act" where
  "writeAudit engine eventType payload at s =
     (case json_marshal (JObj payload) of
        Inl err \<Rightarrow> (Some (ErrWrap ''marshal audit payload: '' err []), s)
      | Inr encoded \<Rightarrow>
          wrap_err ''write audit entry: ''
            (on_store (rs_WriteAuditEntry (gn_Store engine)
               \<lparr>ae_EventType = eventType, ae_PayloadJSON = Some encoded, ae_CreatedAt = at\<rparr>)) s)"

text \<open>The common opening of both match recorders: evidence, group identifier, clock.\<close>

definition prepare_match ::
  "'s Engine \<Rightarrow> string \<Rightarrow> MatchResult \<Rightarrow> (string \<Rightarrow> string \<Rightarrow> time \<Rightarrow> 's run act) \<Rightarrow> 's run act" where
  "prepare_match engine what match k s =
     (case json_marshal (JObj (mr_Evidence match)) of
        Inl err \<Rightarrow> (Some (ErrWrap (''marshal '' @ what @ '' evidence: '') err []), s)
      | Inr evidence \<Rightarrow>
          (case newMatchGroupID (ev_rand (gn_Env engine) (ru_tick s)) of
             Inl err \<Rightarrow> (Some (ErrWrap ''generate match group id: '' err []), s\<lparr>ru_tick := ru_tick s + 1\<rparr>)
           | Inr groupID \<Rightarrow>
               k evidence groupID (ev_clock (gn_Env engine) (ru_tick s + 1)) (s\<lparr>ru_tick := ru_tick s + 2\<rparr>)))"

definition recordPaymentMatch :: "'s Engine \<Rightarrow> MatchResult \<Rightarrow> 's run act" where
  "recordPaymentMatch engine match =
     prepare_match engine ''match'' match (\<lambda>evidence groupID now.
       act_then (on_store (rs_WriteMatchResult (gn_Store engine)
           \<lparr>mw_MatchGroupID = groupID, mw_RecordType = ''payment'', mw_RecordID = mr_PaymentID match,
            mw_Confidence = mr_Confidence match, mw_RuleID = mr_RuleID match,
            mw_EvidenceJSON = Some evidence, mw_CreatedAt = now\<rparr>))
       (act_then (writeAudit engine ''MATCH_RESULT_WRITTEN''
           [(''match_group_id'', JStr groupID), (''record_type'', JStr ''payment''),
            (''record_id'', JStr (mr_PaymentID match)), (''confidence'', JStr (mr_Confidence match)),
            (''rule_id'', JStr (mr_RuleID match))] now)
         (\<lambda>s. (None, s\<lparr>ru_report := recordMatched (mr_Confidence match) (ru_report s)\<rparr>))))"

definition recordLedgerMatch :: "'s Engine \<Rightarrow> MatchResult \<Rightarrow> 's run act" where
  "recordLedgerMatch engine match =
     prepare_match engine ''ledger match'' match (\<lambda>evidence groupID now.
       act_then (on_store (rs_WriteMatchResult (gn_Store engine)
           \<lparr>mw_MatchGroupID = groupID, mw_RecordType = ''ledger'', mw_RecordID = mr_LedgerLineID match,
            mw_Confidence = mr_Confidence match, mw_RuleID = mr_RuleID match,
            mw_EvidenceJSON = Some evidence, mw_CreatedAt = now\<rparr>))
       (\<lambda>s. case parse_int64 (mr_LedgerLineID match) of
              Inl err \<Rightarrow> (Some (ErrWrap ''parse ledger line id: '' err []), s)
            | Inr ledgerLineID \<Rightarrow>
                act_then (on_store (rs_SetLedgerMatchedPayment (gn_Store engine) ledgerLineID (mr_PaymentID match)))
                (act_then (writeAudit engine ''LEDGER_MATCH_WRITTEN''
                    [(''match_group_id'', JStr groupID), (''record_type'', JStr ''ledger''),
                     (''record_id'', JStr (mr_LedgerLineID match)), (''payment_id'', JStr (mr_PaymentID match)),
                     (''rule_id'', JStr (mr_RuleID match))] now)
                  (\<lambda>s. (None, s\<lparr>ru_report := recordMatched (mr_Confidence match) (ru_report s)\<rparr>))) s))"

definition recordException :: "'s Engine \<Rightarrow> Exception \<Rightarrow> 's run act" where
  "recordException engine exn s =
     (case json_marshal (JObj (ex_Evidence exn)) of
        Inl err \<Rightarrow> (Some (ErrWrap ''marshal exception evidence: '' err []), s)
      | Inr evidence \<Rightarrow>
          (let now = ev_clock (gn_Env engine) (ru_tick s) in
           act_then (on_store (rs_WriteExceptionLog (gn_Store engine)
               \<lparr>xr_RecordType = ex_RecordType exn, xr_RecordID = ex_RecordID exn,
                xr_ReasonCode = ex_ReasonCode exn, xr_AmountAtRiskPaise = ex_AmountAtRiskPaise exn,
                xr_EvidenceJSON = Some evidence, xr_CreatedAt = now\<rparr>))
           (act_then (writeAudit engine ''EXCEPTION_LOGGED''
               [(''record_type'', JStr (ex_RecordType exn)), (''record_id'', JStr (ex_RecordID exn)),
                (''reason_code'', JStr (ex_ReasonCode exn))] now)
             (\<lambda>s. (None, s\<lparr>ru_report := report_recordException (ex_ReasonCode exn) (ru_report s)\<rparr>)))
           (s\<lparr>ru_tick := ru_tick s + 1\<rparr>)))"

subsection \<open>The two sides of a window\<close>

definition classifyAfterTier2 ::
  "'s Engine \<Rightarrow> nat \<Rightarrow> Payment \<Rightarrow> SettlementLine list \<Rightarrow> Exception" where
  "classifyAfterTier2 engine n payment candidates =
     (if gn_Tier3 engine = None \<or> length candidates = 0 then ClassifyPayment payment candidates
      else (case Rank (gn_Env engine) n (gn_Tier3 engine) payment candidates of
              Inl err \<Rightarrow> ClassifyPayment payment candidates
            | Inr ranked \<Rightarrow>
                if length ranked = 0 then ClassifyPayment payment candidates
                else payment_exception payment ReasonAmbiguous
                       [(''source'', JStr ''tier3_fuzzy_ranker''),
                        (''expected_net_paise'', JInt (NetAmount payment)),
                        (''ranked_candidates'', JArr (map ranked_json ranked))]))"

text \<open>The body of the inner loop; the reading of the ranker takes one tick.\<close>

definition settlePayment :: "'s Engine \<Rightarrow> duration \<Rightarrow> SettlementLine list \<Rightarrow> PaymentCandidate \<Rightarrow> 's run act" where
  "settlePayment engine sla candidates paymentRow =
     (let payment = toReconPayment paymentRow sla in
      case Tier1_TryMatch payment candidates of
        Some match \<Rightarrow> wrap_err (''record tier1 match for '' @ pay_ID payment @ '': '') (recordPaymentMatch engine match)
      | None \<Rightarrow>
          (case Tier2_TryMatch payment candidates of
             Some match \<Rightarrow> wrap_err (''record tier2 match for '' @ pay_ID payment @ '': '') (recordPaymentMatch engine match)
           | None \<Rightarrow>
               (\<lambda>s. let exn = classifyAfterTier2 engine (ru_tick s) payment candidates in
                    wrap_err (''record exception for '' @ pay_ID payment @ '': '')
                      (recordException engine exn) (s\<lparr>ru_tick := ru_tick s + 1\<rparr>))))"

definition settleGroup :: "'s Engine \<Rightarrow> time \<Rightarrow> time \<Rightarrow> string \<times> PaymentCandidate list \<Rightarrow> 's run act" where
  "settleGroup engine start end' mg s =
     (case mg of (method, members) \<Rightarrow>
        (let sla = slaFor method in
         case rs_GetSettlementCandidates (gn_Store engine) method start (time_add end' sla) (ru_store s) of
           (Inl err, st) \<Rightarrow>
             (Some (ErrWrap (''load settlement candidates for '' @ method @ '': '') err []), s\<lparr>ru_store := st\<rparr>)
         | (Inr candidateRows, st) \<Rightarrow>
             for_each (settlePayment engine sla (toSettlementLines candidateRows)) members (s\<lparr>ru_store := st\<rparr>)))"

definition in_range_order :: "env \<Rightarrow> nat \<Rightarrow> 'a list \<Rightarrow> 'a list" where
  "in_range_order env n xs = map ((!) xs) (ev_range env n (length xs))"

definition runSettlementSide :: "'s Engine \<Rightarrow> time \<Rightarrow> time \<Rightarrow> 's run act" where
  "runSettlementSide engine start end' s =
     (case rs_GetUnmatchedPaymentsInWindow (gn_Store engine) start end' (ru_store s) of
        (Inl err, st) \<Rightarrow> (Some (ErrWrap ''load unmatched payments: '' err []), s\<lparr>ru_store := st\<rparr>)
      | (Inr payments, st) \<Rightarrow>
          for_each (settleGroup engine start end')
            (in_range_order (gn_Env engine) (ru_tick s) (groupByMethod payments)) (s\<lparr>ru_store := st\<rparr>))"

definition settleLedgerLine :: "'s Engine \<Rightarrow> Payment list \<Rightarrow> LedgerCandidate \<Rightarrow> 's run act" where
  "settleLedgerLine engine payments ledgerRow =
     (let ledger = toReconLedgerLine ledgerRow in
      case TierL_TryExactMatch ledger payments of
        Some match \<Rightarrow> wrap_err (''record ledger match for '' @ ll_ID ledger @ '': '') (recordLedgerMatch engine match)
      | None \<Rightarrow>
          wrap_err (''record ledger exception for '' @ ll_ID ledger @ '': '')
            (recordException engine (TierL_Classify ledger payments)))"

definition runLedgerSide :: "'s Engine \<Rightarrow> time \<Rightarrow> time \<Rightarrow> 's run act" where
  "runLedgerSide engine start end' s =
     (let ledgerWindowStart = time_add start (- 2 * ledgerBookingLagWindow);
          ledgerWindowEnd = time_add end' (2 * ledgerBookingLagWindow) in
      case rs_GetUnmatchedLedgerLines (gn_Store engine) ledgerWindowStart ledgerWindowEnd (ru_store s) of
        (Inl err, st) \<Rightarrow> (Some (ErrWrap ''load unmatched ledger lines: '' err []), s\<lparr>ru_store := st\<rparr>)
      | (Inr ledgerRows, st) \<Rightarrow>
          if length ledgerRows = 0 then (None, s\<lparr>ru_store := st\<rparr>)
          else (case rs_GetPaymentsInWindow (gn_Store engine) (time_add start (- ledgerBookingLagWindow))
                       (time_add end' ledgerBookingLagWindow) st of
                  (Inl err, st2) \<Rightarrow> (Some (ErrWrap ''load payments for ledger tier: '' err []), s\<lparr>ru_store := st2\<rparr>)
                | (Inr paymentRows, st2) \<Rightarrow>
                    for_each (settleLedgerLine engine (map (\<lambda>p. toReconPayment p 0) paymentRows)) ledgerRows
                      (s\<lparr>ru_store := st2\<rparr>)))"

definition RunWindow :: "'s Engine \<Rightarrow> time \<Rightarrow> time \<Rightarrow> nat \<Rightarrow> 's \<Rightarrow> go_error option \<times> 's run" where
  "RunWindow engine start end' tick st =
     act_then (wrap_err ''settlement side: '' (runSettlementSide engine start end'))
       (wrap_err ''ledger side: '' (runLedgerSide engine start end'))
       \<lparr>ru_store = st, ru_tick = tick, ru_report = NewReport start end'\<rparr>"

section \<open>Basic facts\<close>

lemma add_to_group_mset:
  "mset (concat (map snd (add_to_group groups p))) = mset (concat (map snd groups)) + {#p#}"
  by (induction groups p rule: add_to_group.induct) auto

lemma groupByMethod_mset: "mset (concat (map snd (groupByMethod ps))) = mset ps"
proof -
  have "mset (concat (map snd (foldl add_to_group groups ps))) = mset (concat (map snd groups)) + mset ps" for groups
    by (induction ps arbitrary: groups) (simp_all add: add_to_group_mset)
  then show ?thesis by (simp add: groupByMethod_def)
qed

lemma add_to_group_methods:
  assumes "\<forall>(m, g) \<in> set groups. \<forall>p \<in> set g. pc_Method p = m"
  shows "\<forall>(m, g) \<in> set (add_to_group groups p). \<forall>p \<in> set g. pc_Method p = m"
  using assms by (induction groups p rule: add_to_group.induct) (auto split: if_splits)

lemma groupByMethod_methods: "(m, g) \<in> set (groupByMethod ps) \<Longrightarrow> p \<in> set g \<Longrightarrow> pc_Method p = m"
proof -
  have "\<forall>(m, g) \<in> set (foldl add_to_group groups ps). \<forall>p \<in> set g. pc_Method p = m"
    if "\<forall>(m, g) \<in> set groups. \<forall>p \<in> set g. pc_Method p = m" for groups
    using that
  proof (induction ps arbitrary: groups)
    case (Cons p ps)
    show ?case using Cons.IH [OF add_to_group_methods [OF Cons.prems]] by simp
  qed simp
  from this [of "[]"] show "(m, g) \<in> set (groupByMethod ps) \<Longrightarrow> p \<in> set g \<Longrightarrow> pc_Method p = m"
    by (auto simp: groupByMethod_def)
qed

text \<open>Every group is ranged over once.\<close>

definition full_ranges :: "env \<Rightarrow> bool" where
  "full_ranges env \<longleftrightarrow> (\<forall>n k. mset (ev_range env n k) = mset [0 ..< k])"

lemma set_in_range_order:
  assumes "full_ranges env"
  shows "set (in_range_order env n xs) = set xs"
proof -
  have "mset (ev_range env n (length xs)) = mset [0 ..< length xs]"
    using assms unfolding full_ranges_def by blast
  then have "set (ev_range env n (length xs)) = {0 ..< length xs}"
    by (metis set_mset_mset set_upt)
  then show ?thesis by (simp add: in_range_order_def nth_image)
qed

lemma full_ranges_nil: "full_ranges env \<Longrightarrow> ev_range env n 0 = []"
  unfolding full_ranges_def by (metis mset_zero_iff_right upt_0)

lemma slaFor_pos: "0 < slaFor m"
  by (simp add: slaFor_def defaultSLA_def fallbackSLA_def hour_def)

lemma foldl_counts: "foldl (\<lambda>t (k, c). t + c) a kvs = a + sum_list (map snd (kvs :: (string \<times> nat) list))"
  by (induction kvs arbitrary: a) auto

lemma sum_bump: "sum_list (map snd (bump k kvs)) = Suc (sum_list (map snd kvs))"
  by (induction k kvs rule: bump.induct) auto

lemma TotalMatched_record [simp]: "TotalMatched (recordMatched c r) = Suc (TotalMatched r)"
  by (simp add: TotalMatched_def recordMatched_def foldl_counts sum_bump)

lemma TotalExceptions_record [simp]: "TotalExceptions (report_recordException c r) = Suc (TotalExceptions r)"
  by (simp add: TotalExceptions_def report_recordException_def foldl_counts sum_bump)

lemma Totals_other [simp]:
  "TotalMatched (report_recordException c r) = TotalMatched r"
  "TotalExceptions (recordMatched c r) = TotalExceptions r"
  by (simp_all add: TotalMatched_def TotalExceptions_def report_recordException_def recordMatched_def)

end
