(* ===== verification/Matcher_Laws.thy ===== *)
theory Matcher_Laws
  imports Matcher_Engine MySQL_Laws
begin

text \<open>
  What a run of the matching engine guarantees. The locale \<open>recon_invariant\<close> carries an invariant of the
  store through a whole window, whatever errors occur; the locale \<open>recon_store\<close> is the contract of the
  interface \<^verbatim>\<open>ReconStore\<close>, and proves that a window run without error leaves no payment without an
  outcome. Both are interpreted on the MySQL store.
\<close>

section \<open>Invariants through a run\<close>

definition keeps_read :: "('s \<Rightarrow> bool) \<Rightarrow> ('s \<Rightarrow> 'a result \<times> 's) \<Rightarrow> bool" where
  "keeps_read P q \<longleftrightarrow> (\<forall>s. P s \<longrightarrow> P (snd (q s)))"

lemma keeps_readD: "keeps_read P q \<Longrightarrow> P s \<Longrightarrow> q s = (r, s') \<Longrightarrow> P s'"
  unfolding keeps_read_def by (metis snd_conv)

abbreviation stored :: "('s \<Rightarrow> bool) \<Rightarrow> 's run \<Rightarrow> bool" where
  "stored P \<equiv> (\<lambda>s. P (ru_store s))"

lemma keeps_on_store [keeps_rules]: "keeps P a \<Longrightarrow> keeps (stored P) (on_store a)"
  by (auto simp: keeps_def on_store_def split: prod.splits)

locale recon_invariant =
  fixes rs :: "'s ReconStore" and P :: "'s \<Rightarrow> bool"
  assumes read_unmatched: "keeps_read P (rs_GetUnmatchedPaymentsInWindow rs a b)"
    and read_payments: "keeps_read P (rs_GetPaymentsInWindow rs a b)"
    and read_settlements: "keeps_read P (rs_GetSettlementCandidates rs m a b)"
    and read_ledger: "keeps_read P (rs_GetUnmatchedLedgerLines rs a b)"
    and write_match: "keeps P (rs_WriteMatchResult rs row)"
    and write_exception: "keeps P (rs_WriteExceptionLog rs x)"
    and write_audit: "keeps P (rs_WriteAuditEntry rs entry)"
    and set_matched: "keeps P (rs_SetLedgerMatchedPayment rs i p)"
begin

lemma keeps_writeAudit [keeps_rules]:
  "gn_Store engine = rs \<Longrightarrow> keeps (stored P) (writeAudit engine ty payload at)"
  using keeps_wrap_err [OF keeps_on_store [OF write_audit]]
  unfolding keeps_def by (auto simp: writeAudit_def split: sum.splits)

lemma keeps_report [keeps_rules]: "keeps (stored P) (\<lambda>s. (None, s\<lparr>ru_report := f s\<rparr>))"
  by (simp add: keeps_def)

lemma keeps_prepare_match [keeps_rules]:
  "(\<And>ev g t. keeps (stored P) (k ev g t)) \<Longrightarrow> keeps (stored P) (prepare_match engine what match k)"
  by (auto simp: keeps_def prepare_match_def split: sum.splits)

lemma keeps_recordPaymentMatch [keeps_rules]:
  assumes "gn_Store engine = rs"
  shows "keeps (stored P) (recordPaymentMatch engine match)"
  unfolding recordPaymentMatch_def assms by (intro keeps_rules write_match assms)

lemma keeps_recordLedgerMatch [keeps_rules]:
  assumes "gn_Store engine = rs"
  shows "keeps (stored P) (recordLedgerMatch engine match)"
proof -
  have parsed: "keeps (stored P) (\<lambda>s. case x of Inl err \<Rightarrow> (Some (f err), s) | Inr j \<Rightarrow> a j s)"
    if "\<And>j. keeps (stored P) (a j)" for x :: "int result" and f a
    using that by (cases x) (simp_all add: keeps_def)
  show ?thesis
    unfolding recordLedgerMatch_def assms by (intro keeps_rules write_match set_matched parsed assms)
qed

lemma keeps_recordException [keeps_rules]:
  assumes "gn_Store engine = rs"
  shows "keeps (stored P) (recordException engine exn)"
proof -
  have "keeps (stored P) (act_then (on_store (rs_WriteExceptionLog rs row)) (act_then (writeAudit engine ty payload at)
      (\<lambda>s. (None, s\<lparr>ru_report := f s\<rparr>))))" for row ty payload at f
    by (intro keeps_rules write_exception assms)
  then show ?thesis
    by (simp add: keeps_def recordException_def Let_def assms split: sum.splits)
qed

lemma keeps_settlePayment [keeps_rules]:
  assumes "gn_Store engine = rs"
  shows "keeps (stored P) (settlePayment engine sla cs p)"
proof -
  have "keeps (stored P) (\<lambda>s. wrap_err pre (recordException engine (f s)) (s\<lparr>ru_tick := g s\<rparr>))" for pre f g
    using keeps_recordException [OF assms] by (auto simp: keeps_def)
  then show ?thesis
    by (simp add: settlePayment_def Let_def keeps_wrap_err keeps_recordPaymentMatch assms split: option.splits)
qed

lemma keeps_settleGroup [keeps_rules]:
  assumes "gn_Store engine = rs"
  shows "keeps (stored P) (settleGroup engine start end' mg)"
proof -
  have body: "keeps (stored P) (for_each (settlePayment engine sla cs) members)" for sla cs members
    by (intro keeps_rules assms)
  show ?thesis
    unfolding keeps_def settleGroup_def Let_def assms
    using keeps_readD [OF read_settlements] body [unfolded keeps_def]
    by (simp split: prod.splits sum.splits)
qed

lemma keeps_runSettlementSide [keeps_rules]:
  assumes "gn_Store engine = rs"
  shows "keeps (stored P) (runSettlementSide engine start end')"
proof -
  have body: "keeps (stored P) (for_each (settleGroup engine start end') groups)" for groups
    by (intro keeps_rules assms)
  show ?thesis
    unfolding keeps_def runSettlementSide_def assms
    using keeps_readD [OF read_unmatched] body [unfolded keeps_def]
    by (simp split: prod.splits sum.splits)
qed

lemma keeps_settleLedgerLine [keeps_rules]:
  "gn_Store engine = rs \<Longrightarrow> keeps (stored P) (settleLedgerLine engine ps l)"
  by (simp add: settleLedgerLine_def Let_def keeps_wrap_err keeps_recordLedgerMatch keeps_recordException
      split: option.splits)

lemma keeps_runLedgerSide [keeps_rules]:
  assumes "gn_Store engine = rs"
  shows "keeps (stored P) (runLedgerSide engine start end')"
proof -
  have body: "keeps (stored P) (for_each (settleLedgerLine engine ps) ls)" for ps ls
    by (intro keeps_rules assms)
  show ?thesis
    unfolding keeps_def
  proof (intro allI impI)
    fix s :: "'s run" assume "P (ru_store s)"
    let ?lo = "time_add start (- 2 * ledgerBookingLagWindow)" and ?hi = "time_add end' (2 * ledgerBookingLagWindow)"
    obtain q st where q: "rs_GetUnmatchedLedgerLines rs ?lo ?hi (ru_store s) = (q, st)" by fastforce
    obtain q2 st2 where q2: "rs_GetPaymentsInWindow rs (time_add start (- ledgerBookingLagWindow))
        (time_add end' ledgerBookingLagWindow) st = (q2, st2)" by fastforce
    have "P st" using keeps_readD [OF read_ledger \<open>P (ru_store s)\<close> q] .
    moreover have "P st2" using keeps_readD [OF read_payments \<open>P st\<close> q2] .
    ultimately show "P (ru_store (snd (runLedgerSide engine start end' s)))"
      using body [unfolded keeps_def] q q2
      by (cases q; cases q2) (simp_all add: runLedgerSide_def Let_def assms)
  qed
qed

lemma keeps_RunWindow:
  assumes "gn_Store engine = rs" and "P st" and "RunWindow engine start end' tick st = (r, s')"
  shows "P (ru_store s')"
proof -
  have "keeps (stored P) (act_then (wrap_err ''settlement side: '' (runSettlementSide engine start end'))
      (wrap_err ''ledger side: '' (runLedgerSide engine start end')))"
    by (intro keeps_rules assms(1))
  from keepsD [OF this _ assms(3) [unfolded RunWindow_def]] assms(2) show ?thesis by simp
qed

end

section \<open>The contract of a reconciliation store\<close>

text \<open>
  \<open>covered s i\<close>: payment \<open>i\<close> has a match or an open exception; \<open>captured s a b\<close>: the payments captured in
  \<open>[a, b)\<close>. An outcome is never taken away, the read of unmatched payments is exact, and a written
  outcome covers its payment.
\<close>

locale recon_store =
  fixes rs :: "'s ReconStore"
    and covered :: "'s \<Rightarrow> string \<Rightarrow> bool"
    and captured :: "'s \<Rightarrow> time \<Rightarrow> time \<Rightarrow> string set"
  assumes covered_kept: "recon_invariant rs (\<lambda>s. covered s i)"
    and captured_kept: "recon_invariant rs (\<lambda>s. captured s a b = C)"
    and unmatched_exact: "rs_GetUnmatchedPaymentsInWindow rs a b s = (Inr ps, s') \<Longrightarrow>
        pc_PaymentID ` set ps = {i \<in> captured s a b. \<not> covered s i}"
    and match_covers: "rs_WriteMatchResult rs m s = (None, s') \<Longrightarrow> mw_RecordType m = ''payment'' \<Longrightarrow>
        covered s' (mw_RecordID m)"
    and exception_covers: "rs_WriteExceptionLog rs x s = (None, s') \<Longrightarrow> xr_RecordType x = ''payment'' \<Longrightarrow>
        covered s' (xr_RecordID x)"

sublocale recon_store \<subseteq> cov: recon_invariant rs "\<lambda>s. covered s i" for i
  by (rule covered_kept)

sublocale recon_store \<subseteq> cap: recon_invariant rs "\<lambda>s. captured s a b = C" for a b C
  by (rule captured_kept)

lemma tier_PaymentID:
  "Tier1_TryMatch p cs = Some r \<Longrightarrow> mr_PaymentID r = pay_ID p"
  "Tier2_TryMatch p cs = Some r \<Longrightarrow> mr_PaymentID r = pay_ID p"
  by (auto simp: Tier1_TryMatch_def Tier2_TryMatch_def Let_def split: if_splits)

lemma classifyAfterTier2_record:
  "ex_RecordType (classifyAfterTier2 engine n p cs) = ''payment''"
  "ex_RecordID (classifyAfterTier2 engine n p cs) = pay_ID p"
  by (auto simp: classifyAfterTier2_def ClassifyPayment_def payment_exception_def Let_def split: sum.splits)

lemma on_success_on_store:
  "(\<And>s s'. a s = (None, s') \<Longrightarrow> Q s') \<Longrightarrow> on_success (\<lambda>_. True) (on_store a) (stored Q)"
  by (auto simp: on_success_def on_store_def split: prod.splits)

lemma on_success_prepare_match:
  "(\<And>ev g t. on_success (\<lambda>_. True) (k ev g t) Q) \<Longrightarrow> on_success (\<lambda>_. True) (prepare_match engine what match k) Q"
  by (auto simp: on_success_def prepare_match_def split: sum.splits)

context recon_store
begin

lemma recordPaymentMatch_covers:
  assumes "gn_Store engine = rs"
  shows "on_success (\<lambda>_. True) (recordPaymentMatch engine match) (stored (\<lambda>s. covered s (mr_PaymentID match)))"
  unfolding recordPaymentMatch_def assms
proof (intro on_success_prepare_match on_success_then_keeps)
  fix ev g t
  show "on_success (\<lambda>_. True) (on_store (rs_WriteMatchResult rs
      \<lparr>mw_MatchGroupID = g, mw_RecordType = ''payment'', mw_RecordID = mr_PaymentID match,
       mw_Confidence = mr_Confidence match, mw_RuleID = mr_RuleID match, mw_EvidenceJSON = Some ev,
       mw_CreatedAt = t\<rparr>)) (stored (\<lambda>s. covered s (mr_PaymentID match)))"
    by (rule on_success_on_store) (use match_covers in force)
qed (intro keeps_act_then cov.keeps_writeAudit cov.keeps_report assms)+

lemma recordException_covers:
  assumes "gn_Store engine = rs" and "ex_RecordType exn = ''payment''"
    and "recordException engine exn s = (None, s')"
  shows "covered (ru_store s') (ex_RecordID exn)"
proof -
  let ?Q = "stored (\<lambda>s. covered s (ex_RecordID exn))"
  have run: "on_success (\<lambda>_. True) (act_then (on_store (rs_WriteExceptionLog rs
       \<lparr>xr_RecordType = ex_RecordType exn, xr_RecordID = ex_RecordID exn, xr_ReasonCode = ex_ReasonCode exn,
        xr_AmountAtRiskPaise = ex_AmountAtRiskPaise exn, xr_EvidenceJSON = Some ev, xr_CreatedAt = t\<rparr>))
     (act_then (writeAudit engine ty payload t) (\<lambda>s. (None, s\<lparr>ru_report := f s\<rparr>)))) ?Q" for ev t ty payload f
  proof (intro on_success_then_keeps)
    show "on_success (\<lambda>_. True) (on_store (rs_WriteExceptionLog rs
       \<lparr>xr_RecordType = ex_RecordType exn, xr_RecordID = ex_RecordID exn, xr_ReasonCode = ex_ReasonCode exn,
        xr_AmountAtRiskPaise = ex_AmountAtRiskPaise exn, xr_EvidenceJSON = Some ev, xr_CreatedAt = t\<rparr>)) ?Q"
      by (rule on_success_on_store) (use exception_covers assms(2) in force)
  qed (intro keeps_act_then cov.keeps_writeAudit cov.keeps_report assms(1))+
  show ?thesis
    using assms(3)
    by (auto simp: recordException_def Let_def assms(1) split: sum.splits intro: on_successD [OF run TrueI])
qed

lemma settlePayment_covers:
  assumes "gn_Store engine = rs" and "settlePayment engine sla cs p s = (None, s')"
  shows "covered (ru_store s') (pc_PaymentID p)"
proof -
  have id: "pay_ID (toReconPayment p sla) = pc_PaymentID p" by (simp add: toReconPayment_def)
  have match: "covered (ru_store t') (mr_PaymentID r)" if "recordPaymentMatch engine r t = (None, t')" for r t t'
    using on_successD [OF recordPaymentMatch_covers [OF assms(1)] TrueI that] .
  have exn: "covered (ru_store t') (pc_PaymentID p)"
    if "recordException engine (classifyAfterTier2 engine n (toReconPayment p sla) cs) t = (None, t')" for n t t'
    using recordException_covers [OF assms(1) _ that] by (simp add: classifyAfterTier2_record id)
  show ?thesis
    using assms(2) match exn tier_PaymentID id
    by (auto simp: settlePayment_def Let_def split: option.splits) metis+
qed

lemma settleGroup_covers:
  assumes "gn_Store engine = rs" and "settleGroup engine start end' (m, g) s = (None, s')" and "p \<in> set g"
  shows "covered (ru_store s') (pc_PaymentID p)"
proof -
  obtain cs t where "for_each (settlePayment engine (slaFor m) cs) g t = (None, s')"
    using assms(2) by (auto simp: settleGroup_def Let_def split: prod.splits sum.splits)
  then have "True \<and> (\<forall>p \<in> set g. covered (ru_store s') (pc_PaymentID p))"
    by (rule for_each_all)
       (auto intro: settlePayment_covers [OF assms(1)] keepsD [OF cov.keeps_settlePayment [OF assms(1)]])
  with assms(3) show ?thesis by blast
qed

text \<open>After a settlement side without error every payment captured in the window has an outcome.\<close>

lemma settlement_side_covers:
  assumes "gn_Store engine = rs" and "full_ranges (gn_Env engine)"
    and "runSettlementSide engine start end' s = (None, s')"
    and "i \<in> captured (ru_store s) start end'"
  shows "covered (ru_store s') i"
proof -
  obtain ps st where read: "rs_GetUnmatchedPaymentsInWindow rs start end' (ru_store s) = (Inr ps, st)"
    and loop: "for_each (settleGroup engine start end')
        (in_range_order (gn_Env engine) (ru_tick s) (groupByMethod ps)) (s\<lparr>ru_store := st\<rparr>) = (None, s')"
    using assms(3) by (auto simp: runSettlementSide_def assms(1) split: prod.splits sum.splits)
  show ?thesis
  proof (cases "covered (ru_store s) i")
    case True
    then show ?thesis using keepsD [OF cov.keeps_runSettlementSide [OF assms(1)] _ assms(3)] by simp
  next
    case False
    then obtain p where p: "p \<in> set ps" "i = pc_PaymentID p"
      using unmatched_exact [OF read] assms(4) by auto
    have "p \<in> set (concat (map snd (groupByMethod ps)))"
      using p(1) groupByMethod_mset [of ps] by (metis set_mset_mset)
    then obtain m g where mg: "(m, g) \<in> set (groupByMethod ps)" "p \<in> set g" by auto
    have "True \<and> (\<forall>mg \<in> set (in_range_order (gn_Env engine) (ru_tick s) (groupByMethod ps)).
        \<forall>p \<in> set (snd mg). covered (ru_store s') (pc_PaymentID p))"
      using loop
      by (rule for_each_all)
         (auto intro: settleGroup_covers [OF assms(1)] keepsD [OF cov.keeps_settleGroup [OF assms(1)]])
    with mg p(2) show ?thesis by (auto simp: set_in_range_order [OF assms(2)])
  qed
qed

text \<open>A second run over the same window only reads.\<close>

lemma rerun_only_reads:
  assumes "gn_Store engine = rs" and "full_ranges (gn_Env engine)"
    and "runSettlementSide engine start end' s = (None, s')"
  shows "snd (runSettlementSide engine start end' s')
       = s'\<lparr>ru_store := snd (rs_GetUnmatchedPaymentsInWindow rs start end' (ru_store s'))\<rparr>"
proof -
  obtain q st where q: "rs_GetUnmatchedPaymentsInWindow rs start end' (ru_store s') = (q, st)" by fastforce
  have "captured (ru_store s') start end' = captured (ru_store s) start end'"
    using keepsD [OF cap.keeps_runSettlementSide [OF assms(1)] refl assms(3)] .
  then have all: "covered (ru_store s') i" if "i \<in> captured (ru_store s') start end'" for i
    using settlement_side_covers [OF assms] that by simp
  have "ps = []" if "q = Inr ps" for ps
    using unmatched_exact [OF q [unfolded that]] all by (metis (mono_tags, lifting) empty_Collect_eq image_is_empty set_empty)
  then show ?thesis
    using q by (cases q) (simp_all add: runSettlementSide_def assms(1) groupByMethod_def in_range_order_def
        full_ranges_nil [OF assms(2)])
qed

end

section \<open>The MySQL store as a reconciliation store\<close>

definition mysql_recon :: "engine \<Rightarrow> db ReconStore" where
  "mysql_recon e =
     (let store = OpenMySQLStore e in
      \<lparr>rs_GetUnmatchedPaymentsInWindow = my_GetUnmatchedPaymentsInWindow store,
       rs_GetPaymentsInWindow = my_GetPaymentsInWindow store,
       rs_GetSettlementCandidates = my_GetSettlementCandidates store,
       rs_GetUnmatchedLedgerLines = my_GetUnmatchedLedgerLines store,
       rs_WriteMatchResult = my_WriteMatchResult store, rs_WriteExceptionLog = my_WriteExceptionLog store,
       rs_WriteAuditEntry = my_WriteAuditEntry store,
       rs_SetLedgerMatchedPayment = my_SetLedgerMatchedPayment store\<rparr>)"

lemmas mysql_recon_defs = mysql_recon_def OpenMySQLStore_def Let_def
lemmas my_read_defs = my_GetUnmatchedPaymentsInWindow_def my_GetPaymentsInWindow_def
  my_GetSettlementCandidates_def my_GetUnmatchedLedgerLines_def

text \<open>The effect of each write, with the row it appends.\<close>

lemma WriteMatchResult_cases:
  assumes "my_WriteMatchResult store m d = (r, d')"
  obtains err where "r = Some err" "d' = d\<lparr>db_ops := Suc (db_ops d)\<rparr>"
    | i ev t where "r = None"
      "d' = d\<lparr>db_ops := Suc (db_ops d),
              tb_match_results := tb_match_results d @ [(i, m\<lparr>mw_EvidenceJSON := Some ev, mw_CreatedAt := t\<rparr>)]\<rparr>"
  using assms unfolding my_WriteMatchResult_def
  by (auto simp: Let_def wrap_err_def json_column_def split: prod.splits option.splits elim!: guarded_cases)

lemma WriteExceptionLog_cases:
  assumes "my_WriteExceptionLog store x d = (r, d')"
  obtains err where "r = Some err" "d' = d\<lparr>db_ops := Suc (db_ops d)\<rparr>"
    | i ev t where "r = None"
      "d' = d\<lparr>db_ops := Suc (db_ops d), tb_exception_log := tb_exception_log d @
          [\<lparr>er_ID = i, er_RecordType = xr_RecordType x, er_RecordID = xr_RecordID x,
            er_ReasonCode = xr_ReasonCode x, er_AmountAtRiskPaise = xr_AmountAtRiskPaise x,
            er_EvidenceJSON = ev, er_ResolvedAt = None, er_CreatedAt = t\<rparr>]\<rparr>"
  using assms unfolding my_WriteExceptionLog_def
  by (auto simp: Let_def wrap_err_def json_column_def split: prod.splits option.splits elim!: guarded_cases)

lemma SetLedgerMatchedPayment_cases:
  assumes "my_SetLedgerMatchedPayment store i p d = (r, d')"
  obtains err where "r = Some err" "d' = d\<lparr>db_ops := Suc (db_ops d)\<rparr>"
    | "r = None"
      "d' = d\<lparr>db_ops := Suc (db_ops d), tb_ledger_lines :=
          map (\<lambda>l. if ld_id l = i \<and> ld_matched_payment_id l = None
                    then l\<lparr>ld_matched_payment_id := Some p\<rparr> else l) (tb_ledger_lines d)\<rparr>"
  using assms unfolding my_SetLedgerMatchedPayment_def
  by (auto simp: Let_def wrap_err_def split: prod.splits option.splits if_splits elim!: guarded_cases)

text \<open>An invariant that outcome rows, audit rows and the references of ledger lines keep.\<close>

lemma mysql_invariantI:
  assumes ops: "\<And>d n. P d \<Longrightarrow> db_ops d \<le> n \<Longrightarrow> P (d\<lparr>db_ops := n\<rparr>)"
    and led: "\<And>d ls. P d \<Longrightarrow> map ld_id ls = map ld_id (tb_ledger_lines d) \<Longrightarrow> P (d\<lparr>tb_ledger_lines := ls\<rparr>)"
    and match: "\<And>d row. P d \<Longrightarrow> P (d\<lparr>tb_match_results := tb_match_results d @ [row]\<rparr>)"
    and exn: "\<And>d row. P d \<Longrightarrow> P (d\<lparr>tb_exception_log := tb_exception_log d @ [row]\<rparr>)"
    and aud: "\<And>d d' entry r. P d \<Longrightarrow> my_WriteAuditEntry (OpenMySQLStore e) entry d = (r, d') \<Longrightarrow> P d'"
  shows "recon_invariant (mysql_recon e) P"
proof -
  have query: "P (snd (query e' pre f d))" if "P d" for e' pre d and f :: "nat \<Rightarrow> 'b result"
    using ops [OF that, of "db_ops d + 2"] query_same [of e' pre f d] by (metis le_add1 surjective_pairing)
  note ops1 = ops [of _ "Suc (db_ops _)", OF _ le_SucI [OF order_refl]]
  have m: "P (d\<lparr>db_ops := Suc (db_ops d), tb_match_results := tb_match_results d @ [row]\<rparr>)" if "P d" for d row
    using match [OF ops1 [OF that], of row] by simp
  have x: "P (d\<lparr>db_ops := Suc (db_ops d), tb_exception_log := tb_exception_log d @ [row]\<rparr>)" if "P d" for d row
    using exn [OF ops1 [OF that], of row] by simp
  show ?thesis
  proof
    show "keeps P (rs_WriteMatchResult (mysql_recon e) row)" for row
      by (rule keepsI) (auto simp: mysql_recon_defs intro: ops1 m elim!: WriteMatchResult_cases)
    show "keeps P (rs_WriteExceptionLog (mysql_recon e) row)" for row
      by (rule keepsI) (auto simp: mysql_recon_defs intro: ops1 x elim!: WriteExceptionLog_cases)
    have l: "P (d\<lparr>db_ops := Suc (db_ops d), tb_ledger_lines := map f (tb_ledger_lines d)\<rparr>)"
      if "P d" "\<And>l. ld_id (f l) = ld_id l" for d f
      using led [OF ops1 [OF that(1)], of "map f (tb_ledger_lines d)"] that(2) by simp
    show "keeps P (rs_SetLedgerMatchedPayment (mysql_recon e) i p)" for i p
      by (rule keepsI) (auto simp: mysql_recon_defs intro!: ops1 l elim!: SetLedgerMatchedPayment_cases)
    show "keeps P (rs_WriteAuditEntry (mysql_recon e) entry)" for entry
      by (rule keepsI) (auto simp: mysql_recon_def Let_def intro: aud)
  qed (auto simp: keeps_read_def mysql_recon_defs my_read_defs intro: query)
qed

text \<open>The outcomes and the captured payments of a database.\<close>

definition my_covered :: "engine \<Rightarrow> db \<Rightarrow> string \<Rightarrow> bool" where
  "my_covered e d i \<longleftrightarrow> has_match e d i \<or> has_open_exception e d i"

definition my_captured :: "engine \<Rightarrow> db \<Rightarrow> time \<Rightarrow> time \<Rightarrow> string set" where
  "my_captured e d a b = (\<lambda>op. pr_PaymentID (snd op)) ` {op \<in> set (tb_payments d). captured_in e a b (snd op)}"

text \<open>A database that behaves as assumed; it satisfies the contract and keeps its audit log verifiable.\<close>

locale sound_db =
  fixes e :: engine
  assumes sound: "sound_engine e"

lemma GetUnmatched_exact:
  assumes "sound_engine e" and "my_GetUnmatchedPaymentsInWindow (OpenMySQLStore e) a b d = (Inr ps, d')"
  shows "pc_PaymentID ` set ps = {i \<in> my_captured e d a b. \<not> my_covered e d i}"
proof -
  have ps: "set ps = payment_candidate ` {op \<in> set (tb_payments d). captured_in e a b (snd op)
      \<and> \<not> my_covered e d (pr_PaymentID (snd op))}"
    using assms(2)
    by (auto simp: my_GetUnmatchedPaymentsInWindow_def OpenMySQLStore_def Let_def my_covered_def split_beta
        set_scan_rows [OF sound_engineD(2) [OF assms(1)]] dest!: query_Inr)
  have "pc_PaymentID (payment_candidate op) = pr_PaymentID (snd op)" for op
    by (simp add: payment_candidate_def split_beta)
  then show ?thesis by (auto simp: ps my_captured_def image_image)
qed

lemma my_covered_kept: "recon_invariant (mysql_recon e) (\<lambda>d. my_covered e d i)"
  by (rule mysql_invariantI)
     (auto simp: my_covered_def has_match_def has_open_exception_def list_ex_iff elim!: WriteAuditEntry_cases)

lemma my_captured_kept: "recon_invariant (mysql_recon e) (\<lambda>d. my_captured e d a b = C)"
proof (rule mysql_invariantI)
  fix d d' entry r
  assume "my_captured e d a b = C" and "my_WriteAuditEntry (OpenMySQLStore e) entry d = (r, d')"
  then show "my_captured e d' a b = C"
    by (elim WriteAuditEntry_cases) (simp_all add: my_captured_def)
qed (simp_all add: my_captured_def)

sublocale sound_db \<subseteq> my_rs: recon_store "mysql_recon e" "my_covered e" "my_captured e"
proof (rule recon_store.intro)
  show "recon_invariant (mysql_recon e) (\<lambda>d. my_covered e d i)" for i by (rule my_covered_kept)
  show "recon_invariant (mysql_recon e) (\<lambda>d. my_captured e d a b = C)" for a b C by (rule my_captured_kept)
next
  fix a b d ps d'
  assume "rs_GetUnmatchedPaymentsInWindow (mysql_recon e) a b d = (Inr ps, d')"
  then show "pc_PaymentID ` set ps = {i \<in> my_captured e d a b. \<not> my_covered e d i}"
    using GetUnmatched_exact [OF sound] by (simp add: mysql_recon_def Let_def)
next
  fix m d d'
  assume "rs_WriteMatchResult (mysql_recon e) m d = (None, d')" and "mw_RecordType m = ''payment''"
  then show "my_covered e d' (mw_RecordID m)"
    by (auto simp: mysql_recon_def Let_def my_covered_def has_match_def sql_eq_def elim!: WriteMatchResult_cases)
next
  fix x d d'
  assume "rs_WriteExceptionLog (mysql_recon e) x d = (None, d')" and "xr_RecordType x = ''payment''"
  then show "my_covered e d' (xr_RecordID x)"
    by (auto simp: mysql_recon_def Let_def my_covered_def has_open_exception_def sql_eq_def
        elim!: WriteExceptionLog_cases)
qed

sublocale sound_db \<subseteq> aud: recon_invariant "mysql_recon e" "audit_ok e"
  by (rule mysql_invariantI)
     (auto intro: audit_ok_write [OF sound] audit_ok_later [OF sound])

context sound_db
begin

lemma is_recon_store: "recon_store (mysql_recon e) (my_covered e) (my_captured e)"
  by unfold_locales

lemma keeps_audit_ok: "recon_invariant (mysql_recon e) (audit_ok e)"
  by unfold_locales

end

lemma mysql_recon_store: "sound_engine e \<Longrightarrow> recon_store (mysql_recon e) (my_covered e) (my_captured e)"
  by (rule sound_db.is_recon_store [OF sound_db.intro])

lemma mysql_audit_kept: "sound_engine e \<Longrightarrow> recon_invariant (mysql_recon e) (audit_ok e)"
  by (rule sound_db.keeps_audit_ok [OF sound_db.intro])

interpretation ideal: sound_db ideal_engine
  by unfold_locales (rule sound_ideal_engine)

end
