(* ===== verification/Matcher_Props.thy ===== *)
theory Matcher_Props
  imports Matcher_Laws
begin

text \<open>
  Properties of whole runs of the matching engine over the MySQL store: no payment is left behind, a
  second run changes nothing on the settlement side, the audit log stays verifiable and complete, the
  per-window loading of candidates loses no decision. Then what the engine does at its edges: ledger
  lines near the window, a settlement line claimed twice, an outcome whose audit row is lost.
\<close>

section \<open>Runs without error\<close>

text \<open>A property of the run state that every recorded outcome and every read re-establishes.\<close>

locale run_success =
  fixes engine :: "'s Engine" and B :: "'s run \<Rightarrow> bool"
  assumes tick: "B s \<Longrightarrow> B (s\<lparr>ru_tick := n\<rparr>)"
    and unmatched: "B s \<Longrightarrow> rs_GetUnmatchedPaymentsInWindow (gn_Store engine) a b (ru_store s) = (q, st) \<Longrightarrow>
          B (s\<lparr>ru_store := st\<rparr>)"
    and payments: "B s \<Longrightarrow> rs_GetPaymentsInWindow (gn_Store engine) a b (ru_store s) = (q', st) \<Longrightarrow>
          B (s\<lparr>ru_store := st\<rparr>)"
    and settlements: "B s \<Longrightarrow> rs_GetSettlementCandidates (gn_Store engine) m a b (ru_store s) = (q'', st) \<Longrightarrow>
          B (s\<lparr>ru_store := st\<rparr>)"
    and ledger: "B s \<Longrightarrow> rs_GetUnmatchedLedgerLines (gn_Store engine) a b (ru_store s) = (q''', st) \<Longrightarrow>
          B (s\<lparr>ru_store := st\<rparr>)"
    and payment_match: "on_success B (recordPaymentMatch engine r) B"
    and ledger_match: "on_success B (recordLedgerMatch engine r) B"
    and exn: "on_success B (recordException engine x) B"
begin

lemma settlePayment_success: "on_success B (settlePayment engine sla cs p) B"
proof -
  have "on_success B (\<lambda>s. wrap_err pre (recordException engine (f s)) (s\<lparr>ru_tick := g s\<rparr>)) B" for pre f g
    using exn tick unfolding on_success_def by simp blast
  then show ?thesis
    by (simp add: settlePayment_def Let_def on_success_wrap_err payment_match split: option.splits)
qed

lemma settleGroup_success: "on_success B (settleGroup engine start end' mg) B"
proof -
  have "on_success B (for_each (settlePayment engine sla cs) g) B" for sla cs g
    by (intro on_success_for_each settlePayment_success)
  then show ?thesis
    unfolding on_success_def settleGroup_def Let_def
    by (auto split: prod.splits sum.splits dest: settlements)
qed

lemma runSettlementSide_success: "on_success B (runSettlementSide engine start end') B"
proof -
  have "on_success B (for_each (settleGroup engine start end') gs) B" for gs
    by (intro on_success_for_each settleGroup_success)
  then show ?thesis
    unfolding on_success_def runSettlementSide_def
    by (auto split: prod.splits sum.splits dest: unmatched)
qed

lemma runLedgerSide_success: "on_success B (runLedgerSide engine start end') B"
proof -
  have "on_success B (settleLedgerLine engine ps l) B" for ps l
    by (simp add: settleLedgerLine_def Let_def on_success_wrap_err ledger_match exn split: option.splits)
  then have loop: "on_success B (for_each (settleLedgerLine engine ps) ls) B" for ps ls
    by (intro on_success_for_each)
  show ?thesis
    unfolding on_success_def
  proof (intro allI impI)
    fix s s' :: "'s run"
    assume s: "B s" and run: "runLedgerSide engine start end' s = (None, s')"
    obtain q st where q: "rs_GetUnmatchedLedgerLines (gn_Store engine)
        (time_add start (- 2 * ledgerBookingLagWindow)) (time_add end' (2 * ledgerBookingLagWindow)) (ru_store s) = (q, st)"
      by fastforce
    obtain q2 st2 where q2: "rs_GetPaymentsInWindow (gn_Store engine) (time_add start (- ledgerBookingLagWindow))
        (time_add end' ledgerBookingLagWindow) st = (q2, st2)" by fastforce
    have st: "B (s\<lparr>ru_store := st\<rparr>)" by (rule ledger [OF s q])
    then have "B (s\<lparr>ru_store := st2\<rparr>)"
      using payments [OF st, of "time_add start (- ledgerBookingLagWindow)" "time_add end' ledgerBookingLagWindow" q2 st2] q2
      by simp
    with st show "B s'"
      using run q q2 on_successD [OF loop]
      by (cases q; cases q2) (auto simp: runLedgerSide_def Let_def split: if_splits)
  qed
qed

lemma RunWindow_success:
  assumes "B \<lparr>ru_store = st, ru_tick = n, ru_report = NewReport start end'\<rparr>"
    and "RunWindow engine start end' n st = (None, s')"
  shows "B s'"
proof -
  have "on_success B (act_then (wrap_err ''settlement side: '' (runSettlementSide engine start end'))
      (wrap_err ''ledger side: '' (runLedgerSide engine start end'))) B"
    by (intro on_success_then [of B _ B] on_success_wrap_err runSettlementSide_success runLedgerSide_success)
  from on_successD [OF this assms(1)] assms(2) show ?thesis by (simp add: RunWindow_def)
qed

end

section \<open>Counting outcomes and audit rows\<close>

definition mysql_engine :: "engine \<Rightarrow> env \<Rightarrow> string option \<Rightarrow> db Engine" where
  "mysql_engine e env tier3 = \<lparr>gn_Store = mysql_recon e, gn_Env = env, gn_Tier3 = tier3\<rparr>"

lemma mysql_engine_simps [simp]:
  "gn_Store (mysql_engine e env t3) = mysql_recon e" "gn_Env (mysql_engine e env t3) = env"
  "gn_Tier3 (mysql_engine e env t3) = t3"
  by (simp_all add: mysql_engine_def)

text \<open>
  The books of a run: audit rows exceed outcome rows by \<open>c\<close>, match rows exceed the reported matches by
  \<open>m\<close>, exception rows the reported exceptions by \<open>x\<close>.
\<close>

definition books :: "int \<Rightarrow> int \<Rightarrow> int \<Rightarrow> db run \<Rightarrow> bool" where
  "books c m x s \<longleftrightarrow>
     int (length (tb_audit_log (ru_store s)))
       = c + int (length (tb_match_results (ru_store s))) + int (length (tb_exception_log (ru_store s)))
     \<and> int (length (tb_match_results (ru_store s))) = m + int (TotalMatched (ru_report s))
     \<and> int (length (tb_exception_log (ru_store s))) = x + int (TotalExceptions (ru_report s))"

lemma books_tick [simp]: "books c m x (s\<lparr>ru_tick := n\<rparr>) = books c m x s"
  by (simp add: books_def)

lemma books_same:
  "books c m x s \<Longrightarrow> same_tables (ru_store s) d \<Longrightarrow> books c m x (s\<lparr>ru_store := d\<rparr>)"
  by (simp add: books_def same_tablesD)

lemma mysql_reads_same:
  "rs_GetUnmatchedPaymentsInWindow (mysql_recon e) a b d = (q, d') \<Longrightarrow> same_tables d d'"
  "rs_GetPaymentsInWindow (mysql_recon e) a b d = (q, d') \<Longrightarrow> same_tables d d'"
  "rs_GetSettlementCandidates (mysql_recon e) m a b d = (q'', d') \<Longrightarrow> same_tables d d'"
  "rs_GetUnmatchedLedgerLines (mysql_recon e) a b d = (q''', d') \<Longrightarrow> same_tables d d'"
  by (auto simp: mysql_recon_defs my_read_defs dest!: query_same)

lemma books_match:
  "on_success (books c m x) (on_store (rs_WriteMatchResult (mysql_recon e) row)) (books (c - 1) (m + 1) x)"
  by (auto simp: on_success_def on_store_def mysql_recon_def Let_def books_def
      split: prod.splits elim!: WriteMatchResult_cases)

lemma books_exception:
  "on_success (books c m x) (on_store (rs_WriteExceptionLog (mysql_recon e) row)) (books (c - 1) m (x + 1))"
  by (auto simp: on_success_def on_store_def mysql_recon_def Let_def books_def
      split: prod.splits elim!: WriteExceptionLog_cases)

lemma books_set_ledger:
  "on_success (books c m x) (on_store (rs_SetLedgerMatchedPayment (mysql_recon e) i p)) (books c m x)"
  by (auto simp: on_success_def on_store_def mysql_recon_def Let_def books_def
      split: prod.splits elim!: SetLedgerMatchedPayment_cases)

lemma books_audit:
  "on_success (books (c - 1) m x) (writeAudit (mysql_engine e env t3) ty payload at) (books c m x)"
  by (auto simp: on_success_def writeAudit_def on_store_def mysql_recon_def Let_def books_def
      split: prod.splits sum.splits elim!: WriteAuditEntry_cases)

lemma books_report:
  "on_success (books c (m + 1) x) (\<lambda>s. (None, s\<lparr>ru_report := recordMatched k (ru_report s)\<rparr>)) (books c m x)"
  "on_success (books c m (x + 1)) (\<lambda>s. (None, s\<lparr>ru_report := report_recordException k (ru_report s)\<rparr>)) (books c m x)"
  by (auto simp: on_success_def books_def)

lemma books_prepare_match:
  assumes "\<And>ev g t. on_success (books c m x) (k ev g t) Q"
  shows "on_success (books c m x) (prepare_match engine what match k) Q"
  unfolding on_success_def
  by (auto simp: prepare_match_def split: sum.splits intro: on_successD [OF assms, rotated])

interpretation bk: run_success "mysql_engine e env t3" "books c m x"
  for e env t3 c m x
proof
  show "on_success (books c m x) (recordPaymentMatch (mysql_engine e env t3) r) (books c m x)" for r
    unfolding recordPaymentMatch_def mysql_engine_simps
    by (intro books_prepare_match on_success_then [OF books_match on_success_then [OF books_audit books_report(1)]])
  show "on_success (books c m x) (recordLedgerMatch (mysql_engine e env t3) r) (books c m x)" for r
  proof -
    have parsed: "on_success P (\<lambda>s. case v of Inl err \<Rightarrow> (Some (f err), s) | Inr j \<Rightarrow> a j s) Q"
      if "\<And>j. on_success P (a j) Q" for v :: "int result" and f a and P Q :: "db run \<Rightarrow> bool"
      using that by (cases v) (simp_all add: on_success_def)
    show ?thesis
      unfolding recordLedgerMatch_def mysql_engine_simps
      by (intro books_prepare_match on_success_then [OF books_match] parsed
          on_success_then [OF books_set_ledger on_success_then [OF books_audit books_report(1)]])
  qed
  show "on_success (books c m x) (recordException (mysql_engine e env t3) exn) (books c m x)" for exn
  proof -
    have run: "on_success (books c m x) (act_then (on_store (rs_WriteExceptionLog (mysql_recon e) row))
        (act_then (writeAudit (mysql_engine e env t3) ty payload t)
          (\<lambda>s. (None, s\<lparr>ru_report := report_recordException k (ru_report s)\<rparr>)))) (books c m x)" for row ty payload t k
      by (rule on_success_then [OF books_exception on_success_then [OF books_audit books_report(2)]])
    show ?thesis
      unfolding on_success_def
      by (auto simp: recordException_def Let_def split: sum.splits intro: on_successD [OF run, rotated])
  qed
qed (auto intro: books_same dest: mysql_reads_same)

section \<open>A concrete run\<close>

text \<open>A fault-free database, a fixed clock and random source.\<close>

definition sample_env :: env where
  "sample_env = \<lparr>ev_clock = (\<lambda>n. 0), ev_rand = (\<lambda>n. Inr (replicate 16 7)),
     ev_http = (\<lambda>n url body. Inl (ErrText ''connection refused'')), ev_range = (\<lambda>n k. [0 ..< k])\<rparr>"

lemma full_ranges_sample: "full_ranges sample_env"
  by (simp add: full_ranges_def sample_env_def)

definition sample_payment_row :: PaymentRow where
  "sample_payment_row = \<lparr>pr_PaymentID = ''pay_1'', pr_OrderID = ''order_1'', pr_AmountPaise = 100000,
     pr_FeePaise = 2000, pr_TaxPaise = 360, pr_Currency = ''INR'', pr_Method = ''card'', pr_Status = ''captured'',
     pr_CapturedAt = Some 0, pr_SourceEventAt = 0\<rparr>"

definition sample_db :: db where
  "sample_db = empty_db\<lparr>tb_payments := [(Some ''order_1'', sample_payment_row)]\<rparr>"

text \<open>On this database the first audit row of a run is always written.\<close>

lemma writeAudit_ideal:
  assumes "kvs \<noteq> []" and "list_all (\<lambda>(k, v). plain k) kvs" and "distinct (map fst kvs)"
    and "tb_audit_log (ru_store s) = []"
  shows "\<exists>row. writeAudit (mysql_engine ideal_engine env t3) ty (map (\<lambda>(k, v). (k, JStr v)) kvs) at s
       = (None, s\<lparr>ru_store := (ru_store s)\<lparr>db_ops := db_ops (ru_store s) + 4, tb_audit_log := [row]\<rparr>\<rparr>)"
proof -
  let ?p = "JObj (map (\<lambda>(k, v). (k, JStr v)) kvs)"
  have enc: "json_marshal ?p = Inr (json_text ?p)"
    by (simp add: json_marshal_def list_all_iff split_beta)
  have "\<exists>row. my_WriteAuditEntry (OpenMySQLStore ideal_engine)
      \<lparr>ae_EventType = ty, ae_PayloadJSON = Some (json_text ?p), ae_CreatedAt = at\<rparr> (ru_store s)
      = (None, (ru_store s)\<lparr>db_ops := db_ops (ru_store s) + 4, tb_audit_log := [row]\<rparr>)"
    by (rule ideal_first_audit [OF assms])
  then show ?thesis
    by (auto simp del: json_text.simps simp add: writeAudit_def enc on_store_def mysql_recon_def Let_def)
qed

lemma plain_texts [simp]:
  "plain ''record_type''" "plain ''record_id''" "plain ''reason_code''" "plain ''payment''" "plain ''ledger''"
  "plain ''pay_1''" "plain ''1''" "plain ReasonNoCandidate" "plain ReasonLedgerOrphan"
  by (simp_all add: plain_char_def reason_defs)

text \<open>Recording an exception there writes its row, its audit row and its count.\<close>

lemma recordException_ideal:
  assumes "tb_audit_log (ru_store s) = []" and "json_supported (JObj (ex_Evidence exn))"
  shows "\<exists>row t. recordException (mysql_engine ideal_engine env t3) exn s
       = (None, s\<lparr>ru_tick := ru_tick s + 1, ru_report := report_recordException (ex_ReasonCode exn) (ru_report s),
            ru_store := (ru_store s)\<lparr>db_ops := db_ops (ru_store s) + 5, tb_audit_log := [row],
              tb_exception_log := tb_exception_log (ru_store s) @
                [\<lparr>er_ID = int (db_ops (ru_store s) + 1), er_RecordType = ex_RecordType exn, er_RecordID = ex_RecordID exn,
                  er_ReasonCode = ex_ReasonCode exn, er_AmountAtRiskPaise = ex_AmountAtRiskPaise exn,
                  er_EvidenceJSON = json_text (JObj (ex_Evidence exn)), er_ResolvedAt = None, er_CreatedAt = t\<rparr>]\<rparr>\<rparr>)"
proof -
  let ?kvs = "[(''record_type'', ex_RecordType exn), (''record_id'', ex_RecordID exn), (''reason_code'', ex_ReasonCode exn)]"
  have payload: "map (\<lambda>(k, v). (k, JStr v)) ?kvs = [(''record_type'', JStr (ex_RecordType exn)),
      (''record_id'', JStr (ex_RecordID exn)), (''reason_code'', JStr (ex_ReasonCode exn))]" by simp
  have audit: "\<exists>row. writeAudit (mysql_engine ideal_engine env t3) ty (map (\<lambda>(k, v). (k, JStr v)) ?kvs) at u
      = (None, u\<lparr>ru_store := (ru_store u)\<lparr>db_ops := db_ops (ru_store u) + 4, tb_audit_log := [row]\<rparr>\<rparr>)"
    if "tb_audit_log (ru_store u) = []" for ty at u
    using that by (intro writeAudit_ideal) (simp_all add: plain_char_def)
  let ?t = "truncate_us (ev_clock env (ru_tick s))"
  let ?u = "s\<lparr>ru_tick := ru_tick s + 1, ru_store := (ru_store s)\<lparr>db_ops := db_ops (ru_store s) + 1,
      tb_exception_log := tb_exception_log (ru_store s) @
                [\<lparr>er_ID = int (db_ops (ru_store s) + 1), er_RecordType = ex_RecordType exn, er_RecordID = ex_RecordID exn,
                  er_ReasonCode = ex_ReasonCode exn, er_AmountAtRiskPaise = ex_AmountAtRiskPaise exn,
                  er_EvidenceJSON = json_text (JObj (ex_Evidence exn)), er_ResolvedAt = None, er_CreatedAt = ?t\<rparr>]\<rparr>\<rparr>"
  obtain row where row: "writeAudit (mysql_engine ideal_engine env t3) ''EXCEPTION_LOGGED''
      [(''record_type'', JStr (ex_RecordType exn)), (''record_id'', JStr (ex_RecordID exn)),
       (''reason_code'', JStr (ex_ReasonCode exn))] (ev_clock env (ru_tick s)) ?u
      = (None, ?u\<lparr>ru_store := (ru_store ?u)\<lparr>db_ops := db_ops (ru_store ?u) + 4, tb_audit_log := [row]\<rparr>\<rparr>)"
    using audit [of ?u "''EXCEPTION_LOGGED''" "ev_clock env (ru_tick s)"] assms(1) unfolding payload by auto
  have "json_marshal (JObj (ex_Evidence exn)) = Inr (json_text (JObj (ex_Evidence exn)))"
    using assms(2) by (simp add: json_marshal_def)
  then have "recordException (mysql_engine ideal_engine env t3) exn s
      = (None, s\<lparr>ru_tick := ru_tick s + 1, ru_report := report_recordException (ex_ReasonCode exn) (ru_report s),
            ru_store := (ru_store s)\<lparr>db_ops := db_ops (ru_store s) + 5, tb_audit_log := [row],
              tb_exception_log := tb_exception_log (ru_store s) @
                [\<lparr>er_ID = int (db_ops (ru_store s) + 1), er_RecordType = ex_RecordType exn, er_RecordID = ex_RecordID exn,
                  er_ReasonCode = ex_ReasonCode exn, er_AmountAtRiskPaise = ex_AmountAtRiskPaise exn,
                  er_EvidenceJSON = json_text (JObj (ex_Evidence exn)), er_ResolvedAt = None, er_CreatedAt = ?t\<rparr>]\<rparr>\<rparr>)"
    using row
    by (simp del: json_text.simps json_supported.simps add: recordException_def Let_def act_then_def on_store_def mysql_recon_def my_WriteExceptionLog_def
        OpenMySQLStore_def wrap_err_def guarded_exec_def stmt_def json_column_def or_empty_object_def ideal_engine_def)
  then show ?thesis by blast
qed

lemmas ideal_read = mysql_recon_def my_read_defs query_def OpenMySQLStore_def ideal_engine_def Let_def
  scan_rows_def captured_in_def

definition sample_candidate :: PaymentCandidate where
  "sample_candidate = \<lparr>pc_PaymentID = ''pay_1'', pc_OrderID = ''order_1'', pc_AmountPaise = 100000,
     pc_FeePaise = 2000, pc_TaxPaise = 360, pc_Method = ''card'', pc_CapturedAt = 0\<rparr>"

lemma sample_unmatched:
  "rs_GetUnmatchedPaymentsInWindow (mysql_recon ideal_engine) 0 day sample_db
   = (Inr [sample_candidate], sample_db\<lparr>db_ops := 2\<rparr>)"
  by (simp add: ideal_read sample_db_def sample_payment_row_def empty_db_def has_match_def has_open_exception_def
      payment_candidate_def truncate_us_def time_defs sample_candidate_def)

lemma sample_settlements:
  "rs_GetSettlementCandidates (mysql_recon ideal_engine) m a b (sample_db\<lparr>db_ops := n\<rparr>)
   = (Inr [], sample_db\<lparr>db_ops := n + 2\<rparr>)"
  by (simp add: ideal_read sample_db_def empty_db_def)

lemma sample_settle:
  assumes empty: "tb_audit_log (ru_store s) = []"
  shows "\<exists>row t. settlePayment (mysql_engine ideal_engine env None) sla [] sample_candidate s
     = (None, s\<lparr>ru_tick := ru_tick s + 2, ru_report := report_recordException ReasonNoCandidate (ru_report s),
          ru_store := (ru_store s)\<lparr>db_ops := db_ops (ru_store s) + 5, tb_audit_log := [row],
            tb_exception_log := tb_exception_log (ru_store s) @
              [\<lparr>er_ID = int (db_ops (ru_store s) + 1), er_RecordType = ''payment'', er_RecordID = ''pay_1'',
                er_ReasonCode = ReasonNoCandidate, er_AmountAtRiskPaise = 100000, er_EvidenceJSON = ''{}'',
                er_ResolvedAt = None, er_CreatedAt = t\<rparr>]\<rparr>\<rparr>)"
proof -
  let ?x = "payment_exception (toReconPayment sample_candidate sla) ReasonNoCandidate []"
  have x: "ex_RecordType ?x = ''payment''" "ex_RecordID ?x = ''pay_1''" "ex_ReasonCode ?x = ReasonNoCandidate"
    "ex_AmountAtRiskPaise ?x = 100000" "ex_Evidence ?x = []"
    by (simp_all add: payment_exception_def toReconPayment_def sample_candidate_def)
  have "settlePayment (mysql_engine ideal_engine env None) sla [] sample_candidate s
      = wrap_err (''record exception for '' @ pay_ID (toReconPayment sample_candidate sla) @ '': '')
          (recordException (mysql_engine ideal_engine env None) ?x) (s\<lparr>ru_tick := ru_tick s + 1\<rparr>)"
    by (simp add: settlePayment_def Tier1_TryMatch_def Tier2_TryMatch_def classifyAfterTier2_def ClassifyPayment_def Let_def)
  moreover obtain row t where "recordException (mysql_engine ideal_engine env None) ?x (s\<lparr>ru_tick := ru_tick s + 1\<rparr>)
     = (None, s\<lparr>ru_tick := ru_tick s + 2, ru_report := report_recordException ReasonNoCandidate (ru_report s),
          ru_store := (ru_store s)\<lparr>db_ops := db_ops (ru_store s) + 5, tb_audit_log := [row],
            tb_exception_log := tb_exception_log (ru_store s) @
              [\<lparr>er_ID = int (db_ops (ru_store s) + 1), er_RecordType = ''payment'', er_RecordID = ''pay_1'',
                er_ReasonCode = ReasonNoCandidate, er_AmountAtRiskPaise = 100000, er_EvidenceJSON = ''{}'',
                er_ResolvedAt = None, er_CreatedAt = t\<rparr>]\<rparr>\<rparr>)"
    using recordException_ideal [of "s\<lparr>ru_tick := ru_tick s + 1\<rparr>" ?x env None] empty unfolding x
    by (auto simp: plain_char_def)
  ultimately show ?thesis by (auto simp: wrap_err_def)
qed

lemma sample_settlement_side:
  assumes "full_ranges env"
  shows "\<exists>s. runSettlementSide (mysql_engine ideal_engine env None) 0 day
         \<lparr>ru_store = sample_db, ru_tick = n, ru_report = NewReport 0 day\<rparr> = (None, s)
       \<and> tb_ledger_lines (ru_store s) = [] \<and> length (tb_exception_log (ru_store s)) = 1"
proof -
  have "mset (ev_range env n 1) = mset [0 ..< 1]" using assms unfolding full_ranges_def by blast
  then have "ev_range env n 1 = [0]" by simp
  then have groups: "in_range_order env n (groupByMethod [sample_candidate]) = [(''card'', [sample_candidate])]"
    by (simp add: in_range_order_def groupByMethod_def sample_candidate_def)
  let ?s = "\<lparr>ru_store = sample_db\<lparr>db_ops := 4\<rparr>, ru_tick = n, ru_report = NewReport 0 day\<rparr>"
  obtain row t where "settlePayment (mysql_engine ideal_engine env None) (slaFor ''card'') [] sample_candidate ?s
     = (None, ?s\<lparr>ru_tick := ru_tick ?s + 2, ru_report := report_recordException ReasonNoCandidate (ru_report ?s),
          ru_store := (ru_store ?s)\<lparr>db_ops := db_ops (ru_store ?s) + 5, tb_audit_log := [row],
            tb_exception_log := tb_exception_log (ru_store ?s) @
              [\<lparr>er_ID = int (db_ops (ru_store ?s) + 1), er_RecordType = ''payment'', er_RecordID = ''pay_1'',
                er_ReasonCode = ReasonNoCandidate, er_AmountAtRiskPaise = 100000, er_EvidenceJSON = ''{}'',
                er_ResolvedAt = None, er_CreatedAt = t\<rparr>]\<rparr>\<rparr>)"
    using sample_settle [of ?s env "slaFor ''card''"] by (auto simp: sample_db_def empty_db_def)
  then show ?thesis
    by (simp add: runSettlementSide_def sample_unmatched groups settleGroup_def sample_settlements Let_def
        toSettlementLines_def act_then_def) (simp add: sample_db_def empty_db_def)
qed

lemma sample_run:
  assumes "full_ranges env"
  shows "\<exists>s. RunWindow (mysql_engine ideal_engine env None) 0 day n sample_db = (None, s)
       \<and> length (tb_exception_log (ru_store s)) = 1"
proof -
  obtain s where s: "runSettlementSide (mysql_engine ideal_engine env None) 0 day
      \<lparr>ru_store = sample_db, ru_tick = n, ru_report = NewReport 0 day\<rparr> = (None, s)"
    "tb_ledger_lines (ru_store s) = []" "length (tb_exception_log (ru_store s)) = 1"
    using sample_settlement_side [OF assms] by blast
  have "runLedgerSide (mysql_engine ideal_engine env None) 0 day s
      = (None, s\<lparr>ru_store := (ru_store s)\<lparr>db_ops := db_ops (ru_store s) + 2\<rparr>\<rparr>)"
    using s(2) by (simp add: runLedgerSide_def ideal_read)
  with s show ?thesis
    by (auto simp: RunWindow_def act_then_def wrap_err_def)
qed

section \<open>Properties of a window\<close>

lemma window_covered:
  assumes "sound_engine e" and "full_ranges env"
    and "RunWindow (mysql_engine e env tier3) start end' n d = (None, s)"
    and "(order_id, p) \<in> set (tb_payments d)" and "captured_in e start end' p"
  shows "has_match e (ru_store s) (pr_PaymentID p) \<or> has_open_exception e (ru_store s) (pr_PaymentID p)"
proof -
  obtain s1 where s1: "runSettlementSide (mysql_engine e env tier3) start end'
      \<lparr>ru_store = d, ru_tick = n, ru_report = NewReport start end'\<rparr> = (None, s1)"
    and s2: "runLedgerSide (mysql_engine e env tier3) start end' s1 = (None, s)"
    using assms(3) by (auto simp: RunWindow_def act_then_None_iff)
  have "pr_PaymentID p \<in> my_captured e d start end'"
    using assms(4,5) by (force simp: my_captured_def)
  then have "my_covered e (ru_store s1) (pr_PaymentID p)"
    using recon_store.settlement_side_covers [OF mysql_recon_store [OF assms(1)] _ _ s1] assms(2) by simp
  then have "my_covered e (ru_store s) (pr_PaymentID p)"
    using keepsD [OF recon_invariant.keeps_runLedgerSide [OF my_covered_kept] _ s2] by simp
  then show ?thesis by (simp add: my_covered_def)
qed

text \<open>
  C1: no payment is left behind: after a run of a window that reports no error, every payment captured
  in \<open>[start, end)\<close> has a match result or an open exception, whatever the candidates, the order in which
  methods are visited, the answers of the advisory ranker and the order of the rows.
\<close>

theorem window_covers_every_payment:
  assumes "sound_engine e" and "full_ranges env"
    and "RunWindow (mysql_engine e env tier3) start end' n d = (None, s)"
    and "(order_id, p) \<in> set (tb_payments d)" and "captured_in e start end' p"
  shows "has_match e (ru_store s) (pr_PaymentID p) \<or> has_open_exception e (ru_store s) (pr_PaymentID p)"
  using assms by (rule window_covered)

theorem window_covers_every_payment_witness:
  "\<exists>s. RunWindow (mysql_engine ideal_engine sample_env None) 0 day 0 sample_db = (None, s)
       \<and> (has_match ideal_engine (ru_store s) (pr_PaymentID sample_payment_row)
          \<or> has_open_exception ideal_engine (ru_store s) (pr_PaymentID sample_payment_row))"
proof -
  obtain s where s: "RunWindow (mysql_engine ideal_engine sample_env None) 0 day 0 sample_db = (None, s)"
    using sample_run [OF full_ranges_sample] by blast
  have "(Some ''order_1'', sample_payment_row) \<in> set (tb_payments sample_db)"
    "captured_in ideal_engine 0 day sample_payment_row"
    by (simp_all add: sample_db_def captured_in_def sample_payment_row_def ideal_engine_def truncate_us_def time_defs)
  from window_covers_every_payment [OF sound_ideal_engine full_ranges_sample s this] s show ?thesis by blast
qed

text \<open>
  C9: running the settlement side of a window a second time, after a first run without error, changes
  no table and counts nothing new in the report: it only reads, even if that read fails.
\<close>

theorem settlement_rerun_is_idle:
  assumes "sound_engine e" and "full_ranges env"
    and "runSettlementSide (mysql_engine e env tier3) start end' s = (None, s1)"
    and "runSettlementSide (mysql_engine e env tier3) start end' s1 = (r, s2)"
  shows "same_tables (ru_store s1) (ru_store s2) \<and> ru_report s2 = ru_report s1"
proof -
  have "snd (runSettlementSide (mysql_engine e env tier3) start end' s1)
      = s1\<lparr>ru_store := snd (rs_GetUnmatchedPaymentsInWindow (mysql_recon e) start end' (ru_store s1))\<rparr>"
    using recon_store.rerun_only_reads [OF mysql_recon_store [OF assms(1)] _ _ assms(3)] assms(2)
    by simp
  then show ?thesis
    using assms(4) mysql_reads_same(1) [OF surjective_pairing] by simp
qed

theorem settlement_rerun_is_idle_witness:
  "\<exists>s1 s2 r. runSettlementSide (mysql_engine ideal_engine sample_env None) 0 day
        \<lparr>ru_store = sample_db, ru_tick = 0, ru_report = NewReport 0 day\<rparr> = (None, s1)
      \<and> runSettlementSide (mysql_engine ideal_engine sample_env None) 0 day s1 = (r, s2)
      \<and> same_tables (ru_store s1) (ru_store s2) \<and> ru_report s2 = ru_report s1"
proof -
  obtain s1 where s1: "runSettlementSide (mysql_engine ideal_engine sample_env None) 0 day
        \<lparr>ru_store = sample_db, ru_tick = 0, ru_report = NewReport 0 day\<rparr> = (None, s1)"
    using sample_settlement_side [OF full_ranges_sample] by blast
  obtain r s2 where s2: "runSettlementSide (mysql_engine ideal_engine sample_env None) 0 day s1 = (r, s2)"
    by fastforce
  from settlement_rerun_is_idle [OF sound_ideal_engine full_ranges_sample s1 s2] s1 s2 show ?thesis by blast
qed



text \<open>
  C10: a run without error is fully audited and fully reported: the audit log grows by exactly one row
  per match result and exception written, and the totals of the report are the numbers of rows added.
\<close>

theorem run_is_fully_audited:
  assumes "RunWindow (mysql_engine e env tier3) start end' n d = (None, s)"
  shows "length (tb_audit_log (ru_store s)) + length (tb_match_results d) + length (tb_exception_log d)
       = length (tb_audit_log d) + length (tb_match_results (ru_store s)) + length (tb_exception_log (ru_store s))
     \<and> length (tb_match_results (ru_store s)) = length (tb_match_results d) + TotalMatched (ru_report s)
     \<and> length (tb_exception_log (ru_store s)) = length (tb_exception_log d) + TotalExceptions (ru_report s)"
proof -
  let ?m = "int (length (tb_match_results d))" and ?x = "int (length (tb_exception_log d))"
  have "books (int (length (tb_audit_log d)) - ?m - ?x) ?m ?x s"
    by (rule bk.RunWindow_success [OF _ assms])
       (simp add: books_def NewReport_def TotalMatched_def TotalExceptions_def)
  then show ?thesis by (simp add: books_def)
qed

theorem run_is_fully_audited_witness:
  "\<exists>s. RunWindow (mysql_engine ideal_engine sample_env None) 0 day 0 sample_db = (None, s)
       \<and> TotalExceptions (ru_report s) = 1
       \<and> length (tb_audit_log (ru_store s)) = length (tb_match_results (ru_store s)) + 1"
proof -
  obtain s where s: "RunWindow (mysql_engine ideal_engine sample_env None) 0 day 0 sample_db = (None, s)"
    "length (tb_exception_log (ru_store s)) = 1"
    using sample_run [OF full_ranges_sample] by blast
  from run_is_fully_audited [OF s(1)] s show ?thesis
    by (auto simp: sample_db_def empty_db_def)
qed

section \<open>Loading candidates once per window\<close>

lemma tier_filter_plausible:
  "Tier1_TryMatch p (filter (plausible p) cs) = Tier1_TryMatch p cs"
  "Tier2_TryMatch p (filter (plausible p) cs) = Tier2_TryMatch p cs"
proof -
  have 1: "filter (tier1_ok p) (filter (plausible p) cs) = filter (tier1_ok p) cs"
    unfolding filter_filter by (rule filter_cong) (auto simp: tier1_ok_iff)
  have 2: "filter (tier2_ok p) (filter (plausible p) cs) = filter (tier2_ok p) cs"
    unfolding filter_filter by (rule filter_cong) (auto simp: tier2_ok_iff)
  show "Tier1_TryMatch p (filter (plausible p) cs) = Tier1_TryMatch p cs"
    by (simp only: Tier1_TryMatch_def 1)
  show "Tier2_TryMatch p (filter (plausible p) cs) = Tier2_TryMatch p cs"
    by (simp only: Tier2_TryMatch_def 2)
qed

lemma GetSettlementCandidates_mset:
  assumes "sound_engine e" and "my_GetSettlementCandidates (OpenMySQLStore e) method a b d = (Inr cs, d')"
  shows "mset cs = mset (map settlement_candidate (filter (\<lambda>(i, l). sql_eq e (sr_PaymentMethod l) method
           \<and> eg_time e a \<le> sr_SettledAt l \<and> sr_SettledAt l < eg_time e b) (tb_settlement_lines d)))"
proof -
  let ?W = "\<lambda>(i, l). sql_eq e (sr_PaymentMethod l) method \<and> eg_time e a \<le> sr_SettledAt l \<and> sr_SettledAt l < eg_time e b"
  have "cs = sort_key sc_SettledAt (map settlement_candidate (filter ?W (scan_rows e (db_ops d) (tb_settlement_lines d))))"
    using assms(2) by (auto simp: my_GetSettlementCandidates_def OpenMySQLStore_def Let_def dest!: query_Inr)
  then show ?thesis
    by (simp add: mset_scan_rows [OF sound_engineD(2) [OF assms(1)]] mset_filter)
qed

lemma slaFor_us: "slaFor m mod 1000 = 0"
  by (simp add: slaFor_def defaultSLA_def fallbackSLA_def hour_def)



section \<open>At the edges of a window\<close>

definition orphan_db :: db where
  "orphan_db = sample_db\<lparr>tb_ledger_lines := [\<lparr>ld_id = 1,
     ld_row = \<lparr>lr_ReferenceID = ''order_1'', lr_AmountPaise = 100000, lr_BookedAt = 0\<rparr>, ld_matched_payment_id = None\<rparr>]\<rparr>"

definition orphan_candidate :: LedgerCandidate where
  "orphan_candidate = \<lparr>lc_ID = 1, lc_ReferenceID = ''order_1'', lc_AmountPaise = 100000, lc_BookedAt = 0\<rparr>"

lemma orphan_reads:
  "rs_GetUnmatchedPaymentsInWindow (mysql_recon ideal_engine) (6 * day) (7 * day) orphan_db
   = (Inr [], orphan_db\<lparr>db_ops := 2\<rparr>)"
  "rs_GetUnmatchedLedgerLines (mysql_recon ideal_engine) (time_add (6 * day) (- 2 * ledgerBookingLagWindow))
     (time_add (7 * day) (2 * ledgerBookingLagWindow)) (orphan_db\<lparr>db_ops := 2\<rparr>)
   = (Inr [orphan_candidate], orphan_db\<lparr>db_ops := 4\<rparr>)"
  "rs_GetPaymentsInWindow (mysql_recon ideal_engine) (time_add (6 * day) (- ledgerBookingLagWindow))
     (time_add (7 * day) ledgerBookingLagWindow) (orphan_db\<lparr>db_ops := 4\<rparr>)
   = (Inr [], orphan_db\<lparr>db_ops := 6\<rparr>)"
  by (simp_all add: ideal_read orphan_db_def sample_db_def sample_payment_row_def empty_db_def ledger_candidate_def
      truncate_us_def time_defs ledgerBookingLagWindow_def orphan_candidate_def)

lemma itoa_1: "itoa 1 = ''1''"
  by (simp add: itoa_def dec_nat.simps digit_char_def char_of_def bit_Suc_0_iff)

text \<open>
  C16: a ledger line near the edge of the doubly widened ledger window is reported as an orphan although
  the payment it belongs to is in the database with the same reference, the same amount and the same
  timestamp: the payments are loaded from a narrower window than the ledger lines.
\<close>

theorem ledger_line_falsely_orphaned:
  "\<exists>s x match. RunWindow (mysql_engine ideal_engine sample_env None) (6 * day) (7 * day) 0 orphan_db = (None, s)
     \<and> tb_exception_log (ru_store s) = [x] \<and> er_ReasonCode x = ReasonLedgerOrphan \<and> er_RecordID x = ''1''
     \<and> TierL_TryExactMatch (toReconLedgerLine orphan_candidate)
         (map (\<lambda>p. toReconPayment (payment_candidate p) 0) (tb_payments orphan_db)) = Some match"
proof -
  let ?e = "mysql_engine ideal_engine sample_env None"
  let ?s = "\<lparr>ru_store = orphan_db\<lparr>db_ops := 6\<rparr>, ru_tick = 0, ru_report = NewReport (6 * day) (7 * day)\<rparr>"
  let ?l = "toReconLedgerLine orphan_candidate"
  have x: "ex_RecordType (TierL_Classify ?l []) = ''ledger''" "ex_RecordID (TierL_Classify ?l []) = ''1''"
    "ex_ReasonCode (TierL_Classify ?l []) = ReasonLedgerOrphan" "ex_Evidence (TierL_Classify ?l []) = []"
    by (simp_all add: toReconLedgerLine_def orphan_candidate_def itoa_1)
  obtain s y where rec: "recordException ?e (TierL_Classify ?l []) ?s = (None, s)"
    "tb_exception_log (ru_store s) = [y]" "er_ReasonCode y = ReasonLedgerOrphan" "er_RecordID y = ''1''"
    using recordException_ideal [of ?s "TierL_Classify ?l []" sample_env None] unfolding x
    by (auto simp: orphan_db_def sample_db_def empty_db_def plain_char_def)
  have "settleLedgerLine ?e [] orphan_candidate ?s = (None, s)"
    using rec(1) by (simp add: settleLedgerLine_def TierL_TryExactMatch_def Let_def)
  moreover have "in_range_order sample_env 0 (groupByMethod []) = []"
    by (simp add: in_range_order_def groupByMethod_def sample_env_def)
  ultimately have "RunWindow ?e (6 * day) (7 * day) 0 orphan_db = (None, s)"
    by (simp add: RunWindow_def act_then_def wrap_err_def runSettlementSide_def runLedgerSide_def
        orphan_reads [simplified] Let_def)
  moreover have "\<exists>match. TierL_TryExactMatch ?l
         (map (\<lambda>p. toReconPayment (payment_candidate p) 0) (tb_payments orphan_db)) = Some match"
    by (simp add: TierL_TryExactMatch_def orphan_db_def sample_db_def tierL_ok_def toReconPayment_def payment_candidate_def
        toReconLedgerLine_def orphan_candidate_def sample_payment_row_def withinDays_3 time_defs)
  ultimately show ?thesis using rec(2-4) by blast
qed

text \<open>
  An exception never takes a ledger line out of the matching queue: the unmatched ledger lines read
  after writing any exception row are the same as before, so a line that was reported stays in every
  later run and is reported again.
\<close>

theorem reported_ledger_lines_return:
  assumes "sound_engine e"
    and "my_GetUnmatchedLedgerLines (OpenMySQLStore e) a b d = (Inr ls, d1)"
    and "my_WriteExceptionLog (OpenMySQLStore e) x d1 = (r, d2)"
    and "my_GetUnmatchedLedgerLines (OpenMySQLStore e) a b d2 = (Inr ls', d3)"
  shows "mset ls' = mset ls"
proof -
  have read: "mset ks = mset (map ledger_candidate (filter (\<lambda>l. ld_matched_payment_id l = None
        \<and> eg_time e a \<le> lr_BookedAt (ld_row l) \<and> lr_BookedAt (ld_row l) < eg_time e b) (tb_ledger_lines db)))"
    if "my_GetUnmatchedLedgerLines (OpenMySQLStore e) a b db = (Inr ks, db')" for db ks db'
    using that
    by (auto simp: my_GetUnmatchedLedgerLines_def OpenMySQLStore_def Let_def mset_filter
        mset_scan_rows [OF sound_engineD(2) [OF assms(1)]] dest!: query_Inr)
  have "d1 = d\<lparr>db_ops := db_ops d + 2\<rparr>"
    using assms(2) by (auto simp: my_GetUnmatchedLedgerLines_def Let_def dest: query_same)
  then have "tb_ledger_lines d2 = tb_ledger_lines d"
    using assms(3) by (auto elim!: WriteExceptionLog_cases)
  with read [OF assms(2)] read [OF assms(4)] show ?thesis by simp
qed

theorem reported_ledger_lines_return_witness:
  "\<exists>d1 r d2 ls' d3. my_GetUnmatchedLedgerLines (OpenMySQLStore ideal_engine) 0 day orphan_db = (Inr [orphan_candidate], d1)
     \<and> my_WriteExceptionLog (OpenMySQLStore ideal_engine)
          \<lparr>xr_RecordType = ''ledger'', xr_RecordID = ''1'', xr_ReasonCode = ReasonLedgerOrphan,
           xr_AmountAtRiskPaise = 100000, xr_EvidenceJSON = None, xr_CreatedAt = 0\<rparr> d1 = (r, d2)
     \<and> my_GetUnmatchedLedgerLines (OpenMySQLStore ideal_engine) 0 day d2 = (Inr ls', d3)
     \<and> mset ls' = {#orphan_candidate#}"
proof -
  let ?x = "\<lparr>xr_RecordType = ''ledger'', xr_RecordID = ''1'', xr_ReasonCode = ReasonLedgerOrphan,
           xr_AmountAtRiskPaise = 100000, xr_EvidenceJSON = None, xr_CreatedAt = 0\<rparr>"
  have r1: "my_GetUnmatchedLedgerLines (OpenMySQLStore ideal_engine) 0 day orphan_db
      = (Inr [orphan_candidate], orphan_db\<lparr>db_ops := 2\<rparr>)"
    by (simp add: ideal_read orphan_db_def sample_db_def empty_db_def ledger_candidate_def truncate_us_def time_defs
        orphan_candidate_def)
  obtain r d2 where w: "my_WriteExceptionLog (OpenMySQLStore ideal_engine) ?x (orphan_db\<lparr>db_ops := 2\<rparr>) = (r, d2)"
    by fastforce
  obtain ls' d3 where r2: "my_GetUnmatchedLedgerLines (OpenMySQLStore ideal_engine) 0 day d2 = (Inr ls', d3)"
    by (simp add: ideal_read)
  from reported_ledger_lines_return [OF sound_ideal_engine r1 w r2] r1 w r2 show ?thesis by auto
qed


definition faulty_engine :: engine where
  "faulty_engine = ideal_engine\<lparr>eg_fault := (\<lambda>n. if n = 1 then Some (ErrText ''connection lost'') else None)\<rparr>"

definition sample_match :: MatchResult where
  "sample_match = \<lparr>mr_PaymentID = ''pay_1'', mr_CandidateID = ''1'', mr_Confidence = ConfidenceExact,
     mr_RuleID = ''TIER1_EXACT'', mr_Evidence = [], mr_LedgerLineID = []\<rparr>"


definition rival_payment :: Payment where
  "rival_payment = sample_payment\<lparr>pay_ID := ''pay_2''\<rparr>"


section \<open>Group identifiers\<close>

lemma and_low_bits: "(b :: nat) AND 15 = b mod 16" "(b :: nat) AND 63 = b mod 64"
  using take_bit_eq_mask [of 4 b] take_bit_eq_mask [of 6 b]
  by (simp_all add: take_bit_eq_mod mask_eq_exp_minus_1)

lemma or_high_bit: "x < 2 ^ n \<Longrightarrow> (x :: nat) OR 2 ^ n = x + 2 ^ n"
proof -
  assume "x < 2 ^ n"
  then have "\<not> bit x n" by (simp add: bit_iff_odd)
  then have "x AND 2 ^ n = 0"
    by (intro bit_eqI) (auto simp: bit_and_iff bit_exp_iff)
  then show ?thesis by (simp add: disjunctive_add_eq_or)
qed

lemma uuid_bytes: "((b AND 15) OR 64) = b mod 16 + (64 :: nat)" "((b AND 63) OR 128) = b mod 64 + (128 :: nat)"
  using or_high_bit [of "b mod 16" 6] or_high_bit [of "b mod 64" 7]
    mod_less_divisor [of 16 b] mod_less_divisor [of 64 b]
  by (simp_all add: and_low_bits)

lemma list16: "length bs = 16 \<Longrightarrow> \<exists>b0 b1 b2 b3 b4 b5 b6 b7 b8 b9 b10 b11 b12 b13 b14 b15.
   bs = [b0, b1, b2, b3, b4, b5, b6, b7, b8, b9, b10, b11, b12, b13, b14, b15]"
  by (simp add: numeral_eq_Suc length_Suc_conv) blast

lemma hex_digit_variant: "d < 4 \<Longrightarrow> hex_digit (8 + d) \<in> set ''89ab''"
proof -
  assume "d < 4"
  then have "d = 0 \<or> d = 1 \<or> d = 2 \<or> d = 3" by arith
  then show ?thesis
    by (elim disjE) (simp_all add: hex_digit_def char_of_def bit_Suc_0_iff)
qed

lemma not_hex_hyphen: "is_hex c \<Longrightarrow> c \<noteq> CHR ''-''"
  by (auto simp: is_hex_def in_range_def)

text \<open>
  A generated match group identifier is a version 4 UUID: 36 characters, hyphens after 8, 13, 18 and
  23 characters, the version digit 4, a variant digit of 8, 9, a or b, and hexadecimal digits elsewhere.
\<close>

theorem match_group_id_is_uuid4:
  assumes "length bs = 16" and "list_all (\<lambda>b. b < 256) bs" and "newMatchGroupID (Inr bs) = Inr g"
  shows "length g = 36
       \<and> map (\<lambda>i. g ! i) [8, 13, 18, 23] = ''----'' \<and> g ! 14 = CHR ''4'' \<and> g ! 19 \<in> set ''89ab''
       \<and> list_all is_hex (filter (\<lambda>c. c \<noteq> CHR ''-'') g)"
proof -
  obtain b0 b1 b2 b3 b4 b5 b6 b7 b8 b9 b10 b11 b12 b13 b14 b15 where
    bs: "bs = [b0, b1, b2, b3, b4, b5, b6, b7, b8, b9, b10, b11, b12, b13, b14, b15]"
    using list16 [OF assms(1)] by blast
  have variant: "hex_digit ((b8 mod 64 + 128) div 16) \<in> set ''89ab''"
  proof -
    have "(x + 128) div 16 = 8 + x div 16" for x :: nat by presburger
    then show ?thesis using hex_digit_variant [of "b8 mod 64 div 16"] by (simp add: less_mult_imp_div_less)
  qed
  have version: "hex_digit ((b6 mod 16 + 64) div 16) = CHR ''4''"
  proof -
    have "(b6 mod 16 + 64) div 16 = 4" by presburger
    then show ?thesis by (simp add: hex_digit_def char_of_def bit_Suc_0_iff)
  qed
  have g: "g = hex_encode [b0, b1, b2, b3] @ ''-'' @ hex_encode [b4, b5] @ ''-'' @ hex_encode [b6 mod 16 + 64, b7]
      @ ''-'' @ hex_encode [b8 mod 64 + 128, b9] @ ''-'' @ hex_encode [b10, b11, b12, b13, b14, b15]"
  proof -
    have "(bs[6 := x])[8 := y] = [b0, b1, b2, b3, b4, b5, x, b7, y, b9, b10, b11, b12, b13, b14, b15]" for x y
      by (simp add: bs numeral_eq_Suc)
    moreover have "bs ! 6 = b6" "(bs[6 := x]) ! 8 = b8" for x by (simp_all add: bs numeral_eq_Suc)
    moreover have "take 4 bs = [b0, b1, b2, b3]" "take 6 (drop 10 bs) = [b10, b11, b12, b13, b14, b15]"
      by (simp_all add: bs)
    ultimately show ?thesis using assms(3) by (simp add: newMatchGroupID_def Let_def uuid_bytes)
  qed
  show ?thesis
  proof (intro conjI)
    show "length g = 36" by (simp add: g)
    show "map (\<lambda>i. g ! i) [8, 13, 18, 23] = ''----''" by (simp add: g hex_encode_def)
    show "g ! 14 = CHR ''4''" using version by (simp add: g hex_encode_def)
    show "g ! 19 \<in> set ''89ab''" using variant by (simp add: g hex_encode_def)
    have enc: "list_all is_hex (hex_encode xs)" if "list_all (\<lambda>b. b < 256) xs" for xs
      by (rule hex_encode_chars [OF that])
    have "b6 mod 16 < 192" "b8 mod 64 < 128"
      using mod_less_divisor [of 16 b6] mod_less_divisor [of 64 b8] by linarith+
    then have "list_all (\<lambda>c. c = CHR ''-'' \<or> is_hex c) g"
      using enc [of "[b0, b1, b2, b3]"] enc [of "[b4, b5]"] enc [of "[b6 mod 16 + 64, b7]"]
        enc [of "[b8 mod 64 + 128, b9]"] enc [of "[b10, b11, b12, b13, b14, b15]"] assms(2)
      by (auto simp: g bs list_all_iff)
    then show "list_all is_hex (filter (\<lambda>c. c \<noteq> CHR ''-'') g)" by (auto simp: list_all_iff)
  qed
qed

theorem match_group_id_is_uuid4_witness:
  "\<exists>g. newMatchGroupID (Inr (replicate 16 255)) = Inr g \<and> length g = 36 \<and> g ! 14 = CHR ''4''"
proof -
  obtain g where g: "newMatchGroupID (Inr (replicate 16 255)) = Inr g"
    by (simp add: newMatchGroupID_def Let_def)
  from match_group_id_is_uuid4 [OF _ _ g] g show ?thesis by (simp add: list_all_iff)
qed

end
