(* ===== verification/Matcher_Progress.thy ===== *)
theory Matcher_Progress
  imports Matcher_Props MySQL_Health
begin

text \<open>
  Progress of the matching engine: on a database that has recovered, a run of a window comes to its end.
  \<open>fails_only P a\<close> is the counterpart of \<open>keeps P a\<close> for errors: from a state with \<open>P\<close>, the only error the
  action may return is a duplicate key of the audit log, that is, a row whose hash is in the log already.
  Preservation comes from the contract \<open>recon_invariant\<close>, progress from the rules of this theory.
\<close>

section \<open>Errors of actions\<close>

definition fails_only :: "('s \<Rightarrow> bool) \<Rightarrow> 's act \<Rightarrow> bool" where
  "fails_only P a \<longleftrightarrow> (\<forall>s err s'. P s \<longrightarrow> a s = (Some err, s') \<longrightarrow> hash_clash err)"

lemma fails_onlyD: "fails_only P a \<Longrightarrow> P s \<Longrightarrow> a s = (Some err, s') \<Longrightarrow> hash_clash err"
  unfolding fails_only_def by blast

lemma fails_only_then [fails_rules]:
  assumes "fails_only P a" and "keeps P a" and "fails_only P b"
  shows "fails_only P (act_then a b)"
  unfolding fails_only_def
proof (intro allI impI)
  fix s err s'
  assume s: "P s" and run: "act_then a b s = (Some err, s')"
  obtain r t where a: "a s = (r, t)" by fastforce
  have "P t" by (rule keepsD [OF assms(2) s a])
  then show "hash_clash err"
    using run a fails_onlyD [OF assms(1) s] fails_onlyD [OF assms(3)] by (cases r) (auto simp: act_then_def)
qed

lemma fails_only_wrap_err [fails_rules]: "fails_only P a \<Longrightarrow> fails_only P (wrap_err pre a)"
  by (auto simp: fails_only_def wrap_err_def split: prod.splits option.splits)

lemma fails_only_for_each [fails_rules]:
  "(\<And>x. x \<in> set xs \<Longrightarrow> fails_only P (f x) \<and> keeps P (f x)) \<Longrightarrow> fails_only P (for_each f xs)"
proof (induction xs)
  case (Cons x xs)
  then have "fails_only P (act_then (f x) (for_each f xs))"
    by (intro fails_only_then) simp_all
  then show ?case by (simp add: fails_only_def)
qed (simp add: fails_only_def)

lemma fails_only_done [fails_rules]: "fails_only P (\<lambda>s. (None, f s))"
  by (simp add: fails_only_def)

lemma fails_only_on_store [fails_rules]: "fails_only P a \<Longrightarrow> fails_only (stored P) (on_store a)"
  by (auto simp: fails_only_def on_store_def split: prod.splits)

section \<open>The store of a run\<close>

text \<open>What the run needs of the tables, and keeps: ids are \<^verbatim>\<open>int64\<close>, payments stay.\<close>

definition calm :: "nat \<Rightarrow> (string option \<times> PaymentRow) list \<Rightarrow> db \<Rightarrow> bool" where
  "calm k ps d \<longleftrightarrow> k \<le> db_ops d \<and> tb_payments d = ps \<and> (\<forall>i \<in> set (map ld_id (tb_ledger_lines d)). is_int64 i)"

interpretation cl: recon_invariant "mysql_recon e" "calm k ps"
  for e k ps
  by (rule mysql_invariantI) (auto simp: calm_def elim!: WriteAuditEntry_cases)

lemmas recon_store_simps = mysql_recon_def OpenMySQLStore_def Let_def

lemma healthy_match:
  assumes "healthy_from e k" and "json_writable v" and "mw_EvidenceJSON row = Some (json_text v)"
  shows "fails_only (calm k ps) (rs_WriteMatchResult (mysql_recon e) row)"
proof -
  obtain st where "json_column e (json_text v) = (\<lambda>f. f st)" using healthy_column [OF assms(1,2)] by blast
  then show ?thesis
    by (simp add: fails_only_def recon_store_simps my_WriteMatchResult_def assms(3) writable_text [OF assms(2)] guarded_exec_def
        healthy_stmt [OF assms(1)] calm_def wrap_err_def)
qed

lemma healthy_exception:
  assumes "healthy_from e k" and "json_writable v" and "xr_EvidenceJSON row = Some (json_text v)"
  shows "fails_only (calm k ps) (rs_WriteExceptionLog (mysql_recon e) row)"
proof -
  obtain st where "json_column e (json_text v) = (\<lambda>f. f st)" using healthy_column [OF assms(1,2)] by blast
  then show ?thesis
    by (simp add: fails_only_def recon_store_simps my_WriteExceptionLog_def assms(3) writable_text [OF assms(2)] guarded_exec_def
        healthy_stmt [OF assms(1)] calm_def wrap_err_def)
qed

lemma healthy_set_ledger:
  assumes "healthy_from e k" and "p \<in> (\<lambda>op. pr_PaymentID (snd op)) ` set ps"
  shows "fails_only (calm k ps) (rs_SetLedgerMatchedPayment (mysql_recon e) i p)"
proof -
  from assms(2) have "list_ex (\<lambda>(order_id, q). sql_eq e (pr_PaymentID q) p) ps"
    by (force simp: list_ex_iff sql_eq_def)
  then show ?thesis
    by (simp add: fails_only_def recon_store_simps my_SetLedgerMatchedPayment_def guarded_exec_def
        healthy_stmt [OF assms(1)] calm_def wrap_err_def)
qed

lemma healthy_audit:
  assumes "healthy_from e k" and "kvs \<noteq> []" and "list_all (\<lambda>(k, v). plain k) kvs" and "distinct (map fst kvs)"
    and "ae_PayloadJSON entry = Some (json_text (JObj (map (\<lambda>(k, v). (k, JStr v)) kvs)))"
  shows "fails_only (calm k ps) (rs_WriteAuditEntry (mysql_recon e) entry)"
  unfolding fails_only_def
  by (auto simp: mysql_recon_def Let_def calm_def intro: healthy_WriteAuditEntry [OF assms])

section \<open>Evidence\<close>

text \<open>
  The random source answers, and what the ranker returned can be printed again, nested at most 98 levels.
\<close>

definition working_env :: "env \<Rightarrow> bool" where
  "working_env env \<longleftrightarrow>
     (\<forall>n. \<exists>buf. ev_rand env n = Inr buf)
     \<and> (\<forall>n url body status ranked. ev_http env n url body = Inr (status, Inr ranked) \<longrightarrow>
          list_all (\<lambda>r. json_supported (ranked_json r) \<and> (\<exists>j. readable 9902 (json_text (ranked_json r)) j)) ranked)"

lemma tier_evidence_writable:
  "Tier1_TryMatch p cs = Some r \<Longrightarrow> json_writable (JObj (mr_Evidence r))"
  "Tier2_TryMatch p cs = Some r \<Longrightarrow> json_writable (JObj (mr_Evidence r))"
  "TierL_TryExactMatch l ps = Some r \<Longrightarrow> json_writable (JObj (mr_Evidence r))"
  by (auto simp: Tier1_TryMatch_def Tier2_TryMatch_def TierL_TryExactMatch_def Let_def leaf_def plain_char_def
      split: if_splits intro!: leaves_writable)

lemma TierL_Classify_writable: "json_writable (JObj (ex_Evidence (TierL_Classify l ps)))"
  by (induction l ps rule: TierL_Classify.induct) (auto simp: leaf_def plain_char_def intro!: leaves_writable)

lemma ClassifyPayment_writable: "json_writable (JObj (ex_Evidence (ClassifyPayment p cs)))"
  by (auto simp: ClassifyPayment_def payment_exception_def Let_def leaf_def plain_char_def intro!: leaves_writable)

lemma Rank_answer: "Rank env n client p cs = Inr ranked \<Longrightarrow> \<exists>url body status. ev_http env n url body = Inr (status, Inr ranked)"
  by (auto simp: Rank_def split: option.splits sum.splits prod.splits if_splits)

lemma ranked_writable:
  assumes "working_env env" and "Rank env n client p cs = Inr ranked" and "ranked \<noteq> []"
  shows "json_writable (JObj [(''source'', JStr s), (''expected_net_paise'', JInt i), (''ranked_candidates'', JArr (map ranked_json ranked))])"
proof -
  have all: "list_all (\<lambda>r. json_supported (ranked_json r) \<and> (\<exists>j. readable (Suc 9901) (json_text (ranked_json r)) j)) ranked"
    using Rank_answer [OF assms(2)] assms(1) by (auto simp: working_env_def)
  then have "\<exists>j. readable 9901 (raw_array (map (\<lambda>r. json_text (ranked_json r)) ranked)) j"
    using assms(3) by (intro readable_array) (auto simp: list_all_iff)
  moreover have "json_text (JArr (map ranked_json ranked)) = raw_array (map (\<lambda>r. json_text (ranked_json r)) ranked)"
    by (simp add: raw_array_def comp_def)
  moreover have "json_supported (JArr (map ranked_json ranked))" using all by (auto simp: list_all_iff)
  ultimately show ?thesis
    using readable_leaf [of 9901]
    by (intro members_writable) (auto simp del: json_text.simps(6) json_supported.simps(1) simp: plain_char_def)
qed

lemma classified_writable:
  "working_env (gn_Env engine) \<Longrightarrow> json_writable (JObj (ex_Evidence (classifyAfterTier2 engine n p cs)))"
  by (auto simp: classifyAfterTier2_def ClassifyPayment_writable payment_exception_def ranked_writable split: sum.splits)

section \<open>Recording outcomes\<close>

lemma progress_writeAudit:
  assumes "healthy_from e k" and "payload = map (\<lambda>(k, v). (k, JStr v)) kvs"
    and "kvs \<noteq> []" and "list_all (\<lambda>(k, v). plain k) kvs" and "distinct (map fst kvs)"
  shows "fails_only (stored (calm k ps)) (writeAudit (mysql_engine e env t3) ty payload at)"
proof -
  have "json_marshal (JObj payload) = Inr (json_text (JObj payload))"
    using flat_writable [OF assms(4)] by (simp add: json_marshal_def json_writable_def assms(2))
  moreover have "fails_only (calm k ps) (rs_WriteAuditEntry (mysql_recon e)
      \<lparr>ae_EventType = ty, ae_PayloadJSON = Some (json_text (JObj payload)), ae_CreatedAt = at\<rparr>)"
    using healthy_audit [OF assms(1,3-5)] assms(2) by simp
  ultimately show ?thesis
    using fails_only_wrap_err [OF fails_only_on_store] by (simp add: fails_only_def writeAudit_def)
qed

lemma progress_prepare_match:
  assumes "working_env (gn_Env engine)" and "json_writable (JObj (mr_Evidence match))"
    and "\<And>g t. fails_only (stored P) (f (json_text (JObj (mr_Evidence match))) g t)"
  shows "fails_only (stored P) (prepare_match engine what match f)"
  unfolding fails_only_def
proof (intro allI impI)
  fix s err s'
  assume s: "P (ru_store s)" and run: "prepare_match engine what match f s = (Some err, s')"
  obtain buf where "ev_rand (gn_Env engine) (ru_tick s) = Inr buf" using assms(1) unfolding working_env_def by blast
  then obtain g where "newMatchGroupID (ev_rand (gn_Env engine) (ru_tick s)) = Inr g" by (simp add: newMatchGroupID_def Let_def)
  then have "f (json_text (JObj (mr_Evidence match))) g (ev_clock (gn_Env engine) (ru_tick s + 1)) (s\<lparr>ru_tick := ru_tick s + 2\<rparr>)
      = (Some err, s')"
    using run assms(2) by (simp del: json_text.simps json_supported.simps add: prepare_match_def json_marshal_def json_writable_def)
  then show "hash_clash err" by (rule fails_onlyD [OF assms(3), rotated]) (simp add: s)
qed

lemma progress_recordPaymentMatch:
  assumes "healthy_from e k" and "working_env env" and "json_writable (JObj (mr_Evidence match))"
  shows "fails_only (stored (calm k ps)) (recordPaymentMatch (mysql_engine e env t3) match)"
  unfolding recordPaymentMatch_def mysql_engine_simps
proof (intro progress_prepare_match fails_rules keeps_on_store
    cl.keeps_writeAudit cl.write_match cl.keeps_report)
  fix g t
  show "fails_only (calm k ps) (rs_WriteMatchResult (mysql_recon e)
      \<lparr>mw_MatchGroupID = g, mw_RecordType = ''payment'', mw_RecordID = mr_PaymentID match,
       mw_Confidence = mr_Confidence match, mw_RuleID = mr_RuleID match,
       mw_EvidenceJSON = Some (json_text (JObj (mr_Evidence match))), mw_CreatedAt = t\<rparr>)"
    by (rule healthy_match [OF assms(1,3)]) simp
  show "fails_only (stored (calm k ps)) (writeAudit (mysql_engine e env t3) ''MATCH_RESULT_WRITTEN''
      [(''match_group_id'', JStr g), (''record_type'', JStr ''payment''), (''record_id'', JStr (mr_PaymentID match)),
       (''confidence'', JStr (mr_Confidence match)), (''rule_id'', JStr (mr_RuleID match))] t)"
    by (rule progress_writeAudit [OF assms(1), where kvs =
          "[(''match_group_id'', g), (''record_type'', ''payment''), (''record_id'', mr_PaymentID match),
            (''confidence'', mr_Confidence match), (''rule_id'', mr_RuleID match)]"])
       (simp_all add: plain_char_def)
qed (simp_all add: assms)

lemma progress_recordException:
  assumes "healthy_from e k" and "json_writable (JObj (ex_Evidence exn))"
  shows "fails_only (stored (calm k ps)) (recordException (mysql_engine e env t3) exn)"
proof -
  let ?ev = "json_text (JObj (ex_Evidence exn))"
  have run: "fails_only (stored (calm k ps)) (act_then (on_store (rs_WriteExceptionLog (mysql_recon e)
       \<lparr>xr_RecordType = ex_RecordType exn, xr_RecordID = ex_RecordID exn, xr_ReasonCode = ex_ReasonCode exn,
        xr_AmountAtRiskPaise = ex_AmountAtRiskPaise exn, xr_EvidenceJSON = Some ?ev, xr_CreatedAt = t\<rparr>))
     (act_then (writeAudit (mysql_engine e env t3) ''EXCEPTION_LOGGED''
         [(''record_type'', JStr (ex_RecordType exn)), (''record_id'', JStr (ex_RecordID exn)),
          (''reason_code'', JStr (ex_ReasonCode exn))] t)
       (\<lambda>s. (None, s\<lparr>ru_report := report_recordException (ex_ReasonCode exn) (ru_report s)\<rparr>))))" for t
  proof (intro fails_rules keeps_on_store cl.keeps_writeAudit cl.write_exception cl.keeps_report)
    show "fails_only (calm k ps) (rs_WriteExceptionLog (mysql_recon e)
       \<lparr>xr_RecordType = ex_RecordType exn, xr_RecordID = ex_RecordID exn, xr_ReasonCode = ex_ReasonCode exn,
        xr_AmountAtRiskPaise = ex_AmountAtRiskPaise exn, xr_EvidenceJSON = Some ?ev, xr_CreatedAt = t\<rparr>)"
      by (rule healthy_exception [OF assms]) simp
    show "fails_only (stored (calm k ps)) (writeAudit (mysql_engine e env t3) ''EXCEPTION_LOGGED''
         [(''record_type'', JStr (ex_RecordType exn)), (''record_id'', JStr (ex_RecordID exn)),
          (''reason_code'', JStr (ex_ReasonCode exn))] t)"
      by (rule progress_writeAudit [OF assms(1), where kvs =
            "[(''record_type'', ex_RecordType exn), (''record_id'', ex_RecordID exn), (''reason_code'', ex_ReasonCode exn)]"])
         (simp_all add: plain_char_def)
  qed simp_all
  have "json_marshal (JObj (ex_Evidence exn)) = Inr ?ev"
    using assms(2) by (simp add: json_marshal_def json_writable_def)
  then show ?thesis
    unfolding fails_only_def
    by (auto simp del: json_text.simps simp add: recordException_def Let_def intro: fails_onlyD [OF run, rotated])
qed

lemma progress_recordLedgerMatch:
  assumes "healthy_from e k" and "working_env env" and "json_writable (JObj (mr_Evidence match))"
    and "mr_PaymentID match \<in> (\<lambda>op. pr_PaymentID (snd op)) ` set ps" and "mr_LedgerLineID match = itoa i" and "is_int64 i"
  shows "fails_only (stored (calm k ps)) (recordLedgerMatch (mysql_engine e env t3) match)"
  unfolding recordLedgerMatch_def mysql_engine_simps assms(5) parse_int64_itoa [OF assms(6)] sum.case
proof (intro progress_prepare_match fails_rules keeps_on_store
    cl.keeps_writeAudit cl.write_match cl.set_matched cl.keeps_report)
  fix g t
  show "fails_only (calm k ps) (rs_WriteMatchResult (mysql_recon e)
      \<lparr>mw_MatchGroupID = g, mw_RecordType = ''ledger'', mw_RecordID = itoa i,
       mw_Confidence = mr_Confidence match, mw_RuleID = mr_RuleID match,
       mw_EvidenceJSON = Some (json_text (JObj (mr_Evidence match))), mw_CreatedAt = t\<rparr>)"
    by (rule healthy_match [OF assms(1,3)]) simp
  show "fails_only (calm k ps) (rs_SetLedgerMatchedPayment (mysql_recon e) i (mr_PaymentID match))"
    by (rule healthy_set_ledger [OF assms(1,4)])
  show "fails_only (stored (calm k ps)) (writeAudit (mysql_engine e env t3) ''LEDGER_MATCH_WRITTEN''
      [(''match_group_id'', JStr g), (''record_type'', JStr ''ledger''), (''record_id'', JStr (itoa i)),
       (''payment_id'', JStr (mr_PaymentID match)), (''rule_id'', JStr (mr_RuleID match))] t)"
    by (rule progress_writeAudit [OF assms(1), where kvs =
          "[(''match_group_id'', g), (''record_type'', ''ledger''), (''record_id'', itoa i),
            (''payment_id'', mr_PaymentID match), (''rule_id'', mr_RuleID match)]"])
       (simp_all add: plain_char_def)
qed (simp_all add: assms)

section \<open>The run of a window\<close>

lemma healthy_reads:
  assumes "healthy_from e k" and "calm k ps d"
  shows "\<exists>v. rs_GetUnmatchedPaymentsInWindow (mysql_recon e) a b d = (Inr v, d\<lparr>db_ops := db_ops d + 2\<rparr>)"
    and "\<exists>v. rs_GetSettlementCandidates (mysql_recon e) m a b d = (Inr v, d\<lparr>db_ops := db_ops d + 2\<rparr>)"
    and "\<exists>v. rs_GetUnmatchedLedgerLines (mysql_recon e) a b d = (Inr v, d\<lparr>db_ops := db_ops d + 2\<rparr>)"
    and "\<exists>v. rs_GetPaymentsInWindow (mysql_recon e) a b d = (Inr v, d\<lparr>db_ops := db_ops d + 2\<rparr>)"
  using assms(2) by (simp_all add: recon_store_simps my_read_defs healthy_query [OF assms(1)] calm_def)

lemma calm_ops: "calm k ps d \<Longrightarrow> calm k ps (d\<lparr>db_ops := db_ops d + 2\<rparr>)"
  by (simp add: calm_def)

lemma loaded_payments:
  assumes "full_scans e" and "calm k ps d" and "rs_GetPaymentsInWindow (mysql_recon e) a b d = (Inr rows, d')" and "r \<in> set rows"
  shows "pc_PaymentID r \<in> (\<lambda>op. pr_PaymentID (snd op)) ` set ps"
  using assms(2-4)
  by (auto simp: recon_store_simps my_read_defs set_scan_rows [OF assms(1)] calm_def payment_candidate_def dest!: query_Inr)
     force

lemma loaded_lines:
  assumes "full_scans e" and "calm k ps d" and "rs_GetUnmatchedLedgerLines (mysql_recon e) a b d = (Inr rows, d')" and "r \<in> set rows"
  shows "is_int64 (lc_ID r)"
  using assms(2-4) by (auto simp: recon_store_simps my_read_defs set_scan_rows [OF assms(1)] calm_def ledger_candidate_def dest!: query_Inr)

lemma progress_settlePayment:
  assumes "healthy_from e k" and "working_env env"
  shows "fails_only (stored (calm k ps)) (settlePayment (mysql_engine e env t3) sla cs p)"
proof -
  have "fails_only (stored (calm k ps))
      (\<lambda>s. wrap_err pre (recordException (mysql_engine e env t3) (classifyAfterTier2 (mysql_engine e env t3) (ru_tick s) q cs))
         (s\<lparr>ru_tick := ru_tick s + 1\<rparr>))" for pre q
  proof -
    have "fails_only (stored (calm k ps)) (wrap_err pre (recordException (mysql_engine e env t3)
        (classifyAfterTier2 (mysql_engine e env t3) n q cs)))" for n
      using assms(2) by (intro fails_only_wrap_err progress_recordException [OF assms(1)] classified_writable) simp
    note clash = fails_onlyD [OF this, rotated]
    show ?thesis unfolding fails_only_def by (auto intro: clash)
  qed
  then show ?thesis
    by (auto simp: settlePayment_def Let_def split: option.splits
        intro!: fails_only_wrap_err progress_recordPaymentMatch [OF assms] intro: tier_evidence_writable(1,2))
qed

lemma progress_settleGroup:
  assumes "healthy_from e k" and "working_env env"
  shows "fails_only (stored (calm k ps)) (settleGroup (mysql_engine e env t3) start end' mg)"
  unfolding fails_only_def
proof (intro allI impI)
  fix s err s'
  assume s: "calm k ps (ru_store s)" and run: "settleGroup (mysql_engine e env t3) start end' mg s = (Some err, s')"
  have loop: "fails_only (stored (calm k ps)) (for_each (settlePayment (mysql_engine e env t3) sla cs) g)" for sla cs g
    by (intro fails_rules conjI progress_settlePayment [OF assms] cl.keeps_settlePayment) simp
  obtain m g where mg: "mg = (m, g)" by fastforce
  obtain v where "rs_GetSettlementCandidates (mysql_recon e) m start (time_add end' (slaFor m)) (ru_store s)
      = (Inr v, (ru_store s)\<lparr>db_ops := db_ops (ru_store s) + 2\<rparr>)" using healthy_reads(2) [OF assms(1) s] by blast
  with run mg show "hash_clash err"
    using fails_onlyD [OF loop, of "s\<lparr>ru_store := (ru_store s)\<lparr>db_ops := db_ops (ru_store s) + 2\<rparr>\<rparr>"] calm_ops [OF s]
    by (simp add: settleGroup_def Let_def)
qed

lemma progress_settlement_side:
  assumes "healthy_from e k" and "working_env env"
  shows "fails_only (stored (calm k ps)) (runSettlementSide (mysql_engine e env t3) start end')"
  unfolding fails_only_def
proof (intro allI impI)
  fix s err s'
  assume s: "calm k ps (ru_store s)" and run: "runSettlementSide (mysql_engine e env t3) start end' s = (Some err, s')"
  have loop: "fails_only (stored (calm k ps)) (for_each (settleGroup (mysql_engine e env t3) start end') gs)" for gs
    by (intro fails_rules conjI progress_settleGroup [OF assms] cl.keeps_settleGroup) simp
  obtain v where "rs_GetUnmatchedPaymentsInWindow (mysql_recon e) start end' (ru_store s)
      = (Inr v, (ru_store s)\<lparr>db_ops := db_ops (ru_store s) + 2\<rparr>)" using healthy_reads(1) [OF assms(1) s] by blast
  with run show "hash_clash err"
    using fails_onlyD [OF loop, of "s\<lparr>ru_store := (ru_store s)\<lparr>db_ops := db_ops (ru_store s) + 2\<rparr>\<rparr>"] calm_ops [OF s]
    by (simp add: runSettlementSide_def)
qed

lemma progress_settleLedgerLine:
  assumes "healthy_from e k" and "working_env env" and "is_int64 (lc_ID row)"
    and "\<And>p. p \<in> set payments \<Longrightarrow> pay_ID p \<in> (\<lambda>op. pr_PaymentID (snd op)) ` set ps"
  shows "fails_only (stored (calm k ps)) (settleLedgerLine (mysql_engine e env t3) payments row)"
proof (cases "TierL_TryExactMatch (toReconLedgerLine row) payments")
  case None
  then show ?thesis
    by (simp add: settleLedgerLine_def Let_def fails_only_wrap_err progress_recordException [OF assms(1) TierL_Classify_writable])
next
  case (Some match)
  have len: "length (filter (tierL_ok (toReconLedgerLine row)) payments) = 1"
    using Some by (simp add: TierL_TryExactMatch_def Let_def split: if_splits)
  then have "hd (filter (tierL_ok (toReconLedgerLine row)) payments) \<in> set payments"
    by (metis filter_is_subset hd_in_set length_0_conv subsetD zero_neq_one)
  then have "mr_PaymentID match \<in> (\<lambda>op. pr_PaymentID (snd op)) ` set ps"
    using Some len assms(4) by (auto simp: TierL_TryExactMatch_def Let_def)
  moreover have "mr_LedgerLineID match = itoa (lc_ID row)"
    using Some len by (auto simp: TierL_TryExactMatch_def Let_def toReconLedgerLine_def)
  ultimately show ?thesis
    using progress_recordLedgerMatch [OF assms(1,2) tier_evidence_writable(3) [OF Some]] assms(3) Some
    by (simp add: settleLedgerLine_def Let_def fails_only_wrap_err)
qed

lemma progress_ledger_side:
  assumes "full_scans e" and "healthy_from e k" and "working_env env"
  shows "fails_only (stored (calm k ps)) (runLedgerSide (mysql_engine e env t3) start end')"
  unfolding fails_only_def
proof (intro allI impI)
  fix s err s'
  assume s: "calm k ps (ru_store s)" and run: "runLedgerSide (mysql_engine e env t3) start end' s = (Some err, s')"
  let ?d = "(ru_store s)\<lparr>db_ops := db_ops (ru_store s) + 2\<rparr>"
  let ?a = "time_add start (- 2 * ledgerBookingLagWindow)" and ?b = "time_add end' (2 * ledgerBookingLagWindow)"
  let ?c = "time_add start (- ledgerBookingLagWindow)" and ?f = "time_add end' ledgerBookingLagWindow"
  obtain ls where ls: "rs_GetUnmatchedLedgerLines (mysql_recon e) ?a ?b (ru_store s) = (Inr ls, ?d)"
    using healthy_reads(3) [OF assms(2) s] by blast
  obtain rows where rows: "rs_GetPaymentsInWindow (mysql_recon e) ?c ?f ?d = (Inr rows, ?d\<lparr>db_ops := db_ops ?d + 2\<rparr>)"
    using healthy_reads(4) [OF assms(2) calm_ops [OF s]] by blast
  let ?loop = "for_each (settleLedgerLine (mysql_engine e env t3) (map (\<lambda>p. toReconPayment p 0) rows)) ls"
  have "pay_ID p \<in> (\<lambda>op. pr_PaymentID (snd op)) ` set ps" if "p \<in> set (map (\<lambda>p. toReconPayment p 0) rows)" for p
    using that loaded_payments [OF assms(1) calm_ops [OF s] rows] by (auto simp: toReconPayment_def)
  then have loop: "fails_only (stored (calm k ps)) ?loop"
    by (intro fails_rules conjI progress_settleLedgerLine [OF assms(2,3) loaded_lines [OF assms(1) s ls]]
        cl.keeps_settleLedgerLine) simp_all
  have "?loop (s\<lparr>ru_store := ?d\<lparr>db_ops := db_ops ?d + 2\<rparr>\<rparr>) = (Some err, s')"
    using run ls rows by (simp add: runLedgerSide_def Let_def split: if_splits)
  from fails_onlyD [OF loop _ this] calm_ops [OF calm_ops [OF s]] show "hash_clash err" by simp
qed

lemma progress_RunWindow:
  assumes "full_scans e" and "healthy_from e (db_ops d)" and "working_env env"
    and "\<forall>i \<in> set (map ld_id (tb_ledger_lines d)). is_int64 i"
    and "RunWindow (mysql_engine e env t3) start end' n d = (Some err, s)"
  shows "hash_clash err"
proof -
  let ?P = "stored (calm (db_ops d) (tb_payments d))"
  have "fails_only ?P (act_then (wrap_err ''settlement side: '' (runSettlementSide (mysql_engine e env t3) start end'))
      (wrap_err ''ledger side: '' (runLedgerSide (mysql_engine e env t3) start end')))"
    using cl.keeps_runSettlementSide [of "mysql_engine e env t3" e]
    by (intro fails_rules keeps_wrap_err progress_settlement_side [OF assms(2,3)]
        progress_ledger_side [OF assms(1-3)]) simp
  from fails_onlyD [OF this _ assms(5) [unfolded RunWindow_def]] assms(4) show ?thesis by (simp add: calm_def)
qed

text \<open>
  C2: reconciliation makes progress: once the database has recovered, so that no statement from the
  next one on fails, a run of any window finishes without error and every payment captured in the window
  then has a match or an open exception, whatever the state earlier failures have left; the one error
  that remains possible is the duplicate key of an audit row whose hash is in the log already.
\<close>

theorem recovered_run_finishes:
  assumes "sound_engine e" and "full_ranges env" and "working_env env" and "healthy_from e (db_ops d)"
    and "\<forall>l \<in> set (tb_ledger_lines d). is_int64 (ld_id l)"
  shows "(\<exists>s. RunWindow (mysql_engine e env tier3) start end' n d = (None, s)
            \<and> (\<forall>(order_id, p) \<in> set (tb_payments d). captured_in e start end' p \<longrightarrow>
                 has_match e (ru_store s) (pr_PaymentID p) \<or> has_open_exception e (ru_store s) (pr_PaymentID p)))
       \<or> (\<exists>err s. RunWindow (mysql_engine e env tier3) start end' n d = (Some err, s) \<and> mysql_number err = Some 1062)"
proof -
  obtain r s where run: "RunWindow (mysql_engine e env tier3) start end' n d = (r, s)" by fastforce
  show ?thesis
  proof (cases r)
    case None
    then show ?thesis using run window_covered [OF assms(1,2)] by blast
  next
    case (Some err)
    then show ?thesis
      using run progress_RunWindow [OF sound_engineD(2) [OF assms(1)] assms(4,3)] assms(5) by auto
  qed
qed

lemma working_sample: "working_env sample_env"
  by (simp add: working_env_def sample_env_def)

theorem recovered_run_finishes_witness:
  "\<exists>s. RunWindow (mysql_engine ideal_engine sample_env None) 0 day 0 sample_db = (None, s)
     \<and> (has_match ideal_engine (ru_store s) ''pay_1'' \<or> has_open_exception ideal_engine (ru_store s) ''pay_1'')"
proof -
  obtain s where s: "RunWindow (mysql_engine ideal_engine sample_env None) 0 day 0 sample_db = (None, s)"
    using sample_run [OF full_ranges_sample] by blast
  have "\<forall>l \<in> set (tb_ledger_lines sample_db). is_int64 (ld_id l)" by (simp add: sample_db_def empty_db_def)
  from recovered_run_finishes [OF sound_ideal_engine full_ranges_sample working_sample healthy_ideal this, of None 0 day 0] s
  have "\<forall>(order_id, p) \<in> set (tb_payments sample_db). captured_in ideal_engine 0 day p \<longrightarrow>
      has_match ideal_engine (ru_store s) (pr_PaymentID p) \<or> has_open_exception ideal_engine (ru_store s) (pr_PaymentID p)"
    by auto
  with s show ?thesis
    by (simp add: sample_db_def captured_in_def sample_payment_row_def ideal_engine_def truncate_us_def time_defs)
qed

end
