(* ===== verification/Batch_Lock.thy ===== *)
theory Batch_Lock
  imports Store_Rows
begin

text \<open>
  \<^verbatim>\<open>internal/matcher/locker.go\<close>: the lock around a matching run. Redis is a record of the three commands the
  lock sends; what they do to the token stored under a key is the locale \<open>lock_server\<close>. Several
  processes that acquire and release the lock are a step relation, one step per command.
\<close>

section \<open>locker.go\<close>

record 'r lock_client =
  lk_SetNX :: "string \<Rightarrow> string \<Rightarrow> duration \<Rightarrow> 'r \<Rightarrow> bool result \<times> 'r"
  lk_Get :: "string \<Rightarrow> 'r \<Rightarrow> string result \<times> 'r"
  lk_Del :: "string \<Rightarrow> 'r act"

text \<open>\<^verbatim>\<open>Acquire\<close> at time \<open>now\<close>; the release function is known by its token.\<close>

definition Acquire :: "'r lock_client \<Rightarrow> string \<Rightarrow> duration \<Rightarrow> time \<Rightarrow> 'r \<Rightarrow> string result \<times> 'r" where
  "Acquire client key ttl now r =
     (let token = itoa now in
      case lk_SetNX client key token ttl r of
        (Inl err, r') \<Rightarrow> (Inl (ErrWrap ''acquire lock: '' err []), r')
      | (Inr acquired, r') \<Rightarrow> if \<not> acquired then (Inl ErrLockHeld, r') else (Inr token, r'))"

text \<open>The first half of the release: whether the key still holds the token.\<close>

definition still_own :: "'r lock_client \<Rightarrow> string \<Rightarrow> string \<Rightarrow> 'r \<Rightarrow> bool \<times> 'r" where
  "still_own client key token r =
     (case lk_Get client key r of
        (Inl getErr, r') \<Rightarrow> (False, r')
      | (Inr current, r') \<Rightarrow> (current = token, r'))"

definition release :: "'r lock_client \<Rightarrow> string \<Rightarrow> string \<Rightarrow> 'r act" where
  "release client key token r =
     (case still_own client key token r of
        (own, r') \<Rightarrow> if \<not> own then (None, r') else lk_Del client key r')"

text \<open>\<^verbatim>\<open>NoopLocker\<close>: always granted, and the release does nothing.\<close>

definition noop_Acquire :: "string \<Rightarrow> duration \<Rightarrow> 'r \<Rightarrow> string result \<times> 'r" where
  "noop_Acquire key ttl r = (Inr [], r)"

definition noop_release :: "'r act" where
  "noop_release r = (None, r)"

section \<open>Processes\<close>

text \<open>
  The commands on the token of a key: \<^verbatim>\<open>SETNX\<close> stores it when there is none, \<^verbatim>\<open>GET\<close> reads it, \<^verbatim>\<open>DEL\<close> removes it.
  A command that reports an error may have been carried out or not.
\<close>

locale lock_server =
  fixes client :: "'r lock_client" and held :: "'r \<Rightarrow> string \<rightharpoonup> string"
  assumes setnx: "lk_SetNX client key token ttl r = (Inr acquired, r') \<Longrightarrow>
      (acquired \<longleftrightarrow> held r key = None) \<and> held r' = (if acquired then (held r)(key \<mapsto> token) else held r)"
    and setnx_failed: "lk_SetNX client key token ttl r = (Inl err, r') \<Longrightarrow>
      held r' = held r \<or> held r key = None \<and> held r' = (held r)(key \<mapsto> token)"
    and get: "lk_Get client key r = (x, r') \<Longrightarrow> held r' = held r \<and> (\<forall>v. x = Inr v \<longrightarrow> held r key = Some v)"
    and del: "lk_Del client key r = (y, r') \<Longrightarrow> held r' = (held r)(key := None) \<or> y \<noteq> None \<and> held r' = held r"

text \<open>A process waits, works under the lock, has checked that it still owns the lock, or is done.\<close>

datatype lock_stage = Waits | Works string | Checked string | Stopped

inductive lock_step ::
  "'r lock_client \<Rightarrow> string \<Rightarrow> duration \<Rightarrow> 'r \<times> lock_stage list \<Rightarrow> 'r \<times> lock_stage list \<Rightarrow> bool"
  for client :: "'r lock_client" and key :: string and ttl :: duration where
  acquired: "lock_step client key ttl (r, ps) (r', ps[i := Works token])"
    if "i < length ps" "ps ! i = Waits" "Acquire client key ttl now r = (Inr token, r')"
| refused: "lock_step client key ttl (r, ps) (r', ps[i := Stopped])"
    if "i < length ps" "ps ! i = Waits" "Acquire client key ttl now r = (Inl err, r')"
| checked: "lock_step client key ttl (r, ps) (r', ps[i := Checked token])"
    if "i < length ps" "ps ! i = Works token" "still_own client key token r = (True, r')"
| lost: "lock_step client key ttl (r, ps) (r', ps[i := Stopped])"
    if "i < length ps" "ps ! i = Works token" "still_own client key token r = (False, r')"
| deleted: "lock_step client key ttl (r, ps) (snd (lk_Del client key r), ps[i := Stopped])"
    if "i < length ps" "ps ! i = Checked token"

text \<open>The lease of the key runs out.\<close>

definition lease_ends :: "('r \<Rightarrow> string \<rightharpoonup> string) \<Rightarrow> string \<Rightarrow> 'r \<times> lock_stage list \<Rightarrow> 'r \<times> lock_stage list \<Rightarrow> bool" where
  "lease_ends held key s s' \<longleftrightarrow> held (fst s') = (held (fst s))(key := None) \<and> snd s' = snd s"

text \<open>The token a process believes to own, and the invariant while no lease runs out.\<close>

fun owns :: "lock_stage \<Rightarrow> string option" where
  "owns (Works token) = Some token"
| "owns (Checked token) = Some token"
| "owns _ = None"

definition exclusive :: "('r \<Rightarrow> string \<rightharpoonup> string) \<Rightarrow> string \<Rightarrow> 'r \<times> lock_stage list \<Rightarrow> bool" where
  "exclusive held key = (\<lambda>(r, ps). \<exists>i.
     (\<forall>j < length ps. j \<noteq> i \<longrightarrow> owns (ps ! j) = None)
     \<and> (i < length ps \<longrightarrow> owns (ps ! i) \<noteq> None \<longrightarrow> held r key = owns (ps ! i)))"

lemma exclusiveE:
  assumes "exclusive held key (r, ps)"
  obtains i where "\<forall>j < length ps. j \<noteq> i \<longrightarrow> owns (ps ! j) = None"
    "i < length ps \<longrightarrow> owns (ps ! i) \<noteq> None \<longrightarrow> held r key = owns (ps ! i)"
  using assms unfolding exclusive_def split_conv by blast

lemma exclusiveI:
  "(\<And>j. j < length ps \<Longrightarrow> j \<noteq> i \<Longrightarrow> owns (ps ! j) = None) \<Longrightarrow>
   (i < length ps \<Longrightarrow> owns (ps ! i) \<noteq> None \<Longrightarrow> held r key = owns (ps ! i)) \<Longrightarrow> exclusive held key (r, ps)"
  unfolding exclusive_def split_conv by blast

lemma exclusive_free:
  assumes "exclusive held key (r, ps)" and "held r key = None" and "j < length ps"
  shows "owns (ps ! j) = None"
proof -
  obtain i where i: "\<forall>j < length ps. j \<noteq> i \<longrightarrow> owns (ps ! j) = None"
    "i < length ps \<longrightarrow> owns (ps ! i) \<noteq> None \<longrightarrow> held r key = owns (ps ! i)" using assms(1) by (rule exclusiveE)
  show ?thesis using i assms(2,3) by (cases "j = i") auto
qed

lemma exclusive_others:
  assumes "exclusive held key (r, ps)" and "i < length ps" and "owns (ps ! i) \<noteq> None" and "j < length ps" and "j \<noteq> i"
  shows "owns (ps ! j) = None"
proof -
  obtain k where k: "\<forall>j < length ps. j \<noteq> k \<longrightarrow> owns (ps ! j) = None" using assms(1) by (rule exclusiveE)
  have "i = k" using spec [OF k, of i] assms(2,3) by simp
  then show ?thesis using spec [OF k, of j] assms(4,5) by simp
qed

lemma exclusive_fresh:
  assumes "\<And>j. j < length ps \<Longrightarrow> j \<noteq> i \<Longrightarrow> owns (ps ! j) = None" and "owns p = None \<or> held r' key = owns p"
  shows "exclusive held key (r', ps[i := p])"
  using assms by (intro exclusiveI [of _ i]) auto

lemma exclusive_update:
  assumes "exclusive held key (r, ps)" and "i < length ps" and "held r' key = held r key"
    and "owns p = None \<or> owns p = owns (ps ! i)"
  shows "exclusive held key (r', ps[i := p])"
proof -
  obtain k where k: "\<forall>j < length ps. j \<noteq> k \<longrightarrow> owns (ps ! j) = None"
    "k < length ps \<longrightarrow> owns (ps ! k) \<noteq> None \<longrightarrow> held r key = owns (ps ! k)" using assms(1) by (rule exclusiveE)
  have same: "owns (ps[i := p] ! j) = None \<or> owns (ps[i := p] ! j) = owns (ps ! j)" if "j < length ps" for j
    using assms(2,4) that by (cases "j = i") simp_all
  show ?thesis
  proof (rule exclusiveI [of _ k])
    show "owns (ps[i := p] ! j) = None" if "j < length (ps[i := p])" "j \<noteq> k" for j
      using same [of j] k(1) that by auto
    show "held r' key = owns (ps[i := p] ! k)" if "k < length (ps[i := p])" "owns (ps[i := p] ! k) \<noteq> None"
      using same [of k] k(2) that assms(3) by simp
  qed
qed

context lock_server
begin

lemma acquire_granted:
  "Acquire client key ttl now r = (Inr token, r') \<Longrightarrow> held r key = None \<and> held r' = (held r)(key \<mapsto> token)"
  by (auto simp: Acquire_def Let_def dest!: setnx split: prod.splits sum.splits if_splits)

lemma acquire_refused:
  "Acquire client key ttl now r = (Inl err, r') \<Longrightarrow>
     held r' = held r \<or> held r key = None \<and> held r' = (held r)(key \<mapsto> itoa now)"
  by (auto simp: Acquire_def Let_def dest!: setnx setnx_failed split: prod.splits sum.splits if_splits)

lemma still_own_same: "still_own client key token r = (own, r') \<Longrightarrow> held r' = held r"
  by (cases "lk_Get client key r") (auto simp: still_own_def dest: get split: sum.splits)

lemma step_exclusive:
  assumes "lock_step client key ttl s s'" and "exclusive held key s"
  shows "exclusive held key s'"
  using assms(1)
proof (cases rule: lock_step.cases)
  case (acquired i ps now r token r')
  have h: "held r key = None" "held r' = (held r)(key \<mapsto> token)" using acquire_granted [OF acquired(5)] by auto
  then have "owns (ps ! j) = None" if "j < length ps" for j
    using exclusive_free [of held key r ps j] assms(2) acquired(1) that by simp
  then show ?thesis using acquired(2) h by (auto intro!: exclusive_fresh)
next
  case (refused i ps now r err r')
  show ?thesis
  proof (cases "held r' = held r")
    case True
    then show ?thesis using assms(2) refused by (auto intro!: exclusive_update [of held key r])
  next
    case False
    then have "held r key = None" using acquire_refused [OF refused(5)] by blast
    then have "owns (ps ! j) = None" if "j < length ps" for j
      using exclusive_free [of held key r ps j] assms(2) refused(1) that by simp
    then show ?thesis using refused(2) by (auto intro!: exclusive_fresh)
  qed
next
  case (checked i ps token r r')
  then show ?thesis using assms(2) still_own_same [OF checked(5)] by (auto intro!: exclusive_update [of held key r])
next
  case (lost i ps token r r')
  then show ?thesis using assms(2) still_own_same [OF lost(5)] by (auto intro!: exclusive_update [of held key r])
next
  case (deleted i ps token r)
  then have "owns (ps ! j) = None" if "j < length ps" "j \<noteq> i" for j
    using exclusive_others [of held key r ps i j] assms(2) that by simp
  then show ?thesis using deleted(2) by (auto intro!: exclusive_fresh)
qed

lemma steps_exclusive:
  "(lock_step client key ttl)\<^sup>*\<^sup>* s s' \<Longrightarrow> exclusive held key s \<Longrightarrow> exclusive held key s'"
  by (induction rule: rtranclp_induct) (blast intro: step_exclusive)+

end

text \<open>
  C33: one run at a time: as long as no lease runs out, of any number of processes that acquire and
  release the lock in any interleaving, and whatever commands fail, at most one is between its
  acquisition and the end of its release.
\<close>

theorem lock_excludes:
  assumes "lock_server client held" and "held r key = None" and "list_all (\<lambda>p. p = Waits) ps"
    and "(lock_step client key ttl)\<^sup>*\<^sup>* (r, ps) (r', ps')"
  shows "length (filter (\<lambda>p. owns p \<noteq> None) ps') \<le> 1"
proof -
  have "exclusive held key (r, ps)" using assms(3) by (auto simp: exclusive_def list_all_length)
  then have "exclusive held key (r', ps')" using lock_server.steps_exclusive [OF assms(1,4)] by blast
  then have "i = j" if "i < length ps'" "j < length ps'" "owns (ps' ! i) \<noteq> None" "owns (ps' ! j) \<noteq> None" for i j
    using that exclusive_others by metis
  then have "card {i. i < length ps' \<and> owns (ps' ! i) \<noteq> None} \<le> 1"
    by (intro card_le_Suc0_iff_eq [THEN iffD2, simplified One_nat_def [symmetric]]) auto
  then show ?thesis by (simp add: length_filter_conv_card)
qed

section \<open>When a lease runs out\<close>

text \<open>A server that never fails.\<close>

definition map_client :: "(string \<rightharpoonup> string) lock_client" where
  "map_client =
     \<lparr>lk_SetNX = (\<lambda>key token ttl r. if r key = None then (Inr True, r(key \<mapsto> token)) else (Inr False, r)),
      lk_Get = (\<lambda>key r. case r key of Some v \<Rightarrow> (Inr v, r) | None \<Rightarrow> (Inl (ErrText ''redis: nil''), r)),
      lk_Del = (\<lambda>key r. (None, r(key := None)))\<rparr>"

interpretation map_lock: lock_server map_client "\<lambda>r. r"
  by unfold_locales (auto simp: map_client_def split: option.splits if_splits)

lemma map_commands [simp]:
  "r key = None \<Longrightarrow> Acquire map_client key ttl now r = (Inr (itoa now), r(key \<mapsto> itoa now))"
  "r key = Some token \<Longrightarrow> still_own map_client key token r = (True, r)"
  "lk_Del map_client key r = (None, r(key := None))"
  by (simp_all add: Acquire_def still_own_def map_client_def Let_def)

lemma map_steps:
  "i < length ps \<Longrightarrow> ps ! i = Waits \<Longrightarrow> r key = None \<Longrightarrow>
     lock_step map_client key ttl (r, ps) (r(key \<mapsto> itoa now), ps[i := Works (itoa now)])"
  "i < length ps \<Longrightarrow> ps ! i = Works token \<Longrightarrow> r key = Some token \<Longrightarrow>
     lock_step map_client key ttl (r, ps) (r, ps[i := Checked token])"
  "i < length ps \<Longrightarrow> ps ! i = Checked token \<Longrightarrow>
     lock_step map_client key ttl (r, ps) (r(key := None), ps[i := Stopped])"
  using lock_step.acquired [of i ps map_client key ttl now r "itoa now"]
    lock_step.checked [of i ps token map_client key r r ttl] lock_step.deleted [of i ps token map_client key ttl r] by simp_all

theorem lock_excludes_witness:
  "(lock_step map_client ''k'' 5)\<^sup>*\<^sup>* (Map.empty, [Waits, Waits]) ([''k'' \<mapsto> itoa 3], [Works (itoa 3), Waits])
   \<and> length (filter (\<lambda>p. owns p \<noteq> None) [Works (itoa 3), Waits]) \<le> 1"
proof -
  have "lock_step map_client ''k'' 5 (Map.empty, [Waits, Waits]) ([''k'' \<mapsto> itoa 3], [Works (itoa 3), Waits])"
    using map_steps(1) [of 0 "[Waits, Waits]" Map.empty "''k''" 5 3] by simp
  then have run: "(lock_step map_client ''k'' 5)\<^sup>*\<^sup>* (Map.empty, [Waits, Waits]) ([''k'' \<mapsto> itoa 3], [Works (itoa 3), Waits])"
    by blast
  from run lock_excludes [OF map_lock.lock_server_axioms _ _ this] show ?thesis by simp
qed


end
