(* ===== verification/Matching_Main.thy ===== *)
theory Matching_Main
  imports Matcher_Props Batch_Lock API_Main
begin

text \<open>
  \<^verbatim>\<open>cmd/matching-engine/main.go\<close>: one scheduled reconciliation run, from its configuration to its report. The
  command line flags, the environment, the Redis client and the sources of time and randomness of the
  run are the record \<open>match_env\<close>; readings 0 and 1 of the clock are the end of the window and the token
  of the lock. The program ends with what it prints or with a fatal error; a fatal error exits at once,
  without the deferred release of the lock.
\<close>

section \<open>main.go\<close>

record 'r match_env =
  me_Getenv :: "string \<Rightarrow> string"
  me_ReadDir :: "string \<Rightarrow> dir_entry list result"
  me_Redis :: "string \<Rightarrow> 'r lock_client"
  me_Run :: env
  me_lookback :: duration
  me_lockTTL :: duration

datatype program_end = Fatal string | Finished string

definition line_feed :: string where "line_feed = [CHR 0x0A]"

definition count_lines :: "(string \<times> nat) list \<Rightarrow> string" where
  "count_lines counts = concat (map (\<lambda>(k, n). ''  '' @ k @ '': '' @ dec_nat n @ line_feed) counts)"

definition printReport :: "env \<Rightarrow> nat \<Rightarrow> Report \<Rightarrow> string" where
  "printReport env n report =
     ''window: '' @ rfc3339 (rp_WindowStart report) @ '' to '' @ rfc3339 (rp_WindowEnd report) @ line_feed
     @ ''matched: '' @ dec_nat (TotalMatched report) @ line_feed
     @ count_lines (in_range_order env n (rp_MatchedByConfidence report))
     @ ''exceptions: '' @ dec_nat (TotalExceptions report) @ line_feed
     @ count_lines (in_range_order env (Suc n) (rp_ExceptionsByReason report))"

definition window_lock :: string where
  "window_lock = ''matching-engine:window-lock''"

text \<open>The lock of \<^verbatim>\<open>REDIS_ADDR\<close>, or none.\<close>

definition acquire_window :: "'r match_env \<Rightarrow> 'r \<Rightarrow> string result \<times> 'r" where
  "acquire_window env r =
     (let addr = me_Getenv env ''REDIS_ADDR'' in
      if addr \<noteq> [] then Acquire (me_Redis env addr) window_lock (me_lockTTL env) (ev_clock (me_Run env) 1) r
      else noop_Acquire window_lock (me_lockTTL env) r)"

definition release_window :: "'r match_env \<Rightarrow> string \<Rightarrow> 'r act" where
  "release_window env token =
     (let addr = me_Getenv env ''REDIS_ADDR'' in
      if addr \<noteq> [] then release (me_Redis env addr) window_lock token else noop_release)"

text \<open>The run itself, under the lock.\<close>

definition locked_run ::
  "'r match_env \<Rightarrow> engine \<Rightarrow> db \<times> 'r \<Rightarrow> program_end \<times> db \<times> 'r" where
  "locked_run env e dr =
     (case dr of (d, r) \<Rightarrow>
       (let end' = ev_clock (me_Run env) 0; start = time_add end' (dur_neg (me_lookback env)) in
        case acquire_window env r of
          (Inl err, r1) \<Rightarrow> (Fatal (''could not acquire window lock: '' @ err_text err), d, r1)
        | (Inr token, r1) \<Rightarrow>
            (case RunWindow (mysql_engine e (me_Run env) (NewTier3Client (me_Getenv env ''FUZZY_RANKER_URL''))) start end' 2 d of
               (Some err, s) \<Rightarrow> (Fatal (''matching run failed: '' @ err_text err), ru_store s, r1)
             | (None, s) \<Rightarrow>
                 (Finished (printReport (me_Run env) (ru_tick s) (ru_report s)), ru_store s,
                  snd (release_window env token r1)))))"

definition matching_main ::
  "'r match_env \<Rightarrow> db migration_client \<Rightarrow> (string \<Rightarrow> time) \<Rightarrow> engine result \<Rightarrow> db \<times> 'r \<Rightarrow> program_end \<times> db \<times> 'r" where
  "matching_main env client now opened dr =
     (case dr of (d, r) \<Rightarrow>
        if me_Getenv env ''DB_DSN'' = [] then (Fatal ''DB_DSN is required'', d, r)
        else (case opened of
                Inl err \<Rightarrow> (Fatal (err_text err), d, r)
              | Inr e \<Rightarrow>
                  (case ApplyMigrations client now
                          (me_ReadDir env (main_firstNonEmpty [me_Getenv env ''MIGRATIONS_DIR'', ''migrations''])) d of
                     (Some err, d1) \<Rightarrow> (Fatal (err_text err), d1, r)
                   | (None, d1) \<Rightarrow> locked_run env e (d1, r))))"

section \<open>A finished run\<close>

lemma finished_steps:
  assumes "matching_main env client now (Inr e) (d, r) = (Finished out, d', r')"
    and "ApplyMigrations client now (me_ReadDir env (main_firstNonEmpty [me_Getenv env ''MIGRATIONS_DIR'', ''migrations''])) d = (None, d1)"
  obtains token r1 s where "acquire_window env r = (Inr token, r1)"
    "RunWindow (mysql_engine e (me_Run env) (NewTier3Client (me_Getenv env ''FUZZY_RANKER_URL'')))
       (time_add (ev_clock (me_Run env) 0) (dur_neg (me_lookback env))) (ev_clock (me_Run env) 0) 2 d1 = (None, s)"
    "d' = ru_store s"
proof -
  have run: "locked_run env e (d1, r) = (Finished out, d', r')"
    using assms by (simp add: matching_main_def split: if_splits)
  then obtain token r1 where acq: "acquire_window env r = (Inr token, r1)"
    by (auto simp: locked_run_def Let_def split: prod.splits sum.splits)
  obtain x s where s: "RunWindow (mysql_engine e (me_Run env) (NewTier3Client (me_Getenv env ''FUZZY_RANKER_URL'')))
       (time_add (ev_clock (me_Run env) 0) (dur_neg (me_lookback env))) (ev_clock (me_Run env) 0) 2 d1 = (x, s)"
    by (metis prod.exhaust)
  have "x = None \<and> d' = ru_store s" using run acq s by (cases x) (simp_all add: locked_run_def Let_def)
  then show thesis using that [OF acq] s by simp
qed


definition idle_migrations :: "db migration_client" where
  "idle_migrations = \<lparr>mc_CreateTracker = (\<lambda>d. (None, d)), mc_Count = (\<lambda>name d. (Inr 1, d)),
     mc_Exec = (\<lambda>statement d. (None, d)), mc_Record = (\<lambda>name t d. (None, d))\<rparr>"

definition sample_match_env :: "env \<Rightarrow> (string \<rightharpoonup> string) match_env" where
  "sample_match_env env =
     \<lparr>me_Getenv = (\<lambda>name. if name = ''FUZZY_RANKER_URL'' \<or> name = ''MIGRATIONS_DIR'' then [] else ''set''),
      me_ReadDir = (\<lambda>path. Inr []), me_Redis = (\<lambda>addr. map_client), me_Run = env, me_lookback = day, me_lockTTL = 5\<rparr>"

lemma idle_applied: "ApplyMigrations idle_migrations now (me_ReadDir (sample_match_env env) path) d = (None, d)"
  by (simp add: ApplyMigrations_def idle_migrations_def sample_match_env_def migration_names_def)


text \<open>
  A failed run leaves the lock behind: the program exits on an error of the run without the deferred
  release, so the window lock stays set, and until its lease ends every further run is refused.
\<close>

theorem failed_run_keeps_lock:
  assumes "lock_server (me_Redis env (me_Getenv env ''REDIS_ADDR'')) held" and "me_Getenv env ''REDIS_ADDR'' \<noteq> []"
    and "locked_run env e (d, r) = (Fatal (''matching run failed: '' @ msg), d', r')"
  shows "held r' window_lock \<noteq> None
    \<and> (\<forall>env' e' d2. me_Getenv env' = me_Getenv env \<and> me_Redis env' = me_Redis env \<longrightarrow>
         (\<exists>msg'. fst (locked_run env' e' (d2, r')) = Fatal (''could not acquire window lock: '' @ msg')))"
proof -
  let ?c = "me_Redis env (me_Getenv env ''REDIS_ADDR'')"
  obtain token where acq: "Acquire ?c window_lock (me_lockTTL env) (ev_clock (me_Run env) 1) r = (Inr token, r')"
    using assms(2,3) by (auto simp: locked_run_def acquire_window_def Let_def split: prod.splits sum.splits option.splits)
  then have held: "held r' window_lock = Some token"
    using lock_server.setnx [OF assms(1)] by (auto simp: Acquire_def Let_def split: prod.splits sum.splits if_splits)
  have "isl (fst (Acquire ?c window_lock ttl t r'))" for ttl t
    using held lock_server.setnx [OF assms(1), of window_lock "itoa t" ttl r']
    by (auto simp: Acquire_def Let_def split: prod.splits sum.splits if_splits)
  then have "\<exists>msg'. fst (locked_run env' e' (d2, r')) = Fatal (''could not acquire window lock: '' @ msg')"
    if "me_Getenv env' = me_Getenv env \<and> me_Redis env' = me_Redis env" for env' e' d2
    using that assms(2) by (auto simp: locked_run_def acquire_window_def Let_def isl_def split: prod.splits sum.splits)
       (metis fst_conv sum.distinct(1))+
  then show ?thesis using held by simp
qed

theorem failed_run_keeps_lock_witness:
  "\<exists>msg d' r'. locked_run (sample_match_env sample_env) (ideal_engine\<lparr>eg_fault := (\<lambda>n. Some (ErrText ''down''))\<rparr>) (empty_db, Map.empty)
        = (Fatal (''matching run failed: '' @ msg), d', r')
     \<and> r' window_lock \<noteq> None
     \<and> (\<exists>msg'. fst (locked_run (sample_match_env sample_env) ideal_engine (d', r')) = Fatal (''could not acquire window lock: '' @ msg'))"
proof -
  let ?env = "sample_match_env sample_env" and ?e = "ideal_engine\<lparr>eg_fault := (\<lambda>n. Some (ErrText ''down''))\<rparr>"
  have sel: "me_Getenv ?env ''REDIS_ADDR'' = ''set''" "me_Redis ?env a = map_client" for a
    by (simp_all add: sample_match_env_def)
  let ?rw = "RunWindow (mysql_engine ?e (me_Run ?env) (NewTier3Client (me_Getenv ?env ''FUZZY_RANKER_URL'')))
      (time_add (ev_clock (me_Run ?env) 0) (dur_neg (me_lookback ?env))) (ev_clock (me_Run ?env) 0) 2 empty_db"
  obtain err s where "?rw = (Some err, s)"
    by (simp add: RunWindow_def act_then_def wrap_err_def runSettlementSide_def mysql_recon_def
        my_GetUnmatchedPaymentsInWindow_def query_def OpenMySQLStore_def Let_def)
  then obtain msg d' r' where run: "locked_run ?env ?e (empty_db, Map.empty) = (Fatal (''matching run failed: '' @ msg), d', r')"
    by (simp add: locked_run_def acquire_window_def sel Let_def)
  have "lock_server (me_Redis ?env (me_Getenv ?env ''REDIS_ADDR'')) (\<lambda>r. r)" by (simp add: sel map_lock.lock_server_axioms)
  from failed_run_keeps_lock [OF this _ run] sel have "r' window_lock \<noteq> None
      \<and> (\<exists>msg'. fst (locked_run ?env ideal_engine (d', r')) = Fatal (''could not acquire window lock: '' @ msg'))" by simp
  with run show ?thesis by blast
qed

end
