(* ===== verification/Ingest_Sources.thy ===== *)
theory Ingest_Sources
  imports Ingest_Props Go_Struct
begin

text \<open>
  Where payloads come from: the landing directory (\<^verbatim>\<open>LoadLandingDir\<close> of \<^verbatim>\<open>sources.go\<close>, \<^verbatim>\<open>ProcessLandingDir\<close> and
  its helpers of \<^verbatim>\<open>worker.go\<close>), the decoding of queue bodies (\<^verbatim>\<open>DecodeQueueBody\<close>) and the AWS adapters
  (\<^verbatim>\<open>awsx.go\<close>). The file system and the AWS clients are records of the calls the code makes; the file tree
  is what \<^verbatim>\<open>filepath.Walk\<close> sees, with the entries of a directory in the order of their names. Paths are
  clean, as \<^verbatim>\<open>filepath.Join\<close> makes them.
\<close>

section \<open>sources.go: the landing directory\<close>

record FileJob =
  fj_Path :: string
  fj_Source :: string
  fj_Body :: string

text \<open>A file, a directory with its entries or the error of reading it, an entry without information.\<close>

datatype fs_node =
    FsFile string
  | FsDir string "fs_node list result"
  | FsGone string go_error

fun node_name :: "fs_node \<Rightarrow> string" where
  "node_name (FsFile name) = name"
| "node_name (FsDir name kids) = name"
| "node_name (FsGone name err) = name"

record 'f fs_client =
  fs_Lstat :: "string \<Rightarrow> 'f \<Rightarrow> fs_node"
  fs_ReadFile :: "string \<Rightarrow> 'f \<Rightarrow> string result"
  fs_IsNotExist :: "go_error \<Rightarrow> bool"
  fs_MkdirAll :: "string \<Rightarrow> 'f act"
  fs_Rename :: "string \<Rightarrow> string \<Rightarrow> 'f act"

definition path_join :: "string \<Rightarrow> string \<Rightarrow> string" where
  "path_join dir name = dir @ ''/'' @ name"

definition path_base :: "string \<Rightarrow> string" where
  "path_base path = rev (takeWhile (\<lambda>c. c \<noteq> CHR ''/'') (rev path))"

text \<open>The function given to \<^verbatim>\<open>filepath.Walk\<close>, for a file.\<close>

definition load_file :: "(string \<Rightarrow> string result) \<Rightarrow> string \<Rightarrow> FileJob list result" where
  "load_file readFile path =
     (case sourceFromPath path of
        None \<Rightarrow> Inr []
      | Some source \<Rightarrow>
          (case readFile path of
             Inl err \<Rightarrow> Inl err
           | Inr body \<Rightarrow> Inr [\<lparr>fj_Path = path, fj_Source = source, fj_Body = body\<rparr>]))"

fun walk_node :: "(string \<Rightarrow> string result) \<Rightarrow> string \<Rightarrow> fs_node \<Rightarrow> FileJob list result"
  and walk_nodes :: "(string \<Rightarrow> string result) \<Rightarrow> string \<Rightarrow> fs_node list \<Rightarrow> FileJob list result" where
  "walk_node readFile path (FsGone name walkErr) = Inl walkErr"
| "walk_node readFile path (FsDir name (Inl walkErr)) = Inl walkErr"
| "walk_node readFile path (FsDir name (Inr kids)) =
     (if to_lower name = ''processed'' \<or> to_lower name = ''failed'' then Inr []
      else walk_nodes readFile path kids)"
| "walk_node readFile path (FsFile name) = load_file readFile path"
| "walk_nodes readFile path [] = Inr []"
| "walk_nodes readFile path (kid # kids) =
     (case walk_node readFile (path_join path (node_name kid)) kid of
        Inl err \<Rightarrow> Inl err
      | Inr jobs \<Rightarrow> map_sum id (\<lambda>more. jobs @ more) (walk_nodes readFile path kids))"

definition LoadLandingDir :: "'f fs_client \<Rightarrow> string \<Rightarrow> 'f \<Rightarrow> FileJob list result" where
  "LoadLandingDir fs root f = walk_node (\<lambda>path. fs_ReadFile fs path f) root (fs_Lstat fs root f)"

section \<open>worker.go: the landing directory\<close>

definition signatureBeside :: "'f fs_client \<Rightarrow> string \<Rightarrow> 'f \<Rightarrow> string option result" where
  "signatureBeside fs path f =
     (case fs_ReadFile fs (path @ ''.sig'') f of
        Inl err \<Rightarrow> if fs_IsNotExist fs err then Inr None else Inl err
      | Inr body \<Rightarrow> Inr (Some (trim_space body)))"

definition moveBeside :: "'f fs_client \<Rightarrow> string \<Rightarrow> string \<Rightarrow> string \<Rightarrow> 'f act" where
  "moveBeside fs path root bucket =
     (let targetDir = path_join root bucket
      in act_then (fs_MkdirAll fs targetDir) (fs_Rename fs path (path_join targetDir (path_base path))))"

text \<open>The envelope of a job; a webhook without a signature file is passed over.\<close>

definition job_envelope :: "('s, 'c) Pipeline \<Rightarrow> 'f fs_client \<Rightarrow> FileJob \<Rightarrow> 'f \<Rightarrow> Envelope option result" where
  "job_envelope pipeline fs job f =
     (let envelope = \<lparr>ep_Source = fj_Source job, ep_Body = fj_Body job, ep_SignatureHex = [],
                      ep_HMACSecret = pl_Secret pipeline, ep_ObjectKey = fj_Path job\<rparr>
      in if fj_Source job = SourceWebhook
         then (case signatureBeside fs (fj_Path job) f of
                 Inl sigErr \<Rightarrow> Inl sigErr
               | Inr None \<Rightarrow> Inr None
               | Inr (Some signature) \<Rightarrow> Inr (Some (envelope\<lparr>ep_SignatureHex := signature\<rparr>)))
         else Inr (Some envelope))"

definition no_result :: Result where
  "no_result = \<lparr>rt_Status = [], rt_Reason = [], rt_Applied = 0\<rparr>"

fun process_jobs ::
  "('s, 'c) Pipeline \<Rightarrow> 'f fs_client \<Rightarrow> string \<Rightarrow> nat \<Rightarrow> FileJob list \<Rightarrow>
   ('s, 'c) pipe \<times> 'f \<Rightarrow> (Result \<times> go_error option) \<times> ('s, 'c) pipe \<times> 'f" where
  "process_jobs pipeline fs root applied [] (p, f) =
     ((\<lparr>rt_Status = StatusApplied, rt_Reason = [], rt_Applied = applied\<rparr>, None), p, f)"
| "process_jobs pipeline fs root applied (job # jobs) (p, f) =
     (case job_envelope pipeline fs job f of
        Inl sigErr \<Rightarrow> ((no_result, Some sigErr), p, f)
      | Inr None \<Rightarrow> process_jobs pipeline fs root applied jobs (p, f)
      | Inr (Some envelope) \<Rightarrow>
          (case Process pipeline envelope p of
             ((result, processErr), p') \<Rightarrow>
               if processErr \<noteq> None \<or> \<not> ShouldAck result
               then (case moveBeside fs (fj_Path job) root ''failed'' f of
                       (Some moveErr, f') \<Rightarrow> ((no_result, Some moveErr), p', f')
                     | (None, f') \<Rightarrow> process_jobs pipeline fs root applied jobs (p', f'))
               else (case moveBeside fs (fj_Path job) root ''processed'' f of
                       (Some err, f') \<Rightarrow> ((no_result, Some err), p', f')
                     | (None, f') \<Rightarrow> process_jobs pipeline fs root (applied + rt_Applied result) jobs (p', f'))))"

definition ProcessLandingDir ::
  "('s, 'c) Pipeline \<Rightarrow> 'f fs_client \<Rightarrow> string \<Rightarrow> ('s, 'c) pipe \<times> 'f \<Rightarrow>
   (Result \<times> go_error option) \<times> ('s, 'c) pipe \<times> 'f" where
  "ProcessLandingDir pipeline fs root pf =
     (case LoadLandingDir fs root (snd pf) of
        Inl err \<Rightarrow> ((no_result, Some err), pf)
      | Inr jobs \<Rightarrow> process_jobs pipeline fs root 0 jobs pf)"

section \<open>sources.go: queue bodies\<close>

record direct_body =
  db_Source :: string
  db_Bucket :: string
  db_Key :: string
  db_Signature :: string
  db_Payload :: string

definition direct_fields :: "direct_body reader" where
  "direct_fields =
     read_struct
       [(''source'', field_of db_Source (\<lambda>x r. r\<lparr>db_Source := x\<rparr>) read_string),
        (''bucket'', field_of db_Bucket (\<lambda>x r. r\<lparr>db_Bucket := x\<rparr>) read_string),
        (''key'', field_of db_Key (\<lambda>x r. r\<lparr>db_Key := x\<rparr>) read_string),
        (''signature'', field_of db_Signature (\<lambda>x r. r\<lparr>db_Signature := x\<rparr>) read_string),
        (''payload'', field_of db_Payload (\<lambda>x r. r\<lparr>db_Payload := x\<rparr>) read_raw)]"

text \<open>An S3 event: for each record the name of its bucket and the key of its object.\<close>

definition event_fields :: "(string \<times> string) list reader" where
  "event_fields =
     read_struct [(''Records'', read_slice
       (read_struct [(''s3'', read_struct
          [(''bucket'', field_of fst (\<lambda>x r. (x, snd r)) (read_struct [(''name'', read_string)])),
           (''object'', field_of snd (\<lambda>x r. (fst r, x)) (read_struct [(''key'', read_string)]))])]) ([], []))]"

definition source_of_key :: "string \<Rightarrow> string" where
  "source_of_key key = (case sourceFromPath (''/'' @ key) of Some source \<Rightarrow> source | None \<Rightarrow> [])"

definition queue_message :: "string \<Rightarrow> string \<Rightarrow> string \<Rightarrow> string \<Rightarrow> string \<Rightarrow> QueueMessage" where
  "queue_message body signature source bucket key =
     \<lparr>qm_ID = [], qm_Receipt = [], qm_Body = body, qm_Signature = signature, qm_Source = source,
      qm_Bucket = bucket, qm_Key = key\<rparr>"

definition decode_event :: "string \<Rightarrow> QueueMessage result" where
  "decode_event body =
     (case json_unmarshal_into event_fields [] body of
        Inl err \<Rightarrow> Inl (ErrText ''unsupported queue body'')
      | Inr [] \<Rightarrow> Inl (ErrText ''s3 event contained no records'')
      | Inr ((bucket, key) # records) \<Rightarrow> Inr (queue_message [] [] (source_of_key key) bucket key))"

definition DecodeQueueBody :: "string \<Rightarrow> QueueMessage result" where
  "DecodeQueueBody body =
     (case json_unmarshal_into direct_fields \<lparr>db_Source = [], db_Bucket = [], db_Key = [], db_Signature = [], db_Payload = []\<rparr> body of
        Inl err \<Rightarrow> decode_event body
      | Inr direct \<Rightarrow>
          if db_Source direct \<noteq> [] \<or> db_Key direct \<noteq> [] \<or> db_Payload direct \<noteq> []
          then Inr (queue_message (db_Payload direct) (db_Signature direct)
                     (if db_Source direct = [] then source_of_key (db_Key direct) else db_Source direct)
                     (db_Bucket direct) (db_Key direct))
          else decode_event body)"

section \<open>awsx.go\<close>

text \<open>The clients of the AWS SDK; a missing string is a nil pointer.\<close>

record sqs_message =
  sm_Body :: "string option"
  sm_MessageId :: "string option"
  sm_ReceiptHandle :: "string option"
  sm_Attributes :: "string \<rightharpoonup> string option"

record 'q sqs_client =
  sq_ReceiveMessage :: "string \<Rightarrow> int \<Rightarrow> int \<Rightarrow> 'q \<Rightarrow> sqs_message list result \<times> 'q"
  sq_DeleteMessage :: "string \<Rightarrow> string \<Rightarrow> 'q act"

definition aws_ToString :: "string option \<Rightarrow> string" where
  "aws_ToString s = (case s of Some t \<Rightarrow> t | None \<Rightarrow> [])"

definition received_message :: "sqs_message \<Rightarrow> QueueMessage" where
  "received_message message =
     (let body = aws_ToString (sm_Body message);
          decoded = (case DecodeQueueBody body of Inr m \<Rightarrow> m | Inl decodeErr \<Rightarrow> queue_message body [] [] [] []);
          named = decoded\<lparr>qm_ID := aws_ToString (sm_MessageId message),
                          qm_Receipt := aws_ToString (sm_ReceiptHandle message)\<rparr>
      in case sm_Attributes message ''signature'' of
           Some (Some signature) \<Rightarrow> named\<lparr>qm_Signature := signature\<rparr>
         | _ \<Rightarrow> named)"

definition sqs_Receive :: "'q sqs_client \<Rightarrow> string \<Rightarrow> 'q \<Rightarrow> QueueMessage list result \<times> 'q" where
  "sqs_Receive client queueURL q =
     (case sq_ReceiveMessage client queueURL 5 5 q of
        (Inl err, q') \<Rightarrow> (Inl err, q')
      | (Inr messages, q') \<Rightarrow> (Inr (map received_message messages), q'))"

definition sqs_Delete :: "'q sqs_client \<Rightarrow> string \<Rightarrow> string \<Rightarrow> 'q act" where
  "sqs_Delete client queueURL receipt = sq_DeleteMessage client queueURL receipt"

definition NewSQSQueue :: "'q sqs_client \<Rightarrow> string \<Rightarrow> 'q Queue" where
  "NewSQSQueue client queueURL =
     \<lparr>qu_Receive = sqs_Receive client queueURL, qu_Delete = sqs_Delete client queueURL\<rparr>"

text \<open>An object: the answer of \<^verbatim>\<open>GetObject\<close>, and the outcome of reading its body.\<close>

type_synonym s3_client = "nat \<Rightarrow> string \<Rightarrow> string \<Rightarrow> string result result"

definition s3_Get :: "s3_client \<Rightarrow> ObjectStore" where
  "s3_Get getObject n bucket key =
     (case getObject n bucket key of Inl err \<Rightarrow> Inl err | Inr content \<Rightarrow> content)"

text \<open>
  The configuration: the options handed to \<^verbatim>\<open>config.LoadDefaultConfig\<close>, and the client of a loaded
  configuration, with path-style addressing when an endpoint is set.
\<close>

record load_options =
  lo_Region :: string
  lo_BaseEndpoint :: "string option"

definition NewLocalAWSClients :: "(string \<Rightarrow> string) \<Rightarrow> (load_options \<Rightarrow> 'g result) \<Rightarrow> 'g result" where
  "NewLocalAWSClients getenv load =
     (let endpoint = getenv ''AWS_ENDPOINT_URL'' in
      load \<lparr>lo_Region = firstNonEmpty [getenv ''AWS_REGION'', ''ap-south-1''],
            lo_BaseEndpoint = (if endpoint \<noteq> [] then Some endpoint else None)\<rparr>)"

definition NewS3Store :: "(string \<Rightarrow> string) \<Rightarrow> ('g \<Rightarrow> bool \<Rightarrow> s3_client) \<Rightarrow> 'g \<Rightarrow> ObjectStore" where
  "NewS3Store getenv newFromConfig cfg = s3_Get (newFromConfig cfg (getenv ''AWS_ENDPOINT_URL'' \<noteq> []))"

section \<open>Queue bodies\<close>

text \<open>A direct envelope as a producer writes it.\<close>

definition direct_text :: "direct_body \<Rightarrow> string" where
  "direct_text b =
     raw_text [(''source'', json_string (db_Source b)), (''bucket'', json_string (db_Bucket b)), (''key'', json_string (db_Key b)),
               (''signature'', json_string (db_Signature b)), (''payload'', db_Payload b)]"

lemma direct_read:
  assumes "plain (db_Source b)" "plain (db_Bucket b)" "plain (db_Key b)" "plain (db_Signature b)" and "readable 1 (db_Payload b) j"
  shows "json_unmarshal_into direct_fields zero (direct_text b) = Inr b"
proof -
  let ?kvs = "[(''source'', json_string (db_Source b)), (''bucket'', json_string (db_Bucket b)), (''key'', json_string (db_Key b)),
               (''signature'', json_string (db_Signature b)), (''payload'', db_Payload b)]"
  have names: "plain ''source''" "plain ''bucket''" "plain ''key''" "plain ''signature''" "plain ''payload''"
    by (simp_all add: plain_char_def)
  then have parts: "list_all (\<lambda>(k, v). plain k \<and> (\<exists>j. readable 1 v j)) ?kvs"
    using assms solid_readable [OF solid_string, of _ 1] by auto
  then obtain j' where j': "readable 0 (raw_text ?kvs) j'" using readable_object [of ?kvs 0] by auto
  show ?thesis
    unfolding direct_fields_def direct_text_def
    by (simp only: unmarshal_into_readable [OF j'] read_struct_rendered [OF list.distinct(2) parts])
       (simp add: assms field_is_ascii field_of_def read_string_plain read_raw_def lower_char_other in_range_def)
qed

text \<open>
  C39: a queue body survives its transport: for every direct envelope with plain text fields and any
  payload that is a JSON value, decoding the body gives the message with exactly these fields and the
  text of the payload byte for byte; a source that was left out is taken from the folder of the key.
\<close>

theorem queue_body_round_trip:
  assumes "plain (db_Source b)" "plain (db_Bucket b)" "plain (db_Key b)" "plain (db_Signature b)" and "readable 1 (db_Payload b) j"
  shows "DecodeQueueBody (direct_text b)
       = Inr \<lparr>qm_ID = [], qm_Receipt = [], qm_Body = db_Payload b, qm_Signature = db_Signature b,
             qm_Source = (if db_Source b = [] then source_of_key (db_Key b) else db_Source b),
             qm_Bucket = db_Bucket b, qm_Key = db_Key b\<rparr>"
proof -
  have "db_Payload b \<noteq> []" using assms(5) by (simp add: readable_def)
  then show ?thesis using direct_read [OF assms] by (simp add: DecodeQueueBody_def queue_message_def)
qed

lemma sample_payload_readable: "\<exists>j. readable 1 (raw_text sample_line_fields) j"
proof (rule readable_object)
  show "list_all (\<lambda>(k, v). plain k \<and> (\<exists>j. readable (Suc 1) v j)) sample_line_fields"
    by (rule list_all_readable) (use sample_solid in \<open>simp add: sample_line_fields_def plain_char_def\<close>)
qed (simp_all add: sample_line_fields_def)

theorem queue_body_round_trip_witness:
  "DecodeQueueBody (direct_text \<lparr>db_Source = [], db_Bucket = ''landing'', db_Key = ''ledger/1.json'', db_Signature = [],
       db_Payload = raw_text sample_line_fields\<rparr>)
   = Inr \<lparr>qm_ID = [], qm_Receipt = [], qm_Body = raw_text sample_line_fields, qm_Signature = [], qm_Source = ''ledger'',
         qm_Bucket = ''landing'', qm_Key = ''ledger/1.json''\<rparr>"
proof -
  obtain j where "readable 1 (raw_text sample_line_fields) j" using sample_payload_readable by blast
  moreover have "source_of_key ''ledger/1.json'' = ''ledger''" by code_simp
  ultimately show ?thesis
    using queue_body_round_trip [of "\<lparr>db_Source = [], db_Bucket = ''landing'', db_Key = ''ledger/1.json'', db_Signature = [],
        db_Payload = raw_text sample_line_fields\<rparr>" j]
    by (simp add: plain_char_def)
qed

text \<open>A notification as S3 writes it, for the buckets and keys of its records.\<close>

definition s3_record :: "string \<times> string \<Rightarrow> string" where
  "s3_record object =
     raw_text [(''s3'', raw_text [(''bucket'', raw_text [(''name'', json_string (fst object))]),
                                  (''object'', raw_text [(''key'', json_string (snd object))])])]"

definition s3_event :: "(string \<times> string) list \<Rightarrow> string" where
  "s3_event objects = raw_text [(''Records'', raw_array (map s3_record objects))]"

lemma s3_names: "plain ''s3''" "plain ''bucket''" "plain ''object''" "plain ''name''" "plain ''key''" "plain ''Records''"
  by (simp_all add: plain_char_def)

lemma s3_leaf:
  "plain name \<Longrightarrow> plain s \<Longrightarrow> d < 10000 \<Longrightarrow> \<exists>j. readable d (raw_text [(name, json_string s)]) j"
  using solid_readable [OF solid_string] by (intro readable_object) auto

lemma s3_record_readable:
  assumes "plain (fst x)" "plain (snd x)" and "d < 9998"
  shows "\<exists>j. readable d (s3_record x) j"
  unfolding s3_record_def using assms s3_names by (intro readable_object) (auto intro!: readable_object s3_leaf)

lemma s3_record_read:
  assumes "plain (fst x)" "plain (snd x)"
  shows "read_struct [(''s3'', read_struct
          [(''bucket'', field_of fst (\<lambda>x r. (x, snd r)) (read_struct [(''name'', read_string)])),
           (''object'', field_of snd (\<lambda>x r. (fst r, x)) (read_struct [(''key'', read_string)]))])]
      (s3_record x) cur = (True, x)"
proof -
  have leaf: "read_struct [(name, read_string)] (raw_text [(name, json_string s)]) old = (True, s)"
    if "plain name" "plain s" for name s old
    using that solid_readable [OF solid_string] by (subst read_struct_rendered) (auto simp: read_string_plain field_is_def)
  have mid: "\<exists>j. readable 1 (raw_text [(''bucket'', raw_text [(''name'', json_string (fst x))]),
      (''object'', raw_text [(''key'', json_string (snd x))])]) j"
    using assms s3_names by (intro readable_object) (auto intro!: s3_leaf)
  show ?thesis
    unfolding s3_record_def using assms s3_names mid
    by (simp add: read_struct_rendered s3_leaf leaf field_of_def field_is_ascii lower_char_other in_range_def)
qed

lemma s3_records_read:
  assumes "list_all (\<lambda>(bucket, key). plain bucket \<and> plain key) objects"
  shows "read_elems (read_struct [(''s3'', read_struct
          [(''bucket'', field_of fst (\<lambda>x r. (x, snd r)) (read_struct [(''name'', read_string)])),
           (''object'', field_of snd (\<lambda>x r. (fst r, x)) (read_struct [(''key'', read_string)]))])]) ([], [])
      (map s3_record objects) cur = (True, objects)"
  using assms by (induction objects arbitrary: cur) (auto simp: s3_record_read split: list.splits)

lemma s3_event_readable:
  assumes "list_all (\<lambda>(bucket, key). plain bucket \<and> plain key) objects" and "objects \<noteq> []"
  shows "d < 9996 \<Longrightarrow> \<exists>j. readable d (raw_array (map s3_record objects)) j"
    and "\<exists>j. readable 0 (s3_event objects) j"
proof -
  have arr: "\<exists>j. readable d (raw_array (map s3_record objects)) j" if "d < 9996" for d
    using assms that by (intro readable_array) (auto simp: list_all_iff intro!: s3_record_readable)
  then show "d < 9996 \<Longrightarrow> \<exists>j. readable d (raw_array (map s3_record objects)) j" .
  show "\<exists>j. readable 0 (s3_event objects) j"
    unfolding s3_event_def using arr [of 1] s3_names by (intro readable_object) auto
qed

lemma s3_event_struct:
  assumes "list_all (\<lambda>(bucket, key). plain bucket \<and> plain key) objects" and "objects \<noteq> []"
  shows "json_unmarshal_into (read_struct fs) zero (s3_event objects)
       = (case read_members fs [(''Records'', raw_array (map s3_record objects))] (True, zero) of
            (ok, x) \<Rightarrow> if ok then Inr x else json_error)"
proof -
  obtain j where j: "readable 0 (s3_event objects) j" using s3_event_readable(2) [OF assms] by blast
  have "read_struct fs (s3_event objects) zero = read_members fs [(''Records'', raw_array (map s3_record objects))] (True, zero)"
    unfolding s3_event_def using s3_event_readable(1) [OF assms, of 1] s3_names by (intro read_struct_rendered) auto
  then show ?thesis by (simp add: unmarshal_into_readable [OF j])
qed

lemma s3_event_read:
  assumes "list_all (\<lambda>(bucket, key). plain bucket \<and> plain key) objects" and "objects \<noteq> []"
  shows "json_unmarshal_into event_fields [] (s3_event objects) = Inr objects"
    and "json_unmarshal_into direct_fields zero (s3_event objects) = Inr zero"
proof -
  have arr: "list_all (\<lambda>v. \<exists>j. readable 1 v j) (map s3_record objects)"
    using assms(1) by (auto simp: list_all_iff intro!: s3_record_readable)
  show "json_unmarshal_into event_fields [] (s3_event objects) = Inr objects"
    using assms(2)
    by (simp add: read_slice_rendered [OF _ arr] event_fields_def s3_event_struct [OF assms] s3_records_read [OF assms(1)] field_is_def)
  show "json_unmarshal_into direct_fields zero (s3_event objects) = Inr zero"
    by (simp add: direct_fields_def s3_event_struct [OF assms] field_is_ascii lower_char_other in_range_def)
qed

text \<open>
  C40: an S3 notification is reduced to its first record: whatever objects follow, the decoded message
  names the first one only, so the others are not ingested although the notification is deleted with it.
\<close>

theorem s3_event_loses_records:
  assumes "list_all (\<lambda>(bucket, key). plain bucket \<and> plain key) ((bucket, key) # others)"
  shows "DecodeQueueBody (s3_event ((bucket, key) # others))
       = Inr \<lparr>qm_ID = [], qm_Receipt = [], qm_Body = [], qm_Signature = [], qm_Source = source_of_key key,
             qm_Bucket = bucket, qm_Key = key\<rparr>"
  using s3_event_read [OF assms] by (simp add: DecodeQueueBody_def decode_event_def queue_message_def)

theorem s3_event_loses_records_witness:
  "\<exists>m. DecodeQueueBody (s3_event [(''b'', ''bank/1.csv''), (''b'', ''ledger/2.csv'')]) = Inr m
     \<and> DecodeQueueBody (s3_event [(''b'', ''bank/1.csv'')]) = Inr m \<and> qm_Key m = ''bank/1.csv''"
  using s3_event_loses_records [of "''b''" "''bank/1.csv''" "[(''b'', ''ledger/2.csv'')]"]
    s3_event_loses_records [of "''b''" "''bank/1.csv''" "[]"] by (simp add: plain_char_def)

section \<open>Files are moved after their data is committed\<close>

text \<open>What is used of the file system: \<open>moved\<close> bounds the renamings made so far.\<close>

locale landing_files =
  fixes fs :: "'f fs_client" and moved :: "'f \<Rightarrow> (string \<times> string) set"
  assumes made: "fs_MkdirAll fs dir f = (r, f') \<Longrightarrow> moved f' \<subseteq> moved f"
    and renamed: "fs_Rename fs old new f = (r, f') \<Longrightarrow> moved f' \<subseteq> insert (old, new) (moved f)"
begin

lemma moveBeside_moves:
  assumes "moveBeside fs path root bucket f = (r, f')"
  shows "moved f' \<subseteq> insert (path, path_join (path_join root bucket) (path_base path)) (moved f)"
proof -
  obtain q f1 where q: "fs_MkdirAll fs (path_join root bucket) f = (q, f1)" by force
  show ?thesis
  proof (cases q)
    case None
    then have "fs_Rename fs path (path_join (path_join root bucket) (path_base path)) f1 = (r, f')"
      using assms q by (simp add: moveBeside_def act_then_def Let_def)
    then show ?thesis using renamed made [OF q] by blast
  next
    case (Some err)
    then show ?thesis using assms q made [OF q] by (auto simp: moveBeside_def act_then_def Let_def)
  qed
qed

end

text \<open>A file backed by the database: a job of that path whose records are all stored.\<close>

definition file_backed :: "engine \<Rightarrow> db \<Rightarrow> FileJob list \<Rightarrow> string \<Rightarrow> bool" where
  "file_backed e d jobs path \<longleftrightarrow>
     (\<exists>job records. job \<in> set jobs \<and> fj_Path job = path \<and> Parse (fj_Source job) (fj_Body job) = Inr records \<and> records \<noteq> []
        \<and> (\<forall>r \<in> set records. has_raw e d (rc_IdempotencyKey r)))"

lemma file_backed_mono:
  assumes "file_backed e d jobs path" and "set jobs \<subseteq> set jobs'" and "\<And>k. has_raw e d k \<Longrightarrow> has_raw e d' k"
  shows "file_backed e d' jobs' path"
proof -
  obtain job records where "job \<in> set jobs" and rest: "fj_Path job = path" "Parse (fj_Source job) (fj_Body job) = Inr records"
    "records \<noteq> []" and raw: "\<forall>r \<in> set records. has_raw e d (rc_IdempotencyKey r)"
    using assms(1) unfolding file_backed_def by blast
  moreover have "\<forall>r \<in> set records. has_raw e d' (rc_IdempotencyKey r)" using raw assms(3) by simp
  ultimately show ?thesis using assms(2) unfolding file_backed_def by blast
qed

definition processed_move :: "string \<Rightarrow> string \<Rightarrow> string \<times> string" where
  "processed_move root path = (path, path_join (path_join root ''processed'') (path_base path))"

lemma failed_is_not_processed: "(path, path_join (path_join root ''failed'') base) \<noteq> processed_move root path'"
  by (simp add: processed_move_def path_join_def)

lemma job_envelope_fields:
  "job_envelope pl fs job f = Inr (Some envelope) \<Longrightarrow> ep_Source envelope = fj_Source job \<and> ep_Body envelope = fj_Body job"
  by (auto simp: job_envelope_def Let_def split: if_splits sum.splits option.splits)

lemma process_jobs_moves:
  assumes "honest_faults e" and "duplicate_cache ch marked" and "landing_files fs moved"
    and "cache_known e marked p"
    and "process_jobs (mysql_pipeline e ch clock secret) fs root applied jobs (p, f) = (res, p', f')"
  shows "(\<forall>k. has_raw e (pi_store p) k \<longrightarrow> has_raw e (pi_store p') k)
    \<and> (\<forall>path. processed_move root path \<in> moved f' - moved f \<longrightarrow> file_backed e (pi_store p') jobs path)"
  using assms(4,5)
proof (induction jobs arbitrary: p f applied)
  case (Cons job jobs)
  let ?pl = "mysql_pipeline e ch clock secret"
  note cl = mysql_ingest_client [OF assms(1,2), of clock secret]
  have later: "file_backed e (pi_store p') (job # jobs) path" if "file_backed e (pi_store p') jobs path" for path
    using that by (rule file_backed_mono) auto
  consider (stopped) sigErr where "job_envelope ?pl fs job f = Inl sigErr" | (passed) "job_envelope ?pl fs job f = Inr None"
    | (taken) envelope where "job_envelope ?pl fs job f = Inr (Some envelope)"
    by (cases "job_envelope ?pl fs job f"; cases "projr (job_envelope ?pl fs job f)") auto
  then show ?case
  proof cases
    case stopped
    then show ?thesis using Cons.prems(2) by simp
  next
    case passed
    then have "process_jobs ?pl fs root applied jobs (p, f) = (res, p', f')" using Cons.prems(2) by simp
    from Cons.IH [OF Cons.prems(1) this] later show ?thesis by blast
  next
    case taken
    obtain out perr p1 where proc: "Process ?pl envelope p = ((out, perr), p1)" by (metis prod.exhaust)
    have step: "cache_known e marked p1" "\<And>k. has_raw e (pi_store p) k \<Longrightarrow> has_raw e (pi_store p1) k"
      using ingest_client.process_sound [OF cl proc] Cons.prems(1) client_defs(2,4) [OF cl] by (simp, blast)
    let ?bad = "perr \<noteq> None \<or> \<not> ShouldAck out"
    define bucket where "bucket = (if ?bad then ''failed'' else ''processed'')"
    obtain r f1 where mv: "moveBeside fs (fj_Path job) root bucket f = (r, f1)"
      by (metis prod.exhaust)
    have here: "file_backed e (pi_store p1) (job # jobs) path" if "processed_move root path \<in> moved f1 - moved f" for path
    proof -
      have "processed_move root path \<in> insert (fj_Path job, path_join (path_join root bucket) (path_base (fj_Path job))) (moved f)"
        by (rule subsetD [OF landing_files.moveBeside_moves [OF assms(3) mv] DiffD1 [OF that]])
      then have path: "(fj_Path job, path_join (path_join root bucket) (path_base (fj_Path job))) = processed_move root path"
        using DiffD2 [OF that] by (elim insertE) simp_all
      then have "\<not> ?bad" using failed_is_not_processed bucket_def by metis
      then have "Process ?pl envelope p = ((out, None), p1)" using proc by simp
      from acked_records [OF assms(1,2) Cons.prems(1) this] job_envelope_fields [OF taken]
      obtain records where "Parse (fj_Source job) (fj_Body job) = Inr records" "records \<noteq> []"
        "\<forall>r \<in> set records. has_raw e (pi_store p1) (rc_IdempotencyKey r)" by auto
      moreover have "fj_Path job = path" using path unfolding processed_move_def by blast
      ultimately show ?thesis unfolding file_backed_def by (intro exI [of _ job] exI [of _ records]) simp
    qed
    show ?thesis
    proof (cases r)
      case (Some err)
      then have "p' = p1 \<and> f' = f1" using Cons.prems(2) taken proc mv unfolding bucket_def by (auto split: if_splits)
      then show ?thesis using step(2) here by blast
    next
      case None
      then obtain n where "process_jobs ?pl fs root n jobs (p1, f1) = (res, p', f')"
        using Cons.prems(2) taken proc mv unfolding bucket_def by (auto split: if_splits)
      note IH = Cons.IH [OF step(1) this]
      have "file_backed e (pi_store p') (job # jobs) path" if "processed_move root path \<in> moved f1 - moved f" for path
        using here [OF that] by (rule file_backed_mono) (use IH in auto)
      then show ?thesis using IH step(2) later by blast
    qed
  qed
qed simp

text \<open>
  C37: a file leaves the landing zone as processed only after its data is committed: every file that a run
  moves into the folder \<^verbatim>\<open>processed\<close> was loaded by the run and parsed into at least one record, and the raw
  events of all its records are in the database when the run ends, even if the run stops with an error
  later on.
\<close>

theorem landing_moves_after_commit:
  assumes "honest_faults e" and "duplicate_cache ch marked" and "landing_files fs moved"
    and "cache_known e marked p" and "LoadLandingDir fs root f = Inr jobs"
    and "ProcessLandingDir (mysql_pipeline e ch clock secret) fs root (p, f) = (res, p', f')"
    and "(path, path_join (path_join root ''processed'') (path_base path)) \<in> moved f' - moved f"
  shows "file_backed e (pi_store p') jobs path"
proof -
  have "process_jobs (mysql_pipeline e ch clock secret) fs root 0 jobs (p, f) = (res, p', f')"
    using assms(5,6) by (simp add: ProcessLandingDir_def)
  from process_jobs_moves [OF assms(1-4) this] assms(7) show ?thesis by (simp add: processed_move_def)
qed

section \<open>A file system\<close>

text \<open>
  Files as a map from paths to contents, with the renamings made; a renaming replaces a file of the new
  name, as on a POSIX system. The tree is that of the start of the run, when it is walked.
\<close>

record map_files =
  mf_files :: "string \<rightharpoonup> string"
  mf_moves :: "(string \<times> string) list"

definition map_fs :: "fs_node \<Rightarrow> map_files fs_client" where
  "map_fs tree =
     \<lparr>fs_Lstat = (\<lambda>path f. tree),
      fs_ReadFile = (\<lambda>path f. case mf_files f path of Some body \<Rightarrow> Inr body | None \<Rightarrow> Inl (ErrText ''not exist'')),
      fs_IsNotExist = (\<lambda>err. err = ErrText ''not exist''),
      fs_MkdirAll = (\<lambda>dir f. (None, f)),
      fs_Rename = (\<lambda>old new f. case mf_files f old of
         None \<Rightarrow> (Some (ErrText ''not exist''), f)
       | Some body \<Rightarrow> (None, \<lparr>mf_files = (mf_files f)(old := None, new := Some body), mf_moves = (old, new) # mf_moves f\<rparr>))\<rparr>"

interpretation map_landing: landing_files "map_fs tree" "\<lambda>f. set (mf_moves f)"
  by unfold_locales (auto simp: map_fs_def split: option.splits)

lemma Process_object_key: "Process pl (env\<lparr>ep_ObjectKey := k\<rparr>) p = Process pl env p"
  by (simp add: Process_def signature_ok_def)

definition sample_tree :: fs_node where
  "sample_tree = FsDir ''landing'' (Inr [FsDir ''failed'' (Inr [FsFile ''b.json'']), FsDir ''ledger'' (Inr [FsFile ''a.json''])])"

definition sample_files :: map_files where
  "sample_files = \<lparr>mf_files = [''landing/ledger/a.json'' \<mapsto> raw_text sample_line_fields], mf_moves = []\<rparr>"

lemma sample_source:
  "sourceFromPath ''landing/ledger/a.json'' = Some SourceLedger" "sourceFromPath ''landing/bank/a.json'' = Some SourceBank"
  "to_lower ''landing'' = ''landing''" "to_lower ''ledger'' = ''ledger''" "to_lower ''bank'' = ''bank''" "to_lower ''failed'' = ''failed''"
  by code_simp+

lemma sample_load:
  "LoadLandingDir (map_fs sample_tree) ''landing'' sample_files
     = Inr [\<lparr>fj_Path = ''landing/ledger/a.json'', fj_Source = SourceLedger, fj_Body = raw_text sample_line_fields\<rparr>]"
  by (simp add: LoadLandingDir_def map_fs_def sample_tree_def path_join_def sample_source load_file_def sample_files_def)

theorem landing_moves_after_commit_witness:
  "\<exists>res p' f'. ProcessLandingDir (mysql_pipeline ideal_engine memory_cache (\<lambda>n. 0) []) (map_fs sample_tree) ''landing''
          (\<lparr>pi_store = empty_db, pi_cache = {}, pi_tick = 0\<rparr>, sample_files) = (res, p', f')
      \<and> mf_moves f' = [(''landing/ledger/a.json'', ''landing/processed/a.json'')]
      \<and> file_backed ideal_engine (pi_store p') [\<lparr>fj_Path = ''landing/ledger/a.json'', fj_Source = SourceLedger,
           fj_Body = raw_text sample_line_fields\<rparr>] ''landing/ledger/a.json''"
proof -
  let ?pl = "mysql_pipeline ideal_engine memory_cache (\<lambda>n. 0) []" and ?p = "\<lparr>pi_store = empty_db, pi_cache = {}, pi_tick = 0\<rparr>"
  let ?job = "\<lparr>fj_Path = ''landing/ledger/a.json'', fj_Source = SourceLedger, fj_Body = raw_text sample_line_fields\<rparr>"
  have env: "job_envelope ?pl fs ?job f = Inr (Some (sample_envelope\<lparr>ep_ObjectKey := ''landing/ledger/a.json''\<rparr>))" for fs :: "'f fs_client" and f
    by (simp add: job_envelope_def sample_envelope_def mysql_pipeline_def SourceLedger_def SourceWebhook_def)
  obtain p' where p': "Process ?pl sample_envelope ?p = ((\<lparr>rt_Status = StatusApplied, rt_Reason = [], rt_Applied = 1\<rparr>, None), p')"
    using sample_process by blast
  have base: "path_base ''landing/ledger/a.json'' = ''a.json''" by (simp add: path_base_def)
  obtain f' where run: "ProcessLandingDir ?pl (map_fs sample_tree) ''landing'' (?p, sample_files)
        = ((\<lparr>rt_Status = StatusApplied, rt_Reason = [], rt_Applied = 1\<rparr>, None), p', f')"
    and f': "mf_moves f' = [(''landing/ledger/a.json'', ''landing/processed/a.json'')]"
    by (simp add: ProcessLandingDir_def sample_load env Process_object_key p' ShouldAck_def moveBeside_def Let_def base path_join_def act_then_def)
       (simp add: map_fs_def sample_files_def)
  from landing_moves_after_commit [OF honest_ideal mem_cache.duplicate_cache_axioms map_landing.landing_files_axioms sample_known
      sample_load run, of "''landing/ledger/a.json''"] run f'
  show ?thesis by (auto simp: base path_join_def sample_files_def)
qed

lemma blank_rejected:
  assumes "trim_left raw = []" shows "\<exists>err. Parse source raw = Inl err"
proof -
  have "trim_space raw = []" using assms trim_space_Nil by (metis append_Nil2 trim_left_suffix suffix_bot.bot_unique trim_space_def)
  then show ?thesis
    using assms by (auto simp: Parse_def Validate_def looksLikeCSV_def validateJSON_def Let_def split: option.splits)
qed

text \<open>
  Rejected evidence can be lost: two rejected files of the same name in different folders are moved
  to the same place, and the second replaces the first. Whatever the pipeline is, after the run no file
  holds the content of the first.
\<close>

theorem rejected_evidence_overwritten:
  "mf_files (snd (snd (ProcessLandingDir pl
      (map_fs (FsDir ''landing'' (Inr [FsDir ''bank'' (Inr [FsFile ''a.json'']), FsDir ''ledger'' (Inr [FsFile ''a.json''])])))
      ''landing'' (p, \<lparr>mf_files = [''landing/bank/a.json'' \<mapsto> '' '', ''landing/ledger/a.json'' \<mapsto> []], mf_moves = []\<rparr>))))
   = [''landing/failed/a.json'' \<mapsto> []]"
proof -
  have nil: "trim_left [] = []" by (subst trim_left.simps) simp
  obtain err1 err2 where bad: "Parse SourceBank '' '' = Inl err1" "Parse SourceLedger [] = Inl err2"
    using blank_rejected [of "'' ''" SourceBank] blank_rejected [of "[]" SourceLedger] nil
    by (auto simp: trim_left_ascii unicode_is_space_def in_range_def)
  have base: "path_base ''landing/ledger/a.json'' = ''a.json''" "path_base ''landing/bank/a.json'' = ''a.json''"
    by (simp_all add: path_base_def)
  show ?thesis
    using bad
    by (auto simp: ProcessLandingDir_def LoadLandingDir_def map_fs_def path_join_def sample_source load_file_def job_envelope_def
        Process_def signature_ok_def reject_def SourceLedger_def SourceBank_def SourceWebhook_def moveBeside_def act_then_def Let_def base)
qed

end
