(* ===== verification/Worker_Main.thy ===== *)
theory Worker_Main
  imports Ingest_Sources API_Main
begin

text \<open>
  \<^verbatim>\<open>cmd/ingestion-worker/main.go\<close>: the start of the ingestion worker and its service afterwards. The
  environment, the file system, the Redis, SQS and S3 clients and the clock are the record \<open>worker_env\<close>.
  The running worker serves webhooks and polls its queue: any sequence of these events, each handled as
  a whole.
\<close>

section \<open>main.go\<close>

record ('c, 'f, 'g, 'q) worker_env =
  we_Getenv :: "string \<Rightarrow> string"
  we_ReadDir :: "string \<Rightarrow> dir_entry list result"
  we_Redis :: "string \<Rightarrow> 'c redis"
  we_Files :: "'f fs_client"
  we_LoadConfig :: "load_options \<Rightarrow> 'g result"
  we_SQS :: "'g \<Rightarrow> 'q sqs_client"
  we_S3 :: "'g \<Rightarrow> bool \<Rightarrow> s3_client"
  we_Clock :: "nat \<Rightarrow> time"

text \<open>What is started: the pipeline, the polled queue with its object store, and the address.\<close>

record ('c, 'q) worker =
  wk_Pipeline :: "(db, 'c) Pipeline"
  wk_Queue :: "('q Queue \<times> ObjectStore option) option"
  wk_Address :: string

definition worker_pipeline :: "('c, 'f, 'g, 'q) worker_env \<Rightarrow> engine \<Rightarrow> (db, 'c) Pipeline" where
  "worker_pipeline env e =
     (let addr = we_Getenv env ''REDIS_ADDR'' in
      \<lparr>pl_Store = mysql_store e, pl_Auditor = Some (my_WriteAuditEntry (OpenMySQLStore e)),
       pl_Cache = Some (if addr \<noteq> [] then redis_cache (NewRedisCache (we_Redis env addr) (24 * hour)) else NoopCache),
       pl_Clock = we_Clock env, pl_Secret = we_Getenv env ''WEBHOOK_HMAC_SECRET''\<rparr>)"

definition worker_queue :: "('c, 'f, 'g, 'q) worker_env \<Rightarrow> ('q Queue \<times> ObjectStore option) option result" where
  "worker_queue env =
     (let queueURL = we_Getenv env ''SQS_QUEUE_URL'' in
      if queueURL = [] then Inr None
      else (case NewLocalAWSClients (we_Getenv env) (we_LoadConfig env) of
              Inl err \<Rightarrow> Inl err
            | Inr cfg \<Rightarrow> Inr (Some (NewSQSQueue (we_SQS env cfg) queueURL,
                if we_Getenv env ''S3_BUCKET'' \<noteq> [] then Some (NewS3Store (we_Getenv env) (we_S3 env) cfg) else None))))"

definition worker_landing ::
  "('c, 'f, 'g, 'q) worker_env \<Rightarrow> (db, 'c) Pipeline \<Rightarrow> (db, 'c) pipe \<times> 'f \<Rightarrow> go_error option \<times> (db, 'c) pipe \<times> 'f" where
  "worker_landing env pipeline pf =
     (let landing = we_Getenv env ''LANDING_DIR'' in
      if landing = [] then (None, pf)
      else (case ProcessLandingDir pipeline (we_Files env) landing pf of ((result, err), pf') \<Rightarrow> (err, pf')))"

text \<open>\<^verbatim>\<open>main\<close> up to the call that serves; a left result is the text of a fatal error.\<close>

definition worker_main ::
  "('c, 'f, 'g, 'q) worker_env \<Rightarrow> db migration_client \<Rightarrow> (string \<Rightarrow> time) \<Rightarrow> engine result \<Rightarrow>
   (db, 'c) pipe \<times> 'f \<Rightarrow> (string + ('c, 'q) worker) \<times> (db, 'c) pipe \<times> 'f" where
  "worker_main env client now opened pf =
     (if we_Getenv env ''DB_DSN'' = [] then (Inl ''DB_DSN is required'', pf)
      else (case opened of
              Inl err \<Rightarrow> (Inl (err_text err), pf)
            | Inr e \<Rightarrow>
                (case ApplyMigrations client now
                        (we_ReadDir env (main_firstNonEmpty [we_Getenv env ''MIGRATIONS_DIR'', ''migrations'']))
                        (pi_store (fst pf)) of
                   (Some err, d) \<Rightarrow> (Inl (err_text err), (fst pf)\<lparr>pi_store := d\<rparr>, snd pf)
                 | (None, d) \<Rightarrow>
                     (case worker_landing env (worker_pipeline env e) ((fst pf)\<lparr>pi_store := d\<rparr>, snd pf) of
                        (Some err, pf') \<Rightarrow> (Inl (err_text err), pf')
                      | (None, pf') \<Rightarrow>
                          (case worker_queue env of
                             Inl err \<Rightarrow> (Inl (err_text err), pf')
                           | Inr queue \<Rightarrow>
                               (Inr \<lparr>wk_Pipeline = worker_pipeline env e, wk_Queue = queue,
                                     wk_Address = (if we_Getenv env ''INGEST_ADDR'' = [] then '':8081''
                                                   else we_Getenv env ''INGEST_ADDR'')\<rparr>, pf'))))))"

section \<open>The running worker\<close>

definition worker_health :: "int \<times> string" where
  "worker_health = (200, ''{'' @ [CHR 0x22] @ ''status'' @ [CHR 0x22] @ '':'' @ [CHR 0x22] @ ''ok'' @ [CHR 0x22] @ ''}'')"

text \<open>A turn of \<^verbatim>\<open>pollQueue\<close>, or a request with what its handler reads of it.\<close>

datatype worker_event = PollQueue | PostWebhook "string result" string | GetWorkerHealth

fun worker_step ::
  "(db, 'c) Pipeline \<Rightarrow> 'q Queue \<Rightarrow> ObjectStore option \<Rightarrow> worker_event \<Rightarrow>
   (db, 'c) pipe \<times> 'q \<Rightarrow> (int \<times> string) option \<times> (db, 'c) pipe \<times> 'q" where
  "worker_step pipeline queue objects PollQueue pq = (None, snd (ProcessQueue pipeline queue objects pq))"
| "worker_step pipeline queue objects (PostWebhook body signature) (p, q) =
     (case WebhookHandler pipeline body signature p of (answer, p') \<Rightarrow> (Some answer, p', q))"
| "worker_step pipeline queue objects GetWorkerHealth pq = (Some worker_health, pq)"

fun worker_run ::
  "(db, 'c) Pipeline \<Rightarrow> 'q Queue \<Rightarrow> ObjectStore option \<Rightarrow> worker_event list \<Rightarrow>
   (db, 'c) pipe \<times> 'q \<Rightarrow> (int \<times> string) option list \<times> (db, 'c) pipe \<times> 'q" where
  "worker_run pipeline queue objects [] pq = ([], pq)"
| "worker_run pipeline queue objects (event # events) pq =
     (case worker_step pipeline queue objects event pq of
        (answer, pq') \<Rightarrow> map_prod (\<lambda>answers. answer # answers) id (worker_run pipeline queue objects events pq'))"

section \<open>Nothing acknowledged is lost\<close>

text \<open>
  What is used of SQS: the messages it delivers are among those sent, and a receipt is gone only when it
  was deleted.
\<close>

locale sqs_service =
  fixes client :: "'q sqs_client" and url :: string and gone :: "'q \<Rightarrow> string set" and sent :: "sqs_message list"
  assumes delivered: "sq_ReceiveMessage client url n wait q = (Inr ms, q') \<Longrightarrow> set ms \<subseteq> set sent"
    and receive_keeps: "sq_ReceiveMessage client url n wait q = (r, q') \<Longrightarrow> gone q' \<subseteq> gone q"
    and deleted: "sq_DeleteMessage client url receipt q = (err, q') \<Longrightarrow> gone q' \<subseteq> insert receipt (gone q)"
begin

lemma deletes: "deletes_only (NewSQSQueue client url) gone"
  unfolding deletes_only_def NewSQSQueue_def sqs_Delete_def using deleted by simp

lemma received:
  "qu_Receive (NewSQSQueue client url) q = (r, q') \<Longrightarrow>
     gone q' \<subseteq> gone q \<and> (\<forall>ms. r = Inr ms \<longrightarrow> set ms \<subseteq> set (map received_message sent))"
  using delivered receive_keeps
  by (fastforce simp: NewSQSQueue_def sqs_Receive_def split: prod.splits sum.splits)

end

text \<open>A payload that is stored, and an answer that is backed: a webhook answered with 200 is stored.\<close>

definition payload_stored :: "engine \<Rightarrow> db \<Rightarrow> string \<Rightarrow> string \<Rightarrow> bool" where
  "payload_stored e d source body \<longleftrightarrow>
     (\<exists>records. Parse source body = Inr records \<and> records \<noteq> [] \<and> (\<forall>r \<in> set records. has_raw e d (rc_IdempotencyKey r)))"

fun answer_backed :: "engine \<Rightarrow> db \<Rightarrow> worker_event \<times> (int \<times> string) option \<Rightarrow> bool" where
  "answer_backed e d (PostWebhook (Inr body) signature, Some (status, reply)) \<longleftrightarrow>
     status = 200 \<longrightarrow> payload_stored e d SourceWebhook body"
| "answer_backed e d _ \<longleftrightarrow> True"

lemma payload_stored_mono:
  assumes "payload_stored e d source body" and "\<And>k. has_raw e d k \<Longrightarrow> has_raw e d' k"
  shows "payload_stored e d' source body"
proof -
  obtain records where "Parse source body = Inr records" "records \<noteq> []" "\<forall>r \<in> set records. has_raw e d (rc_IdempotencyKey r)"
    using assms(1) unfolding payload_stored_def by blast
  then show ?thesis using assms(2) unfolding payload_stored_def by simp
qed

lemma answer_backed_mono:
  assumes "answer_backed e d x" and "\<And>k. has_raw e d k \<Longrightarrow> has_raw e d' k"
  shows "answer_backed e d' x"
  using assms payload_stored_mono [of e d _ _ d'] by (cases "(e, d, x)" rule: answer_backed.cases) auto

lemma webhook_step:
  assumes "honest_faults e" and "duplicate_cache ch marked" and "cache_known e marked p"
    and "WebhookHandler (mysql_pipeline e ch clock secret) body signature p = (answer, p')"
  shows "cache_known e marked p' \<and> (\<forall>k. has_raw e (pi_store p) k \<longrightarrow> has_raw e (pi_store p') k)
    \<and> answer_backed e (pi_store p') (PostWebhook body signature, Some answer)"
proof (cases body)
  case (Inl err)
  then show ?thesis using assms(3,4) by (auto simp: WebhookHandler_def)
next
  case (Inr raw)
  let ?pl = "mysql_pipeline e ch clock secret"
  let ?env = "\<lparr>ep_Source = SourceWebhook, ep_Body = raw, ep_SignatureHex = signature,
                   ep_HMACSecret = pl_Secret ?pl, ep_ObjectKey = []\<rparr>"
  note cl = mysql_ingest_client [OF assms(1,2), of clock secret]
  obtain res perr where proc: "Process ?pl ?env p = ((res, perr), p')"
    using assms(4) Inr by (auto simp: WebhookHandler_def split: prod.splits option.splits)
  have step: "cache_known e marked p'" "\<And>k. has_raw e (pi_store p) k \<Longrightarrow> has_raw e (pi_store p') k"
    using ingest_client.process_sound [OF cl proc] assms(3) client_defs(2,4) [OF cl] by (simp, blast)
  have "answer_backed e (pi_store p') (PostWebhook body signature, Some answer)"
  proof (cases perr)
    case None
    then show ?thesis using acked_records [OF assms(1-3), of clock secret ?env res p'] proc Inr
      by (cases answer) (auto simp: payload_stored_def)
  next
    case (Some err)
    then have "fst answer \<noteq> 200" using assms(4) Inr proc by (auto simp: WebhookHandler_def http_error_def split: if_splits)
    then show ?thesis using Inr by (cases answer) auto
  qed
  with step show ?thesis by blast
qed

lemma poll_step:
  assumes "honest_faults e" and "duplicate_cache ch marked" and "sqs_service client url gone sent" and "cache_known e marked p"
    and "ProcessQueue (mysql_pipeline e ch clock secret) (NewSQSQueue client url) objects (p, q) = (err, p', q')"
  shows "cache_known e marked p' \<and> (\<forall>k. has_raw e (pi_store p) k \<longrightarrow> has_raw e (pi_store p') k)
    \<and> (\<forall>receipt \<in> gone q' - gone q. receipt_backed e (pi_store p') objects (map received_message sent) receipt)"
proof -
  let ?pl = "mysql_pipeline e ch clock secret" and ?q = "NewSQSQueue client url"
  obtain r q1 where r: "qu_Receive ?q q = (r, q1)" by (metis prod.exhaust)
  note got = sqs_service.received [OF assms(3) r]
  show ?thesis
  proof (cases r)
    case (Inl e')
    then have "p' = p \<and> q' = q1" using assms(5) r by (auto simp: ProcessQueue_def)
    then show ?thesis using assms(4) got by auto
  next
    case (Inr ms)
    then have run: "process_messages ?pl ?q objects ms (p, q1) = (err, p', q')"
      using assms(5) r by (simp add: ProcessQueue_def)
    note acks = process_messages_acks [OF assms(1,2) sqs_service.deletes [OF assms(3)] assms(4) run]
    have "receipt_backed e (pi_store p') objects (map received_message sent) receipt" if "receipt \<in> gone q' - gone q" for receipt
    proof (rule receipt_backed_mono)
      show "receipt_backed e (pi_store p') objects ms receipt" using acks that got by blast
      show "set ms \<subseteq> set (map received_message sent)" using got Inr by blast
    qed
    then show ?thesis using acks by blast
  qed
qed


text \<open>An SQS service that delivers one message on every poll and records the deleted receipts.\<close>

definition list_sqs :: "sqs_message list \<Rightarrow> string list sqs_client" where
  "list_sqs sent =
     \<lparr>sq_ReceiveMessage = (\<lambda>url n wait q. (Inr (take (nat n) sent), q)), sq_DeleteMessage = (\<lambda>url receipt q. (None, receipt # q))\<rparr>"

interpretation list_queue: sqs_service "list_sqs sent" url set sent
  by unfold_locales (auto simp: list_sqs_def dest: in_set_takeD)

definition sample_sqs_message :: sqs_message where
  "sample_sqs_message = \<lparr>sm_Body = Some (direct_text \<lparr>db_Source = SourceLedger, db_Bucket = [], db_Key = [], db_Signature = [],
       db_Payload = raw_text sample_line_fields\<rparr>), sm_MessageId = None, sm_ReceiptHandle = Some ''r1'', sm_Attributes = Map.empty\<rparr>"

lemma sample_received:
  "received_message sample_sqs_message
   = \<lparr>qm_ID = [], qm_Receipt = ''r1'', qm_Body = raw_text sample_line_fields, qm_Signature = [], qm_Source = SourceLedger,
      qm_Bucket = [], qm_Key = []\<rparr>"
proof -
  let ?b = "\<lparr>db_Source = SourceLedger, db_Bucket = [], db_Key = [], db_Signature = [], db_Payload = raw_text sample_line_fields\<rparr>"
  obtain j where "readable 1 (raw_text sample_line_fields) j" using sample_payload_readable by blast
  then have "json_unmarshal_into direct_fields \<lparr>db_Source = [], db_Bucket = [], db_Key = [], db_Signature = [], db_Payload = []\<rparr>
      (direct_text ?b) = Inr ?b"
    by (intro direct_read) (simp_all add: SourceLedger_def plain_char_def)
  then show ?thesis
    by (simp add: received_message_def sample_sqs_message_def aws_ToString_def DecodeQueueBody_def queue_message_def SourceLedger_def)
qed


end
