(* ===== verification/Gensynth.thy ===== *)
theory Gensynth
  imports Ingest_Sources QA_Agent
begin

text \<open>
  \<^verbatim>\<open>tools/gensynth\<close>: the generator of synthetic landing files with injected faults and the ground truth that
  a benchmark grades against, and how the rest of the program receives them. The rolls of
  \<^verbatim>\<open>rand.Float64\<close> are a stream, indexed by the number of calls; rates and rolls are rationals. A run is the
  sequence of the files it writes.
\<close>

section \<open>factory.go\<close>

record SettlementLineRecord =
  sg_EntityID :: string
  sg_Type :: string
  sg_Debit :: int
  sg_Credit :: int
  sg_Amount :: int
  sg_Currency :: string
  sg_Fee :: int
  sg_Tax :: int
  sg_OnHold :: bool
  sg_Settled :: bool
  sg_CreatedAt :: int
  sg_SettledAt :: int
  sg_SettlementID :: string
  sg_SettlementUTR :: string
  sg_OrderID :: string
  sg_Method :: string

record LedgerLineRecord =
  lg_Reference :: string
  lg_AmountPaise :: int
  lg_BookedAt :: string

record PaymentRecord =
  py_PaymentID :: string
  py_OrderID :: string
  py_AmountPaise :: int
  py_Currency :: string
  py_Status :: string
  py_Method :: string
  py_CapturedAt :: time

definition unix_seconds :: "time \<Rightarrow> int" where
  "unix_seconds t = t div 1000000000"

definition GenerateBasePayment :: "int \<Rightarrow> time \<Rightarrow> PaymentRecord" where
  "GenerateBasePayment seqID baseTime =
     \<lparr>py_PaymentID = ''pay_synth_'' @ itoa seqID, py_OrderID = ''order_synth_'' @ itoa seqID, py_AmountPaise = 150000,
      py_Currency = ''INR'', py_Status = ''captured'', py_Method = ''card'',
      py_CapturedAt = time_add baseTime (wrap64 (seqID * (60 * 1000000000)))\<rparr>"

definition DeriveSettlement :: "PaymentRecord \<Rightarrow> int \<Rightarrow> int \<Rightarrow> SettlementLineRecord" where
  "DeriveSettlement payment feePaise taxPaise =
     \<lparr>sg_EntityID = py_PaymentID payment, sg_Type = [], sg_Debit = 0,
      sg_Credit = wrap64 (py_AmountPaise payment - feePaise - taxPaise), sg_Amount = 0, sg_Currency = [],
      sg_Fee = feePaise, sg_Tax = taxPaise, sg_OnHold = False, sg_Settled = False, sg_CreatedAt = 0,
      sg_SettledAt = unix_seconds (time_add (py_CapturedAt payment) (24 * hour)),
      sg_SettlementID = ''setl_synth_'' @ py_PaymentID payment,
      sg_SettlementUTR = ''UTR'' @ itoa (unix_seconds (py_CapturedAt payment)), sg_OrderID = [], sg_Method = py_Method payment\<rparr>"

text \<open>The JSON of the records, in the order of their fields.\<close>

definition settlement_json :: "SettlementLineRecord \<Rightarrow> json" where
  "settlement_json s =
     JStruct [(''entity_id'', JStr (sg_EntityID s)), (''type'', JStr (sg_Type s)), (''debit'', JInt (sg_Debit s)),
       (''credit'', JInt (sg_Credit s)), (''amount'', JInt (sg_Amount s)), (''currency'', JStr (sg_Currency s)),
       (''fee'', JInt (sg_Fee s)), (''tax'', JInt (sg_Tax s)), (''on_hold'', JBool (sg_OnHold s)), (''settled'', JBool (sg_Settled s)),
       (''created_at'', JInt (sg_CreatedAt s)), (''settled_at'', JInt (sg_SettledAt s)), (''settlement_id'', JStr (sg_SettlementID s)),
       (''settlement_utr'', JStr (sg_SettlementUTR s)), (''order_id'', JStr (sg_OrderID s)), (''method'', JStr (sg_Method s))]"

definition ledger_json :: "LedgerLineRecord \<Rightarrow> json" where
  "ledger_json l =
     JStruct [(''reference'', JStr (lg_Reference l)), (''amount_paise'', JInt (lg_AmountPaise l)), (''booked_at'', JStr (lg_BookedAt l))]"

definition payment_json :: "PaymentRecord \<Rightarrow> json" where
  "payment_json p =
     JStruct [(''payment_id'', JStr (py_PaymentID p)), (''order_id'', JStr (py_OrderID p)), (''amount_paise'', JInt (py_AmountPaise p)),
       (''currency'', JStr (py_Currency p)), (''status'', JStr (py_Status p)), (''method'', JStr (py_Method p)),
       (''captured_at'', JStr (rfc3339nano (py_CapturedAt p)))]"

section \<open>faults.go\<close>

record FaultConfig =
  fc_UTRCorruptionRate :: rat
  fc_DelayPastSLARate :: rat
  fc_DuplicateWebhookRate :: rat
  fc_AmbigiousCandidateRate :: rat
  fc_LedgerFatFingerRate :: rat
  fc_OutOfOrderWebhookRate :: rat

definition DefaultFaults :: FaultConfig where
  "DefaultFaults =
     \<lparr>fc_UTRCorruptionRate = 3 / 100, fc_DelayPastSLARate = 2 / 100, fc_DuplicateWebhookRate = 1 / 100,
      fc_AmbigiousCandidateRate = 15 / 1000, fc_LedgerFatFingerRate = 1 / 100, fc_OutOfOrderWebhookRate = 5 / 1000\<rparr>"

record GroundTruthRecord =
  gt_PaymentID :: string
  gt_InjectionFault :: string
  gt_ExpectedOutcome :: string

definition RecordFault :: "GroundTruthRecord list \<Rightarrow> string \<Rightarrow> string \<Rightarrow> string \<Rightarrow> GroundTruthRecord list" where
  "RecordFault ledger payID fault outcome =
     ledger @ [\<lparr>gt_PaymentID = payID, gt_InjectionFault = fault, gt_ExpectedOutcome = outcome\<rparr>]"

definition CorruptUTR :: "string \<Rightarrow> string" where
  "CorruptUTR utr = (if 4 < length utr then take (length utr div 2) utr else utr)"

definition DelayPastSLA :: "time \<Rightarrow> time" where
  "DelayPastSLA captureAt = time_add captureAt (10 * 24 * hour)"

definition FatFingerAmount :: "int \<Rightarrow> int" where
  "FatFingerAmount amount = wrap64 (amount - 1000)"

definition truth_json :: "GroundTruthRecord \<Rightarrow> json" where
  "truth_json g =
     JStruct [(''payment_id'', JStr (gt_PaymentID g)), (''injection_fault'', JStr (gt_InjectionFault g)),
       (''expected_outcome'', JStr (gt_ExpectedOutcome g))]"

section \<open>main.go\<close>

text \<open>A file as \<^verbatim>\<open>writeJSON\<close> leaves it.\<close>

definition gen_writeJSON :: "string \<Rightarrow> json \<Rightarrow> string \<times> string" where
  "gen_writeJSON path data = (path, json_text data @ [CHR 0x0A])"

definition out_path :: "string \<Rightarrow> string \<Rightarrow> string" where
  "out_path dir name = ''data/landing/'' @ dir @ ''/'' @ name"

text \<open>The webhooks of a payment and the structural fault they show.\<close>

definition structural_fault :: "FaultConfig \<Rightarrow> PaymentRecord \<Rightarrow> rat \<Rightarrow> string \<times> (string \<times> string) list" where
  "structural_fault cfg payment roll =
     (let webhook = (\<lambda>suffix p. gen_writeJSON (out_path ''webhooks'' (py_PaymentID payment @ suffix)) (payment_json p)) in
      if roll < fc_DuplicateWebhookRate cfg
      then (''DUPLICATE_WEBHOOK'', [webhook ''_dup1.json'' payment, webhook ''_dup2.json'' payment])
      else if roll < fc_DuplicateWebhookRate cfg + fc_OutOfOrderWebhookRate cfg
      then (''OUT_OF_ORDER_WEBHOOK'',
            [webhook ''_1_captured.json'' payment,
             webhook ''_2_failed.json'' (payment\<lparr>py_Status := ''failed'', py_CapturedAt := time_add (py_CapturedAt payment) (- hour)\<rparr>)])
      else (''NONE'', [webhook ''.json'' payment]))"

text \<open>The mutations of the settlement and the ledger line: fault, expected outcome, and the records.\<close>

definition mutator_fault ::
  "FaultConfig \<Rightarrow> PaymentRecord \<Rightarrow> SettlementLineRecord \<Rightarrow> LedgerLineRecord \<Rightarrow> rat \<Rightarrow>
   string \<times> string \<times> SettlementLineRecord \<times> LedgerLineRecord" where
  "mutator_fault cfg payment settlement ledger roll =
     (if roll < fc_UTRCorruptionRate cfg
      then (''UTR_CORRUPTION'', ''ID_CORRUPTED_NO_MATCH'',
            settlement\<lparr>sg_SettlementUTR := CorruptUTR (sg_SettlementUTR settlement)\<rparr>, ledger)
      else if roll < fc_UTRCorruptionRate cfg + fc_DelayPastSLARate cfg
      then (''DELAY_PAST_SLA'', ''NO_CANDIDATE_IN_WINDOW'',
            settlement\<lparr>sg_SettledAt := unix_seconds (DelayPastSLA (py_CapturedAt payment))\<rparr>, ledger)
      else if roll < fc_UTRCorruptionRate cfg + fc_DelayPastSLARate cfg + fc_LedgerFatFingerRate cfg
      then (''LEDGER_FAT_FINGER'', ''LEDGER_AMOUNT_MISMATCH'',
            settlement, ledger\<lparr>lg_AmountPaise := FatFingerAmount (lg_AmountPaise ledger)\<rparr>)
      else (''NONE'', ''EXACT'', settlement, ledger))"

text \<open>One turn of the loop: the number of rolls used, the files written, the ground truth.\<close>

definition generate_record ::
  "FaultConfig \<Rightarrow> time \<Rightarrow> (nat \<Rightarrow> rat) \<Rightarrow> int \<Rightarrow> nat \<times> (string \<times> string) list \<times> GroundTruthRecord list \<Rightarrow>
   nat \<times> (string \<times> string) list \<times> GroundTruthRecord list" where
  "generate_record cfg baseTime rolls i acc =
     (case acc of (n, files, groundTruth) \<Rightarrow>
       (let payment = GenerateBasePayment i baseTime;
            settlement = DeriveSettlement payment 1500 300;
            ledger = \<lparr>lg_Reference = py_OrderID payment, lg_AmountPaise = py_AmountPaise payment,
                      lg_BookedAt = rfc3339 (py_CapturedAt payment)\<rparr>;
            (structural, webhooks) = structural_fault cfg payment (rolls n);
            (used, faultName, outcome, settlement, ledger) =
              (if structural = ''NONE'' then (n + 2, mutator_fault cfg payment settlement ledger (rolls (n + 1)))
               else (n + 1, structural, ''EXACT'', settlement, ledger))
        in (used,
            files @ webhooks
              @ [gen_writeJSON (out_path ''webhooks'' (py_PaymentID payment @ ''.json'')) (payment_json payment),
                 gen_writeJSON (out_path ''settlements'' (sg_SettlementID settlement @ ''.json'')) (settlement_json settlement),
                 gen_writeJSON (out_path ''ledgers'' (''ledger_'' @ itoa i @ ''.json'')) (ledger_json ledger)],
            RecordFault groundTruth (py_PaymentID payment) faultName outcome)))"

definition generate_all ::
  "FaultConfig \<Rightarrow> time \<Rightarrow> (nat \<Rightarrow> rat) \<Rightarrow> nat \<Rightarrow> nat \<times> (string \<times> string) list \<times> GroundTruthRecord list" where
  "generate_all cfg baseTime rolls recordCount =
     fold (\<lambda>i. generate_record cfg baseTime rolls (int i)) [1 ..< recordCount + 1] (0, [], [])"

text \<open>\<^verbatim>\<open>time.Date(2026, 8, 1, 0, 0, 0, 0, time.UTC)\<close>.\<close>

definition gen_baseTime :: time where
  "gen_baseTime = 1785542400 * 1000000000"

definition gensynth_main :: "(nat \<Rightarrow> rat) \<Rightarrow> (string \<times> string) list \<times> string" where
  "gensynth_main rolls =
     (case generate_all DefaultFaults gen_baseTime rolls 10000 of
        (n, files, groundTruth) \<Rightarrow>
          (files @ [gen_writeJSON ''data/landing/ground_truth.jsonl'' (JArr (map truth_json groundTruth))],
           ''Successfully generated 10000 records with injected faults.'' @ [CHR 0x0A]))"

section \<open>The ground truth\<close>

lemma generate_record_truth:
  "map gt_PaymentID (snd (snd (generate_record cfg baseTime rolls i acc)))
     = map gt_PaymentID (snd (snd acc)) @ [''pay_synth_'' @ itoa i]"
  by (cases acc) (simp add: generate_record_def Let_def RecordFault_def GenerateBasePayment_def split: prod.splits)

lemma generate_truth:
  "map gt_PaymentID (snd (snd (fold (\<lambda>i. generate_record cfg baseTime rolls (int i)) is acc)))
     = map gt_PaymentID (snd (snd acc)) @ map (\<lambda>i. ''pay_synth_'' @ itoa (int i)) is"
  by (induction "is" arbitrary: acc) (simp_all add: generate_record_truth)

text \<open>
  The ground truth is complete: whatever the rates and the rolls, a run of any size records exactly
  one expected outcome for each generated payment, in the order of generation, and no two entries
  concern the same payment.
\<close>

theorem ground_truth_is_complete:
  "let truth = snd (snd (generate_all cfg baseTime rolls recordCount))
   in map gt_PaymentID truth = map (\<lambda>i. py_PaymentID (GenerateBasePayment (int i) baseTime)) [1 ..< recordCount + 1]
      \<and> distinct (map gt_PaymentID truth)"
proof -
  have "map gt_PaymentID (snd (snd (generate_all cfg baseTime rolls recordCount)))
      = map (\<lambda>i. ''pay_synth_'' @ itoa (int i)) [1 ..< recordCount + 1]"
    unfolding generate_all_def by (simp add: generate_truth)
  moreover have "inj (\<lambda>i. ''pay_synth_'' @ itoa (int i))"
    by (auto simp: inj_def itoa_inj)
  then have "distinct (map (\<lambda>i. ''pay_synth_'' @ itoa (int i)) [1 ..< recordCount + 1])"
    by (simp add: distinct_map inj_on_def)
  ultimately show ?thesis by (simp only: Let_def) (simp add: GenerateBasePayment_def)
qed

section \<open>How the program receives the files\<close>

lemma solid_bool: "solid (json_text (JBool b)) (JBool b)"
  by (cases b) (auto simp: solid_def parse_value.simps skip_ws_solid is_json_space_def)

lemma plain_itoa: "plain (itoa i)"
proof -
  have "plain_char c" if "is_digit c" for c using that by (auto simp: is_digit_def plain_char_def in_range_def)
  then have "plain (dec_nat n)" for n using dec_nat_digits [of n] by (auto simp: list_all_iff)
  then show ?thesis by (simp add: itoa_def plain_char_def)
qed

text \<open>A settlement file without a currency is refused by the schema.\<close>

lemma settlement_without_currency:
  assumes "list_all plain [sg_EntityID s, sg_Type s, sg_SettlementID s, sg_SettlementUTR s, sg_OrderID s, sg_Method s]"
    and "sg_Currency s = []"
  shows "\<exists>err. Parse SourceSettlement (json_text (settlement_json s) @ [CHR 0x0A]) = Inl err"
proof -
  define kvs where "kvs =
    [(''entity_id'', json_string (sg_EntityID s)), (''type'', json_string (sg_Type s)), (''debit'', itoa (sg_Debit s)),
     (''credit'', itoa (sg_Credit s)), (''amount'', itoa (sg_Amount s)), (''currency'', json_string []),
     (''fee'', itoa (sg_Fee s)), (''tax'', itoa (sg_Tax s)), (''on_hold'', json_text (JBool (sg_OnHold s))),
     (''settled'', json_text (JBool (sg_Settled s))), (''created_at'', itoa (sg_CreatedAt s)), (''settled_at'', itoa (sg_SettledAt s)),
     (''settlement_id'', json_string (sg_SettlementID s)), (''settlement_utr'', json_string (sg_SettlementUTR s)),
     (''order_id'', json_string (sg_OrderID s)), (''method'', json_string (sg_Method s))]"
  let ?raw = "raw_text kvs @ [CHR 0x0A]"
  have body: "json_text (settlement_json s) = raw_text kvs"
    by (simp add: settlement_json_def kvs_def raw_text_def raw_member_def assms(2))
  have "list_all (\<lambda>(k, v). plain k \<and> (\<exists>j. solid v j)) kvs"
    using assms(1) solid_string [of "[]"] solid_string [of "sg_EntityID s"] solid_string [of "sg_Type s"]
      solid_string [of "sg_SettlementID s"] solid_string [of "sg_SettlementUTR s"] solid_string [of "sg_OrderID s"]
      solid_string [of "sg_Method s"] itoa_solid
      solid_bool [of True] solid_bool [of False]
    by (auto simp: kvs_def plain_char_def)
  moreover have "kvs \<noteq> []" "distinct (map fst kvs)" by (simp_all add: kvs_def)
  ultimately have obj: "unmarshal_raw_object (raw_text kvs) = Inr kvs" by (intro unmarshal_rendered)
  obtain r where r: "raw_text kvs = CHR ''{'' # r" by (simp add: raw_text_def)
  have left: "trim_left ?raw = ?raw" by (simp add: r trim_left_ascii unicode_is_space_def in_range_def)
  have "trim_space (raw_text kvs) = raw_text kvs"
    by (rule trim_space_solid) (simp_all add: raw_text_def unicode_is_space_def in_range_def)
  moreover have "trim_left (raw_text kvs) = raw_text kvs" by (simp add: r trim_left_ascii unicode_is_space_def in_range_def)
  ultimately have trim: "trim_space ?raw = raw_text kvs"
    using left by (simp add: trim_space_def trim_right_ascii unicode_is_space_def in_range_def)
  have "check_currency SourceSettlement kvs \<noteq> None"
    using unmarshal_solid(1) [of "[]"] by (simp add: check_currency_def kvs_def equal_fold_def)
  then have "validateJSONObject SourceSettlement required kvs \<noteq> None" for required
    unfolding validateJSONObject_def first_error_None_iff by simp
  then have "validateJSON SourceSettlement ?raw \<noteq> None"
    using obj trim r by (auto simp: validateJSON_def RequiredJSONFields_def source_defs split: option.splits)
  moreover have "to_lower (trim_space SourceSettlement) = SourceSettlement" by (simp add: source_defs ascii_eval)
  ultimately have "Validate SourceSettlement ?raw \<noteq> None"
    using left r by (auto simp: Validate_def looksLikeCSV_def Let_def split: option.splits)
  then show ?thesis unfolding body by (auto simp: Parse_def)
qed

text \<open>
  No generated settlement can be ingested: the generator leaves the currency empty, so for every
  payment of the sequence, with or without an injected fault, every pipeline rejects the settlement file
  it writes and changes nothing; the outcomes of the ground truth cannot come about.
\<close>

theorem generated_settlement_rejected:
  "case mutator_fault cfg (GenerateBasePayment i baseTime) (DeriveSettlement (GenerateBasePayment i baseTime) fee tax) ledger roll of
     (faultName, outcome, settlement, ledger') \<Rightarrow>
       \<exists>err. Process pl \<lparr>ep_Source = SourceSettlement, ep_Body = snd (gen_writeJSON path (settlement_json settlement)),
               ep_SignatureHex = signature, ep_HMACSecret = secret, ep_ObjectKey = path\<rparr> p = (reject err, p)"
proof -
  let ?p = "GenerateBasePayment i baseTime"
  obtain f out settlement l where m: "mutator_fault cfg ?p (DeriveSettlement ?p fee tax) ledger roll = (f, out, settlement, l)"
    by (metis prod.exhaust)
  have pre: "plain (''UTR'' @ itoa k)" "plain (''pay_synth_'' @ itoa k)" "plain (''setl_synth_pay_synth_'' @ itoa k)" "plain ''card''" for k
    using plain_itoa by (simp_all add: plain_char_def)
  moreover have cut: "plain (take n t)" if "plain t" for n t
    using that by (auto simp: list_all_iff dest: in_set_takeD)
  moreover have "plain (CorruptUTR (''UTR'' @ itoa k))" for k
  proof (cases "4 < length (''UTR'' @ itoa k)")
    case True
    then show ?thesis unfolding CorruptUTR_def by (simp only: if_True cut [OF pre(1)])
  next
    case False
    then show ?thesis unfolding CorruptUTR_def by (simp only: if_False pre(1))
  qed
  ultimately have "list_all plain [sg_EntityID settlement, sg_Type settlement, sg_SettlementID settlement,
      sg_SettlementUTR settlement, sg_OrderID settlement, sg_Method settlement] \<and> sg_Currency settlement = []"
    using m by (auto simp: mutator_fault_def DeriveSettlement_def GenerateBasePayment_def split: if_splits)
  then obtain err where "Parse SourceSettlement (json_text (settlement_json settlement) @ [CHR 0x0A]) = Inl err"
    using settlement_without_currency by blast
  then show ?thesis
    by (auto simp: m gen_writeJSON_def Process_def signature_ok_def source_defs)
qed

text \<open>
  A question about a generated payment asks for another one: the pattern of the question agent ends
  at the second underscore, so every identifier \<^verbatim>\<open>pay_synth_<n>\<close> is looked up as \<^verbatim>\<open>pay_synth\<close>.
\<close>

theorem generated_id_is_truncated:
  "cl_PaymentID (Classify (py_PaymentID (GenerateBasePayment i baseTime)) now) = ''pay_synth''"
  by (simp add: Classify_def GenerateBasePayment_def first_payment_id_def payment_id_here_def is_alnum_def is_digit_def in_range_def
      Let_def)

end
