(* ===== verification/Spec2Isabelle.thy ===== *)
theory Spec2Isabelle
  imports API_Props Reconctl Ingest_Progress Matcher_Progress Matching_Main Worker_Main Gensynth
begin

text \<open>
  SettleTrace: reconciliation of payments with settlements, bank lines and the merchant's ledger.

  \<^bold>\<open>The program.\<close> Payloads arrive as webhooks, as messages of a queue and as files of a landing directory
  (\<^verbatim>\<open>internal/ingestion\<close>). A payload is validated and screened for card numbers (\<^verbatim>\<open>internal/schema\<close>), parsed
  into records, and every record is written with its raw event in one transaction (\<^verbatim>\<open>internal/store\<close>); a
  cache and the unique keys of the tables recognise duplicates. The matching engine (\<^verbatim>\<open>internal/matcher\<close>)
  takes the payments of a time window, asks the pure decision core (\<^verbatim>\<open>internal/recon\<close>) for a match in one of
  its tiers or for the reason of an exception, and records each outcome with an entry of a hash-chained
  audit log (\<^verbatim>\<open>internal/audit\<close>); a lock in Redis keeps two runs apart. The operator interface
  (\<^verbatim>\<open>internal/api\<close>) lists exceptions, verifies the log, explains an exception and answers questions; the
  last two ask a language model behind a spending cap and a circuit breaker (\<^verbatim>\<open>internal/ai\<close>). The programs of
  \<^verbatim>\<open>cmd\<close> put these parts together; \<^verbatim>\<open>tools/gensynth\<close> generates test data.

  \<^bold>\<open>Go and its library.\<close>

  \<^item> \<open>Go_Prelude\<close>: errors as values with wrapping and \<^verbatim>\<open>errors.Is\<close>, \<^verbatim>\<open>int64\<close> with its wrap-around written out,
    times and durations in nanoseconds, the collections of facts and the shared lemmas;
  \<^item> \<open>Go_Text\<close>: strings as bytes, UTF-8, lower case, trimming; \<open>Go_Time\<close>: RFC 3339;
  \<^item> \<open>Go_Json\<close>, \<open>Go_Decode\<close>, \<open>Go_Struct\<close>: \<^verbatim>\<open>encoding/json\<close> in both directions, \<^verbatim>\<open>encoding/csv\<close>, hexadecimal and
    base64, with the lemmas that what is written is read back;
  \<^item> \<open>Go_Crypto\<close>: SHA-256 and HMAC on 32-bit words.

  \<^bold>\<open>The components.\<close>

  \<^item> \<open>Audit_Log\<close> (\<^verbatim>\<open>audit/hash.go\<close>): \<open>Seal\<close> and \<open>Verify\<close>. Verification is characterized on every log;
    tampering is detected and the last hash commits to the history unless SHA-256 collides, which
    is the conclusion's alternative and never assumed away.
  \<^item> \<open>Recon\<close> (\<^verbatim>\<open>recon/types.go\<close>, \<^verbatim>\<open>matcher.go\<close>): the tiers are interpretations of the contract \<open>unique_match\<close>;
    decisions do not depend on the order of the candidates; \<open>levenshtein\<close> is the edit distance.
  \<^item> \<open>Store_Rows\<close> (\<^verbatim>\<open>store/store.go\<close>, \<^verbatim>\<open>guard.go\<close>): rows, the append-only guard and the contract \<open>ingest_store\<close>;
    \<open>Memory_Store\<close> (\<^verbatim>\<open>memory.go\<close>) and \<open>MySQL_Store\<close> (\<^verbatim>\<open>mysql.go\<close>, \<^verbatim>\<open>audit_mysql.go\<close>, \<^verbatim>\<open>qa_mysql.go\<close>) implement it,
    the latter by the proofs of \<open>MySQL_Laws\<close>; \<open>MySQL_Health\<close> has what a fault-free server adds; \<open>Migrations\<close> (\<^verbatim>\<open>migrate.go\<close>) runs every file once.
  \<^item> \<open>Matcher_Engine\<close> (\<^verbatim>\<open>matcher/dispatcher.go\<close>, \<^verbatim>\<open>report.go\<close>, \<^verbatim>\<open>idgen.go\<close>, \<^verbatim>\<open>tier3.go\<close>): the run of a window over a
    record of store operations. \<open>Matcher_Laws\<close> has the contracts \<open>recon_invariant\<close> and \<open>recon_store\<close> with their
    instances on MySQL, \<open>Matcher_Props\<close> the properties of runs: no payment is left behind, every outcome
    is audited, the log stays verifiable whatever fails, a second run of the settlement side is idle.
    \<open>Matcher_Progress\<close> proves that on a database that has recovered a run comes to its end.
    \<open>Batch_Lock\<close> (\<^verbatim>\<open>locker.go\<close>) has the lock and its interleavings as a step relation.
  \<^item> \<open>Schema\<close> (\<^verbatim>\<open>schema/validate.go\<close>, \<^verbatim>\<open>pan.go\<close>), \<open>Ingest_Parse\<close> (\<^verbatim>\<open>ingestion/parse.go\<close>), \<open>Ingest_Pipeline\<close>
    (\<^verbatim>\<open>pipeline.go\<close>, \<^verbatim>\<open>cache.go\<close>, \<^verbatim>\<open>idempotency.go\<close>, \<^verbatim>\<open>http.go\<close>, the queue loop of \<^verbatim>\<open>worker.go\<close>) and \<open>Ingest_Sources\<close>
    (\<^verbatim>\<open>sources.go\<close>, the landing loop of \<^verbatim>\<open>worker.go\<close>, \<^verbatim>\<open>awsx.go\<close>). \<open>Ingest_Laws\<close> proves, from the contracts of the
    cache and the store, that an acknowledged payload is stored and that processing it again changes
    nothing; \<open>Ingest_Props\<close> and \<open>Ingest_Sources\<close> carry this to the webhook, the queue and the directory.
    \<open>Ingest_Progress\<close> proves that redelivery to a recovered database ends with an acknowledgement, and what
    is never acknowledged or never audited.
  \<^item> \<open>AI_Guards\<close> (\<^verbatim>\<open>ai/breaker.go\<close>, \<^verbatim>\<open>budget.go\<close>), \<open>AI_Explainer\<close> (\<^verbatim>\<open>explainer.go\<close>, \<^verbatim>\<open>llm_client.go\<close>) and \<open>QA_Agent\<close>
    (\<^verbatim>\<open>ai/qa\<close>): the breaker refines a function of the history of outcomes, concurrent reservations never
    exceed the cap together, an outage costs a bounded number of calls, an answer shows the rows of
    one fixed query.
  \<^item> \<open>API_Server\<close> (\<^verbatim>\<open>api/server.go\<close>) with \<open>API_Props\<close>: cursors survive their encoding, and a client that
    follows them sees every open exception once, in the listed order, and stops.
  \<^item> The programs: \<open>API_Main\<close> (\<^verbatim>\<open>cmd/api\<close>), \<open>Reconctl\<close> (\<^verbatim>\<open>cmd/reconctl\<close>), \<open>Matching_Main\<close> (\<^verbatim>\<open>cmd/matching-engine\<close>),
    \<open>Worker_Main\<close> (\<^verbatim>\<open>cmd/ingestion-worker\<close>) and \<open>Gensynth\<close> (\<^verbatim>\<open>tools/gensynth\<close>). Here the properties of the
    components meet: the interface changes no table but the explanation log, both verifiers of the log
    agree, a finished run has covered its window, the worker acknowledges only what is committed.

  \<^bold>\<open>Correspondence.\<close> A struct is a record whose fields carry a short prefix and the Go name; a function keeps its name, with
  a prefix where several types have it (\<open>my_\<close> for the MySQL store, \<open>mem_\<close> for the memory store). Constants
  and error texts are the source's; of the standard library's own messages the position details are left
  out. Stateful code returns its error, or value, and the new state; a loop with early
  return is \<open>for_each\<close> or its own recursion.

  \<^bold>\<open>Parameters.\<close> What is not Go code of the repository is an argument:

  \<^item> the database server, \<open>engine\<close>: the fault of each statement, AUTO_INCREMENT, collation, the text a JSON
    column returns, the precision of DATETIME(6), the order of scans. \<open>sound_engine\<close> collects what is
    documented of it: ids increase, scans are complete, microseconds are kept, JSON keeps its value.
    \<open>honest_faults\<close>: only a violated key is reported as a duplicate. \<open>healthy_from e k\<close>: from statement \<open>k\<close> on no
    statement fails and a JSON column takes what \<^verbatim>\<open>json.Marshal\<close> writes, up to 100 levels deep. Properties that
    need none of these hold for every engine;
  \<^item> the clock, the random source, the ranker's answers and the order of Go maps, \<open>env\<close>, indexed by a
    counter of readings; \<open>full_ranges\<close>: a range visits every key once; \<open>working_env\<close>: the random source answers
    and what the ranker sent can be printed again;
  \<^item> Redis under the contracts \<open>lock_server\<close> and \<open>float_counter\<close>, the cache under \<open>duplicate_cache\<close>, the queue
    under \<open>sqs_service\<close>, the file system under \<open>landing_files\<close>, the tracking table of migrations under
    \<open>migration_db\<close>; the HTTP transport of the model and the ranker, S3 and the AWS configuration, the environment variables and the
    files that are read have no assumptions. Each contract has an interpretation on a concrete server.

  \<^bold>\<open>Bounds.\<close> Every recursion terminates by a proved measure. The depth of JSON is cut off at 10000, as the
  decoder does. The only fuel is the number of requests of the paging client; one more than the rows of
  the table is shown to be enough. A float64 of the AI layer is the rational it denotes, with rounding to 53 bits written
  out where the code prints a rate; a number in a decoded payload is carried as the text Go prints.

  \<^bold>\<open>Interleaving.\<close> Operations under a mutex are atomic steps. The lock and the budget are modelled at the
  granularity of single Redis commands of several processes. The worker is a sequence of webhooks and
  polls, each handled as a whole; database statements of one process run one after another.

  \<^bold>\<open>Not modelled.\<close> The system clock (\<^verbatim>\<open>recon/clock.go\<close>), which is a parameter; the lengths of text columns, whose errors are among the faults of the server; the polling interval and the server loop of the worker, which are sequences of
  events; the Python ranker and the PHP adapter, which are other programs; Terraform, scripts and CI.
\<close>

end
